(* ===== verification/Prelude.thy ===== *)
theory Prelude
  imports Complex_Main "HOL-Library.Sublist" "HOL-Library.Multiset"
begin

text \<open>
  Shared vocabulary of the development: JavaScript's insertion-ordered \<^verbatim>\<open>Set\<close> and \<^verbatim>\<open>Map\<close>
  as distinct lists and association lists, \<^verbatim>\<open>slice(len - n)\<close>, the last element as an option, and
  the exception-and-state programs (\<open>prog\<close>) in which the stateful modules are written, with the
  Hoare rules that carry the invariant proofs.  The collections \<open>js_set\<close>, \<open>js_map\<close> and
  \<open>hoare_rules\<close> gather the facts the component proofs pass to the automation.
\<close>

named_theorems js_set "facts on insertion-ordered sets"
named_theorems js_map "facts on insertion-ordered maps"
named_theorems hoare_rules "introduction rules for Hoare triples over programs"

section \<open>Lists\<close>

definition last_opt :: "'a list \<Rightarrow> 'a option" where
  "last_opt xs = (if xs = [] then None else Some (last xs))"

definition keep_last :: "nat \<Rightarrow> 'a list \<Rightarrow> 'a list" where
  "keep_last n xs = drop (length xs - n) xs"

lemma last_opt_in: "last_opt xs = Some x \<Longrightarrow> x \<in> set xs"
  by (auto simp: last_opt_def split: if_splits)

lemma last_opt_None [simp]: "last_opt xs = None \<longleftrightarrow> xs = []"
  by (auto simp: last_opt_def)

lemma length_keep_last [simp]: "length (keep_last n xs) = min n (length xs)"
  by (simp add: keep_last_def)

lemma keep_last_all: "length xs \<le> n \<Longrightarrow> keep_last n xs = xs"
  by (simp add: keep_last_def)

lemma set_keep_last: "set (keep_last n xs) \<subseteq> set xs"
  by (auto simp: keep_last_def dest: in_set_dropD)

lemma keep_last_split: "take (length xs - n) xs @ keep_last n xs = xs"
  by (simp add: keep_last_def)

lemma sorted_wrt_keep_last: "sorted_wrt R xs \<Longrightarrow> sorted_wrt R (keep_last n xs)"
  by (simp add: keep_last_def sorted_wrt_drop)

lemma sorted_wrt_dropped_kept:
  assumes "sorted_wrt R xs" "x \<in> set (take (length xs - n) xs)" "y \<in> set (keep_last n xs)"
  shows "R x y"
proof -
  have "sorted_wrt R (take (length xs - n) xs @ keep_last n xs)"
    using assms(1) by (simp add: keep_last_split)
  then show ?thesis using assms(2,3) by (auto simp: sorted_wrt_append)
qed

lemma keep_last_keep_last: "keep_last n (keep_last n xs @ ys) = keep_last n (xs @ ys)"
proof (cases "length xs \<le> n")
  case False
  then have "drop (length xs - n) (xs @ ys) = keep_last n xs @ ys" and l: "length (keep_last n xs) = n"
    by (simp_all add: keep_last_def)
  moreover have "keep_last n (xs @ ys) = drop (length ys) (drop (length xs - n) (xs @ ys))"
    using False by (simp add: keep_last_def drop_drop add.commute del: drop_append)
  ultimately have "keep_last n (xs @ ys) = drop (length ys) (keep_last n xs @ ys)" by simp
  with l show ?thesis by (simp add: keep_last_def [of n "keep_last n xs @ ys"])
qed (simp add: keep_last_all)

text \<open>
  A log that keeps its newest entries: the network capture of a tab and its recent dialogs.  However
  many entries are pushed, it holds the newest ones, in order.
\<close>

locale bounded_log =
  fixes entries :: "'s \<Rightarrow> 'a list"
    and push :: "'a \<Rightarrow> 's \<Rightarrow> 's"
    and cap :: nat
  assumes entries_push: "length (entries s) \<le> cap \<Longrightarrow> entries (push x s) = keep_last cap (entries s @ [x])"
begin

lemma entries_run: "length (entries s) \<le> cap \<Longrightarrow> entries (fold push xs s) = keep_last cap (entries s @ xs)"
proof (induction xs rule: rev_induct)
  case Nil
  then show ?case by (simp add: keep_last_all)
next
  case (snoc x xs)
  then show ?case by (simp add: entries_push keep_last_keep_last)
qed

lemma bounded_push: "length (entries s) \<le> cap \<Longrightarrow> length (entries (push x s)) \<le> cap"
  by (simp add: entries_push)

end

section \<open>Insertion-ordered sets\<close>

definition sadd :: "'a \<Rightarrow> 'a list \<Rightarrow> 'a list" where
  "sadd x xs = (if x \<in> set xs then xs else xs @ [x])"

definition sdel :: "'a \<Rightarrow> 'a list \<Rightarrow> 'a list" where
  "sdel x xs = filter (\<lambda>y. y \<noteq> x) xs"

fun sadds :: "'a list \<Rightarrow> 'a list \<Rightarrow> 'a list" where
  "sadds [] xs = xs"
| "sadds (y # ys) xs = sadds ys (sadd y xs)"

lemma set_sadd [js_set, simp]: "set (sadd x xs) = insert x (set xs)"
  by (auto simp: sadd_def)

lemma set_sdel [js_set, simp]: "set (sdel x xs) = set xs - {x}"
  by (auto simp: sdel_def)

lemma set_sadds [js_set, simp]: "set (sadds ys xs) = set ys \<union> set xs"
  by (induction ys xs rule: sadds.induct) auto

lemma distinct_sadd [js_set, simp]: "distinct xs \<Longrightarrow> distinct (sadd x xs)"
  by (auto simp: sadd_def)

lemma distinct_sdel [js_set, simp]: "distinct xs \<Longrightarrow> distinct (sdel x xs)"
  by (auto simp: sdel_def)

lemma distinct_sadds [js_set, simp]: "distinct xs \<Longrightarrow> distinct (sadds ys xs)"
  by (induction ys xs rule: sadds.induct) auto

lemma sdel_absent [simp]: "x \<notin> set xs \<Longrightarrow> sdel x xs = xs"
  by (auto simp: sdel_def intro: filter_True)

lemma length_sdel_distinct: "distinct xs \<Longrightarrow> x \<in> set xs \<Longrightarrow> Suc (length (sdel x xs)) = length xs"
  by (induction xs) (auto simp: sdel_def intro: filter_True arg_cong [where f = length])

section \<open>Insertion-ordered maps\<close>

text \<open>Lookups stay lookups: distinct keys must not turn them into membership of the list.\<close>

declare map_of_eq_Some_iff [simp del] map_of_eq_None_iff [simp del]

fun mput :: "'k \<Rightarrow> 'v \<Rightarrow> ('k \<times> 'v) list \<Rightarrow> ('k \<times> 'v) list" where
  "mput k v [] = [(k, v)]"
| "mput k v ((k', v') # m) = (if k' = k then (k, v) # m else (k', v') # mput k v m)"

definition mdel :: "'k \<Rightarrow> ('k \<times> 'v) list \<Rightarrow> ('k \<times> 'v) list" where
  "mdel k m = filter (\<lambda>p. fst p \<noteq> k) m"

abbreviation keys :: "('k \<times> 'v) list \<Rightarrow> 'k list" where
  "keys m \<equiv> map fst m"

lemma map_of_mput [js_map, simp]: "map_of (mput k v m) = (map_of m)(k \<mapsto> v)"
  by (induction k v m rule: mput.induct) auto

lemma map_of_mdel [js_map, simp]: "map_of (mdel k m) = (map_of m)(k := None)"
  by (induction m) (auto simp: mdel_def)

lemma set_keys_mput [js_map, simp]: "fst ` set (mput k v m) = insert k (fst ` set m)"
  by (induction k v m rule: mput.induct) auto

lemma set_keys_mdel [js_map, simp]: "fst ` set (mdel k m) = fst ` set m - {k}"
  by (auto simp: mdel_def)

lemma distinct_keys_mput [js_map, simp]: "distinct (keys m) \<Longrightarrow> distinct (keys (mput k v m))"
  by (induction k v m rule: mput.induct) auto

lemma distinct_keys_mdel [js_map, simp]: "distinct (keys m) \<Longrightarrow> distinct (keys (mdel k m))"
  by (simp add: mdel_def distinct_map_filter)

lemma mput_mput [js_map, simp]: "mput k v (mput k v' m) = mput k v m"
  by (induction k v m rule: mput.induct) auto

lemma map_of_filter_keys: "map_of (filter (\<lambda>p. P (fst p)) m) k = (if P k then map_of m k else None)"
  by (induction m) auto

lemma keys_mput_present: "k \<in> fst ` set m \<Longrightarrow> keys (mput k v m) = keys m"
  by (induction k v m rule: mput.induct) auto

lemma keys_mput_absent: "k \<notin> fst ` set m \<Longrightarrow> keys (mput k v m) = keys m @ [k]"
  by (induction k v m rule: mput.induct) auto

lemma map_of_Some_keys: "map_of m k = Some v \<Longrightarrow> k \<in> fst ` set m"
  by (metis domI dom_map_of_conv_image_fst)

text \<open>
  The interface every keyed table of the extension offers its clients: the ref tables
  (\<^verbatim>\<open>refs.js\<close>), the session map (\<^verbatim>\<open>sessions.js\<close>), the per-tab buffers and policies of the tools.
\<close>

locale keyed_table =
  fixes get :: "'m \<Rightarrow> 'k \<Rightarrow> 'v option"
    and put :: "'k \<Rightarrow> 'v \<Rightarrow> 'm \<Rightarrow> 'm"
    and del :: "'k \<Rightarrow> 'm \<Rightarrow> 'm"
  assumes get_put: "get (put k v m) k' = (if k' = k then Some v else get m k')"
    and get_del: "get (del k m) k' = (if k' = k then None else get m k')"
begin

lemma last_write_wins: "get (put k v (put k v' m)) = get (put k v m)"
  by (rule ext) (simp add: get_put)

lemma writes_commute: "k \<noteq> j \<Longrightarrow> get (put k v (put j u m)) = get (put j u (put k v m))"
  by (rule ext) (simp add: get_put)

lemma del_gone: "get (del k m) k = None"
  by (simp add: get_del)

lemma del_put: "get (del k (put k v m)) = get (del k m)"
  by (rule ext) (simp add: get_del get_put)

lemma frame_put: "k' \<noteq> k \<Longrightarrow> get (put k v m) k' = get m k'"
  by (simp add: get_put)

lemma frame_del: "k' \<noteq> k \<Longrightarrow> get (del k m) k' = get m k'"
  by (simp add: get_del)

end

interpretation jsmap: keyed_table "map_of" mput mdel
  by unfold_locales auto

section \<open>Programs: state passing with exceptions\<close>

text \<open>
  A call of an asynchronous handler, run to completion: it takes the state and gives the value
  returned or the error thrown, with the new state.
\<close>

type_synonym ('s, 'e, 'a) prog = "'s \<Rightarrow> ('e + 'a) \<times> 's"

definition ret :: "'a \<Rightarrow> ('s, 'e, 'a) prog" where
  "ret x = (\<lambda>s. (Inr x, s))"

definition throw :: "'e \<Rightarrow> ('s, 'e, 'a) prog" where
  "throw e = (\<lambda>s. (Inl e, s))"

definition bindp :: "('s, 'e, 'a) prog \<Rightarrow> ('a \<Rightarrow> ('s, 'e, 'b) prog) \<Rightarrow> ('s, 'e, 'b) prog" where
  "bindp m f = (\<lambda>s. case m s of (Inl e, s') \<Rightarrow> (Inl e, s') | (Inr x, s') \<Rightarrow> f x s')"

definition seqp :: "('s, 'e, 'a) prog \<Rightarrow> ('s, 'e, 'b) prog \<Rightarrow> ('s, 'e, 'b) prog" where
  "seqp m n = bindp m (\<lambda>_. n)"

definition catchp :: "('s, 'e, 'a) prog \<Rightarrow> ('e \<Rightarrow> ('s, 'e, 'a) prog) \<Rightarrow> ('s, 'e, 'a) prog" where
  "catchp m h = (\<lambda>s. case m s of (Inl e, s') \<Rightarrow> h e s' | (Inr x, s') \<Rightarrow> (Inr x, s'))"

definition reads :: "('s \<Rightarrow> 'a) \<Rightarrow> ('s, 'e, 'a) prog" where
  "reads f = (\<lambda>s. (Inr (f s), s))"

definition modifies :: "('s \<Rightarrow> 's) \<Rightarrow> ('s, 'e, unit) prog" where
  "modifies f = (\<lambda>s. (Inr (), f s))"

fun for_each :: "'a list \<Rightarrow> ('a \<Rightarrow> ('s, 'e, unit) prog) \<Rightarrow> ('s, 'e, unit) prog" where
  "for_each [] f = ret ()"
| "for_each (x # xs) f = seqp (f x) (for_each xs f)"

fun foldp :: "('a \<Rightarrow> 'b \<Rightarrow> ('s, 'e, 'b) prog) \<Rightarrow> 'a list \<Rightarrow> 'b \<Rightarrow> ('s, 'e, 'b) prog" where
  "foldp f [] b = ret b"
| "foldp f (x # xs) b = bindp (f x b) (foldp f xs)"

lemmas prog_defs = ret_def throw_def bindp_def seqp_def catchp_def reads_def modifies_def

subsection \<open>Hoare triples\<close>

definition hoare :: "('s \<Rightarrow> bool) \<Rightarrow> ('s, 'e, 'a) prog \<Rightarrow> ('a \<Rightarrow> 's \<Rightarrow> bool) \<Rightarrow> ('e \<Rightarrow> 's \<Rightarrow> bool) \<Rightarrow> bool"
  where "hoare P m Q E \<longleftrightarrow>
    (\<forall>s. P s \<longrightarrow> (case m s of (Inl e, s') \<Rightarrow> E e s' | (Inr x, s') \<Rightarrow> Q x s'))"

abbreviation keeps :: "('s \<Rightarrow> bool) \<Rightarrow> ('s, 'e, 'a) prog \<Rightarrow> bool" where
  "keeps I m \<equiv> hoare I m (\<lambda>_. I) (\<lambda>_. I)"

lemma hoareD_Inr: "hoare P m Q E \<Longrightarrow> P s \<Longrightarrow> m s = (Inr x, s') \<Longrightarrow> Q x s'"
  by (force simp: hoare_def)

lemma hoareD_Inl: "hoare P m Q E \<Longrightarrow> P s \<Longrightarrow> m s = (Inl e, s') \<Longrightarrow> E e s'"
  by (force simp: hoare_def)

lemma keepsD: "keeps I m \<Longrightarrow> I s \<Longrightarrow> I (snd (m s))"
  by (cases "m s"; cases "fst (m s)") (auto dest: hoareD_Inr hoareD_Inl)

lemma hoare_sndI: "(\<And>s. P s \<Longrightarrow> Q (snd (m s))) \<Longrightarrow> hoare P m (\<lambda>_. Q) (\<lambda>_. Q)"
  by (force simp: hoare_def split: prod.splits sum.splits)

lemma keepsI: "(\<And>s. I s \<Longrightarrow> I (snd (m s))) \<Longrightarrow> keeps I m"
  by (force simp: hoare_def split: prod.splits sum.splits)

lemma hoare_conseq:
  "hoare P' m Q' E' \<Longrightarrow> (\<And>s. P s \<Longrightarrow> P' s) \<Longrightarrow> (\<And>x s. Q' x s \<Longrightarrow> Q x s) \<Longrightarrow> (\<And>e s. E' e s \<Longrightarrow> E e s)
    \<Longrightarrow> hoare P m Q E"
  by (force simp: hoare_def split: prod.splits sum.splits)

lemma hoare_ret [hoare_rules]: "(\<And>s. P s \<Longrightarrow> Q x s) \<Longrightarrow> hoare P (ret x) Q E"
  by (simp add: hoare_def ret_def)

lemma hoare_throw [hoare_rules]: "(\<And>s. P s \<Longrightarrow> E e s) \<Longrightarrow> hoare P (throw e) Q E"
  by (simp add: hoare_def throw_def)

lemma hoare_bindp: "hoare P m R E \<Longrightarrow> (\<And>x. hoare (R x) (f x) Q E) \<Longrightarrow> hoare P (bindp m f) Q E"
  by (fastforce simp: hoare_def bindp_def split: prod.splits sum.splits)

lemma hoare_seqp: "hoare P m (\<lambda>_. R) E \<Longrightarrow> hoare R n Q E \<Longrightarrow> hoare P (seqp m n) Q E"
  unfolding seqp_def by (rule hoare_bindp)

lemma hoare_catchp: "hoare P m Q R \<Longrightarrow> (\<And>e. hoare (R e) (h e) Q E) \<Longrightarrow> hoare P (catchp m h) Q E"
  by (fastforce simp: hoare_def catchp_def split: prod.splits sum.splits)

lemma hoare_reads: "hoare P (reads f) (\<lambda>x s. P s \<and> x = f s) E"
  by (simp add: hoare_def reads_def)

lemma hoare_modifies [hoare_rules]: "(\<And>s. P s \<Longrightarrow> Q () (f s)) \<Longrightarrow> hoare P (modifies f) Q E"
  by (simp add: hoare_def modifies_def)

lemma keeps_reads [hoare_rules]: "keeps I (reads f)"
  by (simp add: hoare_def reads_def)

lemma keeps_bindp [hoare_rules]: "keeps I m \<Longrightarrow> (\<And>x. keeps I (f x)) \<Longrightarrow> keeps I (bindp m f)"
  by (rule hoare_bindp)

lemma keeps_seqp [hoare_rules]: "keeps I m \<Longrightarrow> keeps I n \<Longrightarrow> keeps I (seqp m n)"
  by (rule hoare_seqp)

lemma keeps_catchp [hoare_rules]: "keeps I m \<Longrightarrow> (\<And>e. keeps I (h e)) \<Longrightarrow> keeps I (catchp m h)"
  by (rule hoare_catchp)

lemma keeps_for_each [hoare_rules]: "(\<And>x. x \<in> set xs \<Longrightarrow> keeps I (f x)) \<Longrightarrow> keeps I (for_each xs f)"
  by (induction xs) (auto intro: hoare_ret hoare_seqp)

lemma keeps_foldp [hoare_rules]: "(\<And>x b. x \<in> set xs \<Longrightarrow> keeps I (f x b)) \<Longrightarrow> keeps I (foldp f xs b)"
  by (induction xs arbitrary: b) (auto intro: hoare_ret hoare_bindp)

lemma keeps_if [hoare_rules]: "(b \<Longrightarrow> keeps I m) \<Longrightarrow> (\<not> b \<Longrightarrow> keeps I n) \<Longrightarrow> keeps I (if b then m else n)"
  by simp

lemma keeps_option [hoare_rules]:
  "(x = None \<Longrightarrow> keeps I m) \<Longrightarrow> (\<And>y. x = Some y \<Longrightarrow> keeps I (n y)) \<Longrightarrow> keeps I (case x of None \<Rightarrow> m | Some y \<Rightarrow> n y)"
  by (cases x) auto

lemma keeps_sum [hoare_rules]:
  "(\<And>e. x = Inl e \<Longrightarrow> keeps I (m e)) \<Longrightarrow> (\<And>y. x = Inr y \<Longrightarrow> keeps I (n y)) \<Longrightarrow> keeps I (case x of Inl e \<Rightarrow> m e | Inr y \<Rightarrow> n y)"
  by (cases x) auto

lemma bindp_Inr: "m s = (Inr x, s') \<Longrightarrow> bindp m f s = f x s'"
  by (simp add: bindp_def)

lemma bindp_Inl: "m s = (Inl e, s') \<Longrightarrow> bindp m f s = (Inl e, s')"
  by (simp add: bindp_def)

lemma bindp_reads: "bindp (reads f) g s = g (f s) s"
  by (simp add: bindp_def reads_def)

lemma bindp_modifies: "bindp (modifies f) g s = g () (f s)"
  by (simp add: bindp_def modifies_def)

lemma bindp_ret [simp]: "bindp (ret x) f = f x"
  by (rule ext) (simp add: bindp_def ret_def)

lemma bindp_assoc: "bindp (bindp m f) g = bindp m (\<lambda>x. bindp (f x) g)"
  by (rule ext) (simp add: bindp_def split: prod.splits sum.splits)

lemma run_eq: "fst p = r \<Longrightarrow> p = (r, snd p)"
  by (metis prod.collapse)

lemma bindp_Inr_cases:
  assumes "bindp m f s = (Inr y, s'')"
  obtains x s' where "m s = (Inr x, s')" "f x s' = (Inr y, s'')"
  using assms by (auto simp: bindp_def split: prod.splits sum.splits)

lemma seqp_Inr_cases:
  assumes "seqp m n s = (Inr y, s'')"
  obtains x s' where "m s = (Inr x, s')" "n s' = (Inr y, s'')"
  using assms unfolding seqp_def by (rule bindp_Inr_cases)

end
