(* ===== verification/JsValue.thy ===== *)
theory JsValue
  imports Prelude
begin

text \<open>
  The JavaScript values and coercions the modelled code uses: strings (lists of Latin-1 code
  units, on which \<^verbatim>\<open>toLowerCase\<close>, \<^verbatim>\<open>trim\<close>, \<^verbatim>\<open>includes\<close>, \<^verbatim>\<open>endsWith\<close> and \<^verbatim>\<open>slice\<close> are exact),
  numbers (rationals with NaN and the infinities, so arithmetic is exact), dynamic values as they
  arrive in JSON messages, and \<^verbatim>\<open>Boolean(v)\<close>, \<^verbatim>\<open>String(v)\<close>, \<^verbatim>\<open>Number(v)\<close> on them.
\<close>

section \<open>Strings\<close>

abbreviation code_of :: "char \<Rightarrow> nat" where
  "code_of c \<equiv> of_char c"

text \<open>Lower case on Latin-1: A to Z and the accented capitals 192 to 222 but the times sign.\<close>

definition lower_char :: "char \<Rightarrow> char" where
  "lower_char c =
     (if (65 \<le> code_of c \<and> code_of c \<le> 90)
        \<or> (192 \<le> code_of c \<and> code_of c \<le> 222 \<and> code_of c \<noteq> 215)
      then char_of (code_of c + 32) else c)"

definition js_lower :: "string \<Rightarrow> string" where
  "js_lower s = map lower_char s"

text \<open>White space and line terminators: TAB, LF, VT, FF, CR, SPACE, NBSP.\<close>

definition is_ws :: "char \<Rightarrow> bool" where
  "is_ws c \<longleftrightarrow> code_of c \<in> {9, 10, 11, 12, 13, 32, 160}"

definition js_trim :: "string \<Rightarrow> string" where
  "js_trim s = rev (dropWhile is_ws (rev (dropWhile is_ws s)))"

text \<open>\<^verbatim>\<open>s.replace(/\s+/g, " ")\<close>.\<close>

lemma dropWhile_shorter [termination_simp]: "length (dropWhile P s) < Suc (length s)"
  by (simp add: le_imp_less_Suc length_dropWhile_le)

fun collapse :: "string \<Rightarrow> string" where
  "collapse [] = []"
| "collapse (c # s) =
     (if is_ws c then CHR '' '' # collapse (dropWhile is_ws s) else c # collapse s)"

definition ends_with :: "string \<Rightarrow> string \<Rightarrow> bool" where
  "ends_with s w \<longleftrightarrow> length w \<le> length s \<and> drop (length s - length w) s = w"

fun str_has :: "string \<Rightarrow> string \<Rightarrow> bool" where
  "str_has [] w \<longleftrightarrow> w = []"
| "str_has (c # s) w \<longleftrightarrow> take (length w) (c # s) = w \<or> str_has s w"

lemma code_of_lower_char:
  "code_of (lower_char c) =
     (if (65 \<le> code_of c \<and> code_of c \<le> 90)
        \<or> (192 \<le> code_of c \<and> code_of c \<le> 222 \<and> code_of c \<noteq> 215)
      then code_of c + 32 else code_of c)"
proof -
  have "code_of c + 32 < 256"
    if "(65 \<le> code_of c \<and> code_of c \<le> 90) \<or> (192 \<le> code_of c \<and> code_of c \<le> 222 \<and> code_of c \<noteq> 215)"
    using that by auto
  then show ?thesis
    by (auto simp: lower_char_def of_char_of)
qed

lemma lower_char_idem [simp]: "lower_char (lower_char c) = lower_char c"
proof -
  have "\<not> ((65 \<le> code_of (lower_char c) \<and> code_of (lower_char c) \<le> 90)
        \<or> (192 \<le> code_of (lower_char c) \<and> code_of (lower_char c) \<le> 222 \<and> code_of (lower_char c) \<noteq> 215))"
    by (auto simp: code_of_lower_char)
  then show ?thesis
    unfolding lower_char_def [of "lower_char c"] by auto
qed

lemma js_lower_idem [simp]: "js_lower (js_lower s) = js_lower s"
  by (simp add: js_lower_def)

lemma length_js_lower [simp]: "length (js_lower s) = length s"
  by (simp add: js_lower_def)

lemma js_lower_append: "js_lower (s @ t) = js_lower s @ js_lower t"
  by (simp add: js_lower_def)

lemma js_lower_Nil [simp]: "js_lower [] = []" "(js_lower s = []) = (s = [])"
  by (simp_all add: js_lower_def)

lemma length_js_trim: "length (js_trim s) \<le> length s"
proof -
  have "length (js_trim s) \<le> length (dropWhile is_ws s)"
    by (simp add: js_trim_def) (metis length_dropWhile_le length_rev)
  also have "\<dots> \<le> length s"
    by (rule length_dropWhile_le)
  finally show ?thesis .
qed

lemma js_trim_edges:
  assumes "js_trim s \<noteq> []"
  shows "\<not> is_ws (hd (js_trim s)) \<and> \<not> is_ws (last (js_trim s))"
proof -
  let ?l = "dropWhile is_ws s"
  let ?r = "dropWhile is_ws (rev ?l)"
  have r: "js_trim s = rev ?r" by (simp add: js_trim_def)
  with assms have ne: "?r \<noteq> []" by auto
  then have last: "\<not> is_ws (last (js_trim s))"
    unfolding r by (simp add: last_rev hd_dropWhile)
  from ne have l_ne: "?l \<noteq> []" by (metis dropWhile.simps(1) rev.simps(1))
  have "prefix (rev ?r) ?l"
    using suffix_dropWhile [of is_ws "rev ?l"] by (simp add: suffix_to_prefix)
  with ne have "hd (rev ?r) = hd ?l"
    by (metis Nil_is_rev_conv hd_append2 prefix_def)
  with l_ne r have "\<not> is_ws (hd (js_trim s))"
    by (simp add: hd_dropWhile)
  with last show ?thesis by simp
qed

lemma js_trim_id: "s = [] \<or> (\<not> is_ws (hd s) \<and> \<not> is_ws (last s)) \<Longrightarrow> js_trim s = s"
proof (cases s)
  case (Cons c t)
  assume "s = [] \<or> (\<not> is_ws (hd s) \<and> \<not> is_ws (last s))"
  with Cons have h: "\<not> is_ws c" and l: "\<not> is_ws (hd (rev s))"
    by (simp_all add: hd_rev del: rev.simps)
  from h Cons have "dropWhile is_ws s = s" by simp
  moreover from l have "dropWhile is_ws (rev s) = rev s"
    by (cases "rev s") simp_all
  ultimately show ?thesis by (simp add: js_trim_def)
qed (simp add: js_trim_def)

lemma js_trim_idem [simp]: "js_trim (js_trim s) = js_trim s"
  by (rule js_trim_id) (use js_trim_edges in blast)

lemma is_ws_lower [simp]: "is_ws (lower_char c) = is_ws c"
  by (auto simp: is_ws_def code_of_lower_char)

lemma js_trim_lower: "js_trim (js_lower s) = js_lower (js_trim s)"
  by (simp add: js_trim_def js_lower_def dropWhile_map rev_map o_def)

lemma ends_with_suffix: "ends_with s w \<longleftrightarrow> suffix w s"
proof
  assume "ends_with s w"
  then show "suffix w s"
    unfolding ends_with_def by (metis suffix_drop)
next
  assume "suffix w s"
  then obtain p where "s = p @ w" by (auto simp: suffix_def)
  then show "ends_with s w" by (simp add: ends_with_def)
qed

lemma take_prefix_iff: "take (length w) s = w \<longleftrightarrow> prefix w s"
  by (metis append_eq_conv_conj prefix_def take_is_prefix)

lemma str_has_sublist: "str_has s w \<longleftrightarrow> sublist w s"
proof (induction s)
  case Nil
  then show ?case by auto
next
  case (Cons c s)
  then show ?case by (simp add: take_prefix_iff sublist_Cons_right del: take_Cons')
qed

section \<open>Numbers\<close>

datatype jsnum = NaN | PosInf | NegInf | Fin rat

definition is_finite :: "jsnum \<Rightarrow> bool" where
  "is_finite n \<longleftrightarrow> (case n of Fin _ \<Rightarrow> True | _ \<Rightarrow> False)"

fun num_gt :: "jsnum \<Rightarrow> jsnum \<Rightarrow> bool" where
  "num_gt (Fin a) (Fin b) \<longleftrightarrow> a > b"
| "num_gt PosInf (Fin _) \<longleftrightarrow> True"
| "num_gt PosInf NegInf \<longleftrightarrow> True"
| "num_gt (Fin _) NegInf \<longleftrightarrow> True"
| "num_gt _ _ \<longleftrightarrow> False"

text \<open>Strict equality on numbers: NaN is unequal to itself.\<close>

definition num_eq :: "jsnum \<Rightarrow> jsnum \<Rightarrow> bool" where
  "num_eq a b \<longleftrightarrow> a \<noteq> NaN \<and> a = b"

text \<open>\<^verbatim>\<open>Math.round\<close>, \<^verbatim>\<open>Math.min\<close> and \<^verbatim>\<open>Math.max\<close>; NaN is absorbing.\<close>

definition js_round :: "rat \<Rightarrow> int" where
  "js_round q = \<lfloor>q + 1 / 2\<rfloor>"

definition num_round :: "jsnum \<Rightarrow> jsnum" where
  "num_round n = (case n of Fin q \<Rightarrow> Fin (of_int (js_round q)) | _ \<Rightarrow> n)"

definition num_min :: "jsnum \<Rightarrow> jsnum \<Rightarrow> jsnum" where
  "num_min a b = (if a = NaN \<or> b = NaN then NaN else if num_gt a b then b else a)"

definition num_max :: "jsnum \<Rightarrow> jsnum \<Rightarrow> jsnum" where
  "num_max a b = (if a = NaN \<or> b = NaN then NaN else if num_gt b a then b else a)"

lemma num_clamp:
  assumes "a \<le> b"
  shows "num_max (Fin a) (num_min (Fin b) n) = (case n of NaN \<Rightarrow> NaN | PosInf \<Rightarrow> Fin b | NegInf \<Rightarrow> Fin a | Fin q \<Rightarrow> Fin (max a (min b q)))"
  using assms by (auto simp: num_min_def num_max_def split: jsnum.splits)

definition digit_char :: "nat \<Rightarrow> char" where
  "digit_char n = char_of (48 + n)"

definition is_digit :: "char \<Rightarrow> bool" where
  "is_digit c \<longleftrightarrow> 48 \<le> code_of c \<and> code_of c \<le> 57"

definition digit_val :: "char \<Rightarrow> nat" where
  "digit_val c = code_of c - 48"

fun show_nat :: "nat \<Rightarrow> string" where
  "show_nat n = (if n < 10 then [digit_char n] else show_nat (n div 10) @ [digit_char (n mod 10)])"

declare show_nat.simps [simp del]

definition show_int :: "int \<Rightarrow> string" where
  "show_int i = (if i < 0 then ''-'' @ show_nat (nat (- i)) else show_nat (nat i))"

definition nat_of_digits :: "string \<Rightarrow> nat" where
  "nat_of_digits s = foldl (\<lambda>n c. 10 * n + digit_val c) 0 s"

lemma digit_char_val: "n < 10 \<Longrightarrow> is_digit (digit_char n) \<and> digit_val (digit_char n) = n"
  by (simp add: is_digit_def digit_val_def digit_char_def of_char_of)

lemma show_nat_digits: "show_nat n \<noteq> [] \<and> (\<forall>c \<in> set (show_nat n). is_digit c)"
proof (induction n rule: show_nat.induct)
  case (1 n)
  then show ?case
    by (subst (1 2) show_nat.simps) (auto simp: digit_char_val)
qed

lemma nat_of_digits_show [simp]: "nat_of_digits (show_nat n) = n"
proof (induction n rule: show_nat.induct)
  case (1 n)
  show ?case
  proof (cases "n < 10")
    case True
    then show ?thesis by (simp add: show_nat.simps [of n] nat_of_digits_def digit_char_val)
  next
    case False
    with 1 have "nat_of_digits (show_nat (n div 10)) = n div 10" by simp
    with False show ?thesis
      by (simp add: show_nat.simps [of n] nat_of_digits_def digit_char_val)
  qed
qed

lemma show_nat_inject [simp]: "show_nat m = show_nat n \<longleftrightarrow> m = n"
  by (metis nat_of_digits_show)

lemma minus_not_digit: "\<not> is_digit (CHR ''-'')"
  by (simp add: is_digit_def)

lemma show_int_inject [simp]: "show_int i = show_int j \<longleftrightarrow> i = j"
proof -
  have "hd (show_nat n) \<noteq> CHR ''-''" for n
    using show_nat_digits [of n] minus_not_digit by (metis list.set_sel(1))
  then show ?thesis
    by (auto simp: show_int_def) (metis list.sel(1))+
qed

text \<open>
  The decimal numeral of a number.  An integer prints in full; a fraction prints with the fewest
  decimals that represent it, up to 20 (the doubles' range where JavaScript uses plain notation
  is at least 1e-6 and below 1e21 in size).
\<close>

definition is_int_rat :: "rat \<Rightarrow> bool" where
  "is_int_rat q \<longleftrightarrow> of_int \<lfloor>q\<rfloor> = q"

fun decimals :: "nat \<Rightarrow> rat \<Rightarrow> string" where
  "decimals 0 f = []"
| "decimals (Suc n) f =
     (if f = 0 then []
      else let d = \<lfloor>10 * f\<rfloor> in digit_char (nat d) # decimals n (10 * f - of_int d))"

definition num_to_string :: "jsnum \<Rightarrow> string" where
  "num_to_string n =
     (case n of NaN \<Rightarrow> ''NaN'' | PosInf \<Rightarrow> ''Infinity'' | NegInf \<Rightarrow> ''-Infinity''
      | Fin q \<Rightarrow>
          if is_int_rat q then show_int \<lfloor>q\<rfloor>
          else (if q < 0 then ''-'' else []) @ show_nat (nat \<lfloor>\<bar>q\<bar>\<rfloor>) @ ''.''
                 @ decimals 20 (\<bar>q\<bar> - of_int \<lfloor>\<bar>q\<bar>\<rfloor>))"

lemma num_to_string_int [simp]: "num_to_string (Fin (of_int i)) = show_int i"
  by (simp add: num_to_string_def is_int_rat_def)

text \<open>\<^verbatim>\<open>Number(s)\<close> for a string: the grammar of string numeric literals.\<close>

definition strip_char :: "char \<Rightarrow> string \<Rightarrow> string option" where
  "strip_char c s = (if s \<noteq> [] \<and> hd s = c then Some (tl s) else None)"

definition split_sign :: "string \<Rightarrow> bool \<times> string" where
  "split_sign s =
     (case strip_char (CHR ''-'') s of Some t \<Rightarrow> (True, t)
      | None \<Rightarrow> (case strip_char (CHR ''+'') s of Some t \<Rightarrow> (False, t) | None \<Rightarrow> (False, s)))"

definition exponent_of :: "string \<Rightarrow> int option" where
  "exponent_of t =
     (case t of
        [] \<Rightarrow> Some 0
      | e # r \<Rightarrow>
          if e = CHR ''e'' \<or> e = CHR ''E''
          then (let (neg, ds) = split_sign r
                in if ds \<noteq> [] \<and> list_all is_digit ds
                   then Some (if neg then - int (nat_of_digits ds) else int (nat_of_digits ds)) else None)
          else None)"

definition scale10 :: "rat \<Rightarrow> int \<Rightarrow> rat" where
  "scale10 q e = (if 0 \<le> e then q * 10 ^ nat e else q / 10 ^ nat (- e))"

definition parse_unsigned :: "string \<Rightarrow> jsnum" where
  "parse_unsigned s =
     (let ip = takeWhile is_digit s; r = dropWhile is_digit s;
          (fp, t) = (case strip_char (CHR ''.'') r of
                       Some r' \<Rightarrow> (takeWhile is_digit r', dropWhile is_digit r') | None \<Rightarrow> ([], r))
      in if s = ''Infinity'' then PosInf
         else if ip = [] \<and> fp = [] then NaN
         else case exponent_of t of
                None \<Rightarrow> NaN
              | Some e \<Rightarrow> Fin (scale10 (of_nat (nat_of_digits (ip @ fp))) (e - int (length fp))))"

definition radix_val :: "char \<Rightarrow> nat" where
  "radix_val c =
     (let n = code_of (lower_char c) in if is_digit c then n - 48 else if 97 \<le> n \<and> n \<le> 122 then n - 87 else 99)"

definition parse_radix :: "nat \<Rightarrow> string \<Rightarrow> jsnum" where
  "parse_radix b ds =
     (if ds \<noteq> [] \<and> list_all (\<lambda>c. radix_val c < b) ds
      then Fin (of_nat (foldl (\<lambda>n c. b * n + radix_val c) 0 ds)) else NaN)"

definition neg_num :: "jsnum \<Rightarrow> jsnum" where
  "neg_num n = (case n of NaN \<Rightarrow> NaN | PosInf \<Rightarrow> NegInf | NegInf \<Rightarrow> PosInf | Fin q \<Rightarrow> Fin (- q))"

definition radix_prefix :: "string \<Rightarrow> nat option" where
  "radix_prefix s =
     (let p = js_lower (take 2 s)
      in if p = ''0x'' then Some 16 else if p = ''0o'' then Some 8 else if p = ''0b'' then Some 2 else None)"

definition string_to_number :: "string \<Rightarrow> jsnum" where
  "string_to_number s0 =
     (let s = js_trim s0; (neg, t) = split_sign s
      in if s = [] then Fin 0
         else case radix_prefix s of
                Some b \<Rightarrow> parse_radix b (drop 2 s)
              | None \<Rightarrow> if neg then neg_num (parse_unsigned t) else parse_unsigned t)"

section \<open>Values\<close>

datatype jsval =
    Undef | Null | Bool bool | Num jsnum | Str string | Arr "jsval list" | Obj "(string \<times> jsval) list"

definition truthy :: "jsval \<Rightarrow> bool" where
  "truthy v = (case v of
     Undef \<Rightarrow> False | Null \<Rightarrow> False | Bool b \<Rightarrow> b
   | Num n \<Rightarrow> n \<noteq> NaN \<and> n \<noteq> Fin 0 | Str s \<Rightarrow> s \<noteq> [] | Arr _ \<Rightarrow> True | Obj _ \<Rightarrow> True)"

text \<open>\<^verbatim>\<open>v == null\<close>.\<close>

definition nullish :: "jsval \<Rightarrow> bool" where
  "nullish v \<longleftrightarrow> v = Undef \<or> v = Null"

text \<open>\<^verbatim>\<open>typeof v === "object" && v\<close>: arrays are objects too.\<close>

definition is_object :: "jsval \<Rightarrow> bool" where
  "is_object v = (case v of Arr _ \<Rightarrow> True | Obj _ \<Rightarrow> True | _ \<Rightarrow> False)"

fun join_with :: "string \<Rightarrow> string list \<Rightarrow> string" where
  "join_with sep [] = []"
| "join_with sep [s] = s"
| "join_with sep (s # t # ss) = s @ sep @ join_with sep (t # ss)"

fun to_string :: "jsval \<Rightarrow> string" where
  "to_string Undef = ''undefined''"
| "to_string Null = ''null''"
| "to_string (Bool b) = (if b then ''true'' else ''false'')"
| "to_string (Num n) = num_to_string n"
| "to_string (Str s) = s"
| "to_string (Arr vs) = join_with '','' (map (\<lambda>v. if nullish v then [] else to_string v) vs)"
| "to_string (Obj _) = ''[object Object]''"

fun to_number :: "jsval \<Rightarrow> jsnum" where
  "to_number Undef = NaN"
| "to_number Null = Fin 0"
| "to_number (Bool b) = Fin (if b then 1 else 0)"
| "to_number (Num n) = n"
| "to_number (Str s) = string_to_number s"
| "to_number (Arr vs) = string_to_number (to_string (Arr vs))"
| "to_number (Obj _) = NaN"

text \<open>Own properties in the order of \<^verbatim>\<open>Object.keys\<close>, and a property read.\<close>

definition own_props :: "jsval \<Rightarrow> (string \<times> jsval) list" where
  "own_props v = (case v of
     Obj kvs \<Rightarrow> kvs | Arr vs \<Rightarrow> zip (map show_nat [0..<length vs]) vs | _ \<Rightarrow> [])"

definition getp :: "string \<Rightarrow> jsval \<Rightarrow> jsval" where
  "getp k v = (case map_of (own_props v) k of None \<Rightarrow> Undef | Some w \<Rightarrow> w)"

text \<open>\<^verbatim>\<open>a || b\<close>.\<close>

definition js_or :: "jsval \<Rightarrow> jsval \<Rightarrow> jsval" where
  "js_or a b = (if truthy a then a else b)"

text \<open>\<^verbatim>\<open>a === b\<close> of two values that are not the same object: objects are then different.\<close>

definition strict_eq :: "jsval \<Rightarrow> jsval \<Rightarrow> bool" where
  "strict_eq a b = (case (a, b) of
     (Num m, Num n) \<Rightarrow> num_eq m n | (Arr _, _) \<Rightarrow> False | (Obj _, _) \<Rightarrow> False | _ \<Rightarrow> a = b)"

abbreviation num_of_int :: "int \<Rightarrow> jsval" where
  "num_of_int i \<equiv> Num (Fin (of_int i))"

lemma getp_Undef [simp]: "getp k Undef = Undef" "getp k Null = Undef"
  by (simp_all add: getp_def own_props_def)

lemma getp_Obj: "getp k (Obj kvs) = (case map_of kvs k of None \<Rightarrow> Undef | Some w \<Rightarrow> w)"
  by (simp add: getp_def own_props_def)

lemma nullish_falsy: "nullish v \<Longrightarrow> \<not> truthy v"
  by (auto simp: nullish_def truthy_def)

section \<open>Reading back a printed integer\<close>

lemma digit_not_ws: "is_digit c \<Longrightarrow> \<not> is_ws c"
  by (auto simp: is_digit_def is_ws_def)

lemma digit_facts: "is_digit c \<Longrightarrow> c \<noteq> CHR ''-'' \<and> c \<noteq> CHR ''+'' \<and> c \<noteq> CHR ''I'' \<and> lower_char c \<noteq> CHR ''x''
    \<and> lower_char c \<noteq> CHR ''o'' \<and> lower_char c \<noteq> CHR ''b''"
proof (intro conjI notI)
  assume d: "is_digit c"
  then have n: "code_of (lower_char c) = code_of c"
    by (auto simp: code_of_lower_char is_digit_def)
  show "c = CHR ''-'' \<Longrightarrow> False" "c = CHR ''+'' \<Longrightarrow> False" "c = CHR ''I'' \<Longrightarrow> False"
    using d by (auto simp: is_digit_def)
  show "lower_char c = CHR ''x'' \<Longrightarrow> False" "lower_char c = CHR ''o'' \<Longrightarrow> False" "lower_char c = CHR ''b'' \<Longrightarrow> False"
    using d n by (auto simp: is_digit_def)
qed

lemma show_nat_Cons: obtains c ds where "show_nat n = c # ds" "is_digit c" "\<forall>d \<in> set ds. is_digit d"
  using show_nat_digits [of n] by (cases "show_nat n") auto

lemma parse_unsigned_show_nat: "parse_unsigned (show_nat n) = Fin (of_nat n)"
proof -
  have d: "\<forall>c \<in> set (show_nat n). is_digit c" and ne: "show_nat n \<noteq> []"
    using show_nat_digits by auto
  have "show_nat n \<noteq> ''Infinity''"
    by (rule show_nat_Cons [of n]) (use digit_facts in auto)
  moreover have "takeWhile is_digit (show_nat n) = show_nat n" "dropWhile is_digit (show_nat n) = []"
    using d by simp_all
  ultimately show ?thesis
    using ne unfolding parse_unsigned_def Let_def by (simp only:) (simp add: strip_char_def exponent_of_def scale10_def)
qed

lemma radix_prefix_None: "(s = [] \<or> (\<forall>c \<in> set (tl s). is_digit c)) \<Longrightarrow> radix_prefix s = None"
proof -
  assume s: "s = [] \<or> (\<forall>c \<in> set (tl s). is_digit c)"
  consider "s = []" | c where "s = [c]" | c d t where "s = c # d # t" "is_digit d"
    using s by (cases s; cases "tl s") auto
  then show ?thesis
    by cases (auto simp: radix_prefix_def Let_def js_lower_def dest: digit_facts)
qed

lemma string_to_number_show_int [simp]: "string_to_number (show_int i) = Fin (of_int i)"
proof (cases "i < 0")
  case True
  then have s: "show_int i = CHR ''-'' # show_nat (nat (- i))" by (simp add: show_int_def)
  have "\<not> is_ws (last (show_nat (nat (- i))))"
    using show_nat_digits [of "nat (- i)"] by (simp add: digit_not_ws)
  then have t: "js_trim (show_int i) = show_int i"
    using show_nat_digits [of "nat (- i)"] by (intro js_trim_id) (simp add: s is_ws_def)
  have r: "radix_prefix (show_int i) = None"
    using show_nat_digits [of "nat (- i)"] by (intro radix_prefix_None) (simp add: s)
  have sg: "split_sign (show_int i) = (True, show_nat (nat (- i)))"
    by (simp add: split_sign_def strip_char_def s)
  show ?thesis
    using True unfolding string_to_number_def t Let_def sg r prod.case
    by (simp add: s parse_unsigned_show_nat neg_num_def)
next
  case False
  then have s: "show_int i = show_nat (nat i)" by (simp add: show_int_def)
  obtain c ds where c: "show_nat (nat i) = c # ds" "is_digit c" "\<forall>d \<in> set ds. is_digit d"
    by (rule show_nat_Cons)
  have "\<not> is_ws (last (show_nat (nat i)))" "\<not> is_ws c"
    using show_nat_digits [of "nat i"] c by (simp_all add: digit_not_ws)
  then have t: "js_trim (show_nat (nat i)) = show_nat (nat i)"
    by (intro js_trim_id) (simp add: c)
  have r: "radix_prefix (show_nat (nat i)) = None"
    using c by (intro radix_prefix_None) simp
  have sg: "split_sign (show_nat (nat i)) = (False, show_nat (nat i))"
    using digit_facts [OF c(2)] by (simp add: split_sign_def strip_char_def c)
  have "show_nat (nat i) \<noteq> []" by (simp add: c)
  then show ?thesis
    using False unfolding string_to_number_def s t Let_def sg r prod.case
    by (simp add: parse_unsigned_show_nat)
qed

section \<open>Results\<close>

text \<open>
  The horizontal ellipsis the sources append to truncated text is outside the Latin-1 alphabet of
  \<^typ>\<open>string\<close>; it is written as three dots.
\<close>

definition ELLIPSIS :: string where "ELLIPSIS = ''...''"

text \<open>Values as JSON, and \<^verbatim>\<open>x || null\<close>.\<close>

abbreviation jint :: "int \<Rightarrow> jsval" where "jint i \<equiv> Num (Fin (of_int i))"
abbreviation jnat :: "nat \<Rightarrow> jsval" where "jnat n \<equiv> Num (Fin (of_nat n))"

definition or_null :: "jsval \<Rightarrow> jsval" where
  "or_null v = js_or v Null"

text \<open>\<^verbatim>\<open>{...a, ...b}\<close> of two objects: later properties win, the order is that of the first insertion.\<close>

fun spread :: "(string \<times> jsval) list \<Rightarrow> (string \<times> jsval) list \<Rightarrow> (string \<times> jsval) list" where
  "spread a [] = a"
| "spread a ((k, v) # b) = spread (mput k v a) b"

lemma map_of_spread: "distinct (keys b) \<Longrightarrow> map_of (spread a b) k = (case map_of b k of None \<Rightarrow> map_of a k | Some v \<Rightarrow> Some v)"
proof (induction a b rule: spread.induct)
  case (2 a k' v b)
  have "map_of b k' = None" using 2(2) by (metis distinct.simps(2) list.simps(9) fst_conv map_of_eq_None_iff list.set_map)
  with 2 show ?case by (auto split: option.splits)
qed simp

end
