(* ===== verification/Errors.thy ===== *)
theory Errors
  imports JsValue
begin

text \<open>
  The errors the modelled modules throw, one constructor per \<^verbatim>\<open>throw new Error(...)\<close> of the
  sources with the values its message interpolates, and \<open>ApiError\<close> for a rejected promise of a
  browser API, whose text is the browser's.
\<close>

datatype js_error =
    ApiError string
  | TypeError string
  | TabLimitReached string nat int      \<comment> \<open>tablimit.js: per-domain tab limit reached\<close>
  | AttachFailed string                 \<comment> \<open>cdp.js: debugger attach failed\<close>
  | CdpError string string              \<comment> \<open>cdp.js: method and message of a failed command\<close>
  | CouldNotClose int                   \<comment> \<open>sessions.js: could not close existing session tab\<close>
  | NoOpenTab string                    \<comment> \<open>sessions.js: session has no open tab\<close>
  | NavigateNeedsUrl                    \<comment> \<open>tabs.js\<close>
  | FindTabNeedsUrl                     \<comment> \<open>tabs.js\<close>
  | NoTabFound string                   \<comment> \<open>tabs.js: no open tab found\<close>
  | UnknownAction string                \<comment> \<open>dispatcher.js\<close>
  | EmptyComment                        \<comment> \<open>store.js: annotation comment is empty\<close>
  | DetailNeedsRequestId                \<comment> \<open>network.js\<close>
  | UnknownNetworkCmd jsval             \<comment> \<open>network.js\<close>
  | UnknownCookiesCmd jsval             \<comment> \<open>cookies.js\<close>
  | BrowserInternalPage string          \<comment> \<open>mode.js: cannot annotate a browser-internal page\<close>
  | TabNotOpen jsval                    \<comment> \<open>annotate.js\<close>
  | NoTabToAnnotate                     \<comment> \<open>annotate.js\<close>
  | UnknownAnnotateMode string          \<comment> \<open>annotate.js\<close>
  | LocateNeedsId                       \<comment> \<open>annotate.js\<close>
  | NoAnnotation jsval                  \<comment> \<open>annotate.js\<close>
  | UnknownAnnotationsOp string         \<comment> \<open>annotate.js\<close>
  | NeedsTargeting                      \<comment> \<open>annotate.js: pass ids or a url filter, or all\<close>
  | NothingToChange                     \<comment> \<open>annotate.js\<close>
  | ScreenshotNeedsId                   \<comment> \<open>annotate.js\<close>
  | NoScreenshot jsval                  \<comment> \<open>annotate.js\<close>
  | SelectorRequired                    \<comment> \<open>interact.js\<close>
  | UnknownRef jsval                    \<comment> \<open>interact.js: unknown element ref\<close>
  | CouldNotResolve jsval               \<comment> \<open>interact.js: could not resolve ref\<close>
  | InvalidSelector jsval               \<comment> \<open>interact.js\<close>
  | NoElementMatches jsval              \<comment> \<open>interact.js\<close>
  | PageThrew string                    \<comment> \<open>interact.js, evaluate.js: an exception in the page\<close>
  | NeedsPoint                          \<comment> \<open>interact.js: provide a selector or explicit x/y\<close>
  | PressKeyNeedsKey                    \<comment> \<open>interact.js\<close>
  | UploadNeedsFiles                    \<comment> \<open>interact.js\<close>
  | TouchTimedOut                       \<comment> \<open>interact.js\<close>
  | StackOverflow                       \<comment> \<open>a recursion that does not end\<close>
  | OutOfFuel                           \<comment> \<open>a bound of the model, not an error of the code\<close>
  | EvaluateNeedsCode                   \<comment> \<open>evaluate.js\<close>
  | DeviceNeedsSize                     \<comment> \<open>emulate.js\<close>
  | GeolocationNeedsCoords              \<comment> \<open>emulate.js\<close>
  | EmulateNeedsOne                     \<comment> \<open>emulate.js\<close>
  | DownloadNeedsUrl                    \<comment> \<open>downloads.js\<close>
  | CancelNeedsId                       \<comment> \<open>downloads.js\<close>
  | UnknownDownloadCmd jsval            \<comment> \<open>downloads.js\<close>

type_synonym ('s, 'a) jsprog = "('s, js_error, 'a) prog"

end
