(* ===== verification/Chrome.thy ===== *)
theory Chrome
  imports Errors
begin

text \<open>
  The browser, which is not part of the repository: the \<^verbatim>\<open>chrome.*\<close> calls the extension makes
  are the fields of the record \<open>chrome\<close>, over an opaque world \<open>'w\<close>, and every definition that
  uses them takes such a record.  Queries read the world; the other calls return a new one.  A
  rejected promise is \<open>None\<close>, \<open>False\<close> or \<open>Inl\<close> of the message.  The locales below state the documented
  behaviour some theorems need.  The interpretation is the mock browser of the repository's own
  test suite (\<^verbatim>\<open>installChromeMock\<close> in \<^verbatim>\<open>src/sessions.test.js\<close>).
\<close>

section \<open>The API\<close>

record tab =
  tab_id :: int
  tab_url :: string
  tab_pendingUrl :: string
  tab_title :: string
  tab_status :: string
  tab_groupId :: int
  tab_active :: bool
  tab_index :: int
  tab_windowId :: int

record tgroup =
  grp_id :: int
  grp_title :: string
  grp_color :: string

datatype debuggee = TabT int | TargetT string

record 'w chrome =
  tabs_get :: "'w \<Rightarrow> int \<Rightarrow> tab option"
  tabs_query :: "'w \<Rightarrow> tab list option"
  tabs_query_group :: "'w \<Rightarrow> int \<Rightarrow> tab list option"
  tabs_create :: "string \<Rightarrow> bool \<Rightarrow> 'w \<Rightarrow> tab option \<times> 'w"
  tabs_remove :: "int \<Rightarrow> 'w \<Rightarrow> bool \<times> 'w"
  tabs_group :: "int list \<Rightarrow> int option \<Rightarrow> 'w \<Rightarrow> int option \<times> 'w"
  tabs_update_url :: "int \<Rightarrow> string \<Rightarrow> 'w \<Rightarrow> bool \<times> 'w"
  tabs_activate :: "int \<Rightarrow> 'w \<Rightarrow> tab option \<times> 'w"
  windows_focus :: "int \<Rightarrow> 'w \<Rightarrow> bool \<times> 'w"
  groups_query :: "'w \<Rightarrow> tgroup list option"
  groups_get :: "'w \<Rightarrow> int \<Rightarrow> tgroup option"
  groups_set_title :: "int \<Rightarrow> string \<Rightarrow> 'w \<Rightarrow> bool \<times> 'w"
  storage_get :: "'w \<Rightarrow> string \<Rightarrow> jsval option"
  storage_set :: "(string \<times> jsval) list \<Rightarrow> 'w \<Rightarrow> bool \<times> 'w"
  dbg_attach :: "debuggee \<Rightarrow> 'w \<Rightarrow> string option \<times> 'w"
  dbg_detach :: "debuggee \<Rightarrow> 'w \<Rightarrow> 'w"
  dbg_send :: "debuggee \<Rightarrow> string \<Rightarrow> jsval \<Rightarrow> 'w \<Rightarrow> (string + jsval) \<times> 'w"

record 'w core =
  world :: 'w

text \<open>An effectful call that succeeds with a value or is rejected, as a program.\<close>

definition call_opt :: "('w \<Rightarrow> 'a option \<times> 'w) \<Rightarrow> (('w, 'm) core_scheme, 'a) jsprog" where
  "call_opt f = (\<lambda>st. case f (world st) of
      (None, w') \<Rightarrow> (Inl (ApiError []), st\<lparr>world := w'\<rparr>)
    | (Some x, w') \<Rightarrow> (Inr x, st\<lparr>world := w'\<rparr>))"

definition call_bool :: "('w \<Rightarrow> bool \<times> 'w) \<Rightarrow> (('w, 'm) core_scheme, unit) jsprog" where
  "call_bool f = (\<lambda>st. case f (world st) of
      (ok, w') \<Rightarrow> (if ok then Inr () else Inl (ApiError []), st\<lparr>world := w'\<rparr>))"

definition query_opt :: "('w \<Rightarrow> 'a option) \<Rightarrow> (('w, 'm) core_scheme, 'a) jsprog" where
  "query_opt f = (\<lambda>st. case f (world st) of
      None \<Rightarrow> (Inl (ApiError []), st) | Some x \<Rightarrow> (Inr x, st))"

lemma keeps_call_opt [hoare_rules]: "(\<And>s w. I s \<Longrightarrow> I (s\<lparr>world := w\<rparr>)) \<Longrightarrow> keeps I (call_opt f)"
  by (force simp: hoare_def call_opt_def split: prod.splits option.splits)

lemma keeps_call_bool [hoare_rules]: "(\<And>s w. I s \<Longrightarrow> I (s\<lparr>world := w\<rparr>)) \<Longrightarrow> keeps I (call_bool f)"
  by (force simp: hoare_def call_bool_def split: prod.splits)

lemma keeps_query_opt [hoare_rules]: "keeps I (query_opt f)"
  by (simp add: hoare_def query_opt_def split: option.splits)

section \<open>Documented behaviour\<close>

text \<open>Tabs: a closed tab is gone, closing one tab opens none, and the debugger opens none.\<close>

locale browser_tabs =
  fixes C :: "'w chrome"
  assumes remove_gone: "tabs_remove C t w = (True, w') \<Longrightarrow> tabs_get C w' t = None"
    and remove_opens_none: "tabs_get C w j = None \<Longrightarrow> tabs_get C (snd (tabs_remove C t w)) j = None"
    and detach_opens_none: "tabs_get C (dbg_detach C d w) j = tabs_get C w j"

text \<open>Storage: a successful write is what later reads see, a rejected one changes nothing.\<close>

locale browser_storage =
  fixes C :: "'w chrome"
  assumes set_get: "storage_set C [(k, v)] w = (True, w') \<Longrightarrow>
      storage_get C w' k' = (if k' = k then Some v else storage_get C w k')"
    and set_rejected: "storage_set C kvs w = (False, w') \<Longrightarrow> storage_get C w' k = storage_get C w k"

text \<open>Both, and that the two services do not touch each other.\<close>

locale browser = browser_tabs C + browser_storage C for C :: "'w chrome" +
  assumes storage_keeps_tabs: "tabs_get C (snd (storage_set C kvs w)) j = tabs_get C w j"
    and storage_keeps_groups: "groups_query C (snd (storage_set C kvs w)) = groups_query C w"
    and storage_keeps_group_tabs: "tabs_query_group C (snd (storage_set C kvs w)) g = tabs_query_group C w g"
    and remove_keeps_storage: "storage_get C (snd (tabs_remove C t w)) k = storage_get C w k"
    and detach_keeps_storage: "storage_get C (dbg_detach C d w) k = storage_get C w k"

section \<open>The mock browser of the test suite\<close>

record mock =
  m_storage :: "(string \<times> jsval) list"
  m_groups :: "(int \<times> tgroup) list"
  m_tabs :: "(int \<times> tab) list"
  m_created :: "tab list"
  m_next :: int
  m_fail :: "int list"

definition mock_get :: "mock \<Rightarrow> int \<Rightarrow> tab option" where
  "mock_get m t = map_of (m_tabs m) t"

definition mock_query :: "mock \<Rightarrow> tab list option" where
  "mock_query m = Some (map snd (m_tabs m))"

definition mock_query_group :: "mock \<Rightarrow> int \<Rightarrow> tab list option" where
  "mock_query_group m g = Some (filter (\<lambda>t. tab_groupId t = g) (map snd (m_tabs m)))"

definition mock_create :: "string \<Rightarrow> bool \<Rightarrow> mock \<Rightarrow> tab option \<times> mock" where
  "mock_create url act m =
     (let t = \<lparr>tab_id = m_next m, tab_url = url, tab_pendingUrl = url, tab_title = [], tab_status = [],
               tab_groupId = - 1, tab_active = False, tab_index = 0, tab_windowId = 0\<rparr>
      in (Some t, m\<lparr>m_next := m_next m + 1, m_tabs := mput (tab_id t) t (m_tabs m),
                    m_created := m_created m @ [t]\<rparr>))"

definition mock_group :: "int list \<Rightarrow> int option \<Rightarrow> mock \<Rightarrow> int option \<times> mock" where
  "mock_group tids g m =
     (let gid = (case g of None \<Rightarrow> 42 | Some i \<Rightarrow> i);
          gs = (if gid \<in> fst ` set (m_groups m) then m_groups m
                else mput gid \<lparr>grp_id = gid, grp_title = [], grp_color = []\<rparr> (m_groups m));
          ts = map (\<lambda>(i, t). (i, if i \<in> set tids then t\<lparr>tab_groupId := gid\<rparr> else t)) (m_tabs m)
      in (Some gid, m\<lparr>m_groups := gs, m_tabs := ts\<rparr>))"

definition mock_remove :: "int \<Rightarrow> mock \<Rightarrow> bool \<times> mock" where
  "mock_remove t m =
     (if t \<in> set (m_fail m) then (False, m)
      else if t \<notin> fst ` set (m_tabs m) then (False, m)
      else (True, m\<lparr>m_tabs := mdel t (m_tabs m)\<rparr>))"

definition mock_groups_query :: "mock \<Rightarrow> tgroup list option" where
  "mock_groups_query m = Some (map snd (m_groups m))"

definition mock_groups_update :: "int \<Rightarrow> string \<Rightarrow> mock \<Rightarrow> bool \<times> mock" where
  "mock_groups_update g title m =
     (case map_of (m_groups m) g of
        None \<Rightarrow> (False, m)
      | Some grp \<Rightarrow> (True, m\<lparr>m_groups := mput g (grp\<lparr>grp_title := title\<rparr>) (m_groups m)\<rparr>))"

definition mock_storage_get :: "mock \<Rightarrow> string \<Rightarrow> jsval option" where
  "mock_storage_get m k = Some (case map_of (m_storage m) k of None \<Rightarrow> Undef | Some v \<Rightarrow> v)"

definition mock_storage_set :: "(string \<times> jsval) list \<Rightarrow> mock \<Rightarrow> bool \<times> mock" where
  "mock_storage_set kvs m = (True, m\<lparr>m_storage := foldl (\<lambda>s (k, v). mput k v s) (m_storage m) kvs\<rparr>)"

text \<open>
  Calls the mock does not define (\<^verbatim>\<open>tabs.update\<close>, \<^verbatim>\<open>windows.update\<close>, \<^verbatim>\<open>tabGroups.get\<close>) are rejected, as
  calling \<^verbatim>\<open>undefined\<close> in an async function is; its debugger stubs never answer and are rejected here.
\<close>

definition mock_chrome :: "mock chrome" where
  "mock_chrome = \<lparr>
     tabs_get = mock_get, tabs_query = mock_query, tabs_query_group = mock_query_group,
     tabs_create = mock_create, tabs_remove = mock_remove, tabs_group = mock_group,
     tabs_update_url = (\<lambda>_ _ m. (False, m)), tabs_activate = (\<lambda>_ m. (None, m)),
     windows_focus = (\<lambda>_ m. (False, m)),
     groups_query = mock_groups_query, groups_get = (\<lambda>_ _. None), groups_set_title = mock_groups_update,
     storage_get = mock_storage_get, storage_set = mock_storage_set,
     dbg_attach = (\<lambda>_ m. (Some [], m)), dbg_detach = (\<lambda>_ m. m), dbg_send = (\<lambda>_ _ _ m. (Inl [], m))\<rparr>"

definition initial_mock :: "int list \<Rightarrow> mock" where
  "initial_mock failures = \<lparr>
     m_storage = [(''owb_owned_groups'', Obj [(''42'', Str ''custom-session'')])],
     m_groups = [(42, \<lparr>grp_id = 42, grp_title = ''Renamed Group'', grp_color = []\<rparr>)],
     m_tabs = [(7, \<lparr>tab_id = 7, tab_url = ''https://example.com/a'', tab_pendingUrl = [], tab_title = ''A'',
                    tab_status = [], tab_groupId = 42, tab_active = False, tab_index = 0, tab_windowId = 0\<rparr>)],
     m_created = [], m_next = 100, m_fail = failures\<rparr>"

lemmas mock_defs = mock_chrome_def mock_get_def mock_query_def mock_query_group_def mock_create_def
  mock_group_def mock_remove_def mock_groups_query_def mock_groups_update_def mock_storage_get_def
  mock_storage_set_def

interpretation mocked: browser mock_chrome
  by unfold_locales (auto simp: mock_defs split: if_splits)

end
