(* ===== verification/Cdp.thy ===== *)
theory Cdp
  imports Chrome
begin

text \<open>
  \<^verbatim>\<open>src/cdp.js\<close>: lazy attachment of the debugger and enabling of protocol domains.  The state is
  the pair of module variables \<open>attached\<close> (keys) and \<open>enabledDomains\<close> (key to set of domains).  Every
  operation runs to completion; \<open>onDetach\<close> is the browser's event.
\<close>

record 'w cdp_state = "'w core" +
  attached :: "string list"
  enabledDomains :: "(string \<times> string list) list"

type_synonym ('w, 'm, 'a) cdp_prog = "(('w, 'm) cdp_state_scheme, 'a) jsprog"

fun cdp_key :: "debuggee \<Rightarrow> string" where
  "cdp_key (TabT i) = ''tab:'' @ show_int i"
| "cdp_key (TargetT t) = ''target:'' @ t"

lemma cdp_key_inject [simp]: "cdp_key d = cdp_key d' \<longleftrightarrow> d = d'"
  by (cases d; cases d') auto

declare cdp_key.simps [simp del]

definition rawSend :: "'w chrome \<Rightarrow> debuggee \<Rightarrow> string \<Rightarrow> jsval \<Rightarrow> ('w, 'm, jsval) cdp_prog" where
  "rawSend C d method params = (\<lambda>st. case dbg_send C d method (js_or params (Obj [])) (world st) of
      (Inl msg, w') \<Rightarrow> (Inl (CdpError method msg), st\<lparr>world := w'\<rparr>)
    | (Inr v, w') \<Rightarrow> (Inr v, st\<lparr>world := w'\<rparr>))"

text \<open>\<^verbatim>\<open>await rawSend(d, X).catch(() => {})\<close>.\<close>

definition sendQuietly :: "'w chrome \<Rightarrow> debuggee \<Rightarrow> string \<Rightarrow> ('w, 'm, unit) cdp_prog" where
  "sendQuietly C d method = catchp (seqp (rawSend C d method Undef) (ret ())) (\<lambda>_. ret ())"

definition domains_of :: "string \<Rightarrow> ('w, 'm) cdp_state_scheme \<Rightarrow> string list" where
  "domains_of k st = (case map_of (enabledDomains st) k of None \<Rightarrow> [] | Some ds \<Rightarrow> ds)"

definition add_domain :: "string \<Rightarrow> string \<Rightarrow> ('w, 'm, unit) cdp_prog" where
  "add_domain k dm = modifies (\<lambda>st. st\<lparr>enabledDomains := mput k (sadd dm (domains_of k st)) (enabledDomains st)\<rparr>)"

text \<open>Creating the (empty) set of a key that has none.\<close>

definition ensure_set :: "string \<Rightarrow> ('w, 'm, unit) cdp_prog" where
  "ensure_set k = modifies (\<lambda>st. case map_of (enabledDomains st) k of
      None \<Rightarrow> st\<lparr>enabledDomains := mput k [] (enabledDomains st)\<rparr> | Some _ \<Rightarrow> st)"

definition enable :: "'w chrome \<Rightarrow> debuggee \<Rightarrow> string \<Rightarrow> ('w, 'm, unit) cdp_prog" where
  "enable C d dm =
     (let k = cdp_key d in
      seqp (ensure_set k)
        (bindp (reads (\<lambda>st. dm \<in> set (domains_of k st))) (\<lambda>has.
           if has then ret ()
           else seqp (sendQuietly C d (dm @ ''.enable'')) (add_domain k dm))))"

definition already_attached :: "string \<Rightarrow> bool" where
  "already_attached msg = str_has (js_lower msg) ''already attached''"

definition attach :: "'w chrome \<Rightarrow> debuggee \<Rightarrow> ('w, 'm, unit) cdp_prog" where
  "attach C d =
     (let k = cdp_key d in
      bindp (reads (\<lambda>st. k \<in> set (attached st))) (\<lambda>has.
        if has then ret ()
        else seqp
          (\<lambda>st. case dbg_attach C d (world st) of
              (None, w') \<Rightarrow> (Inr (), st\<lparr>world := w'\<rparr>)
            | (Some msg, w') \<Rightarrow>
                (if already_attached msg then Inr () else Inl (AttachFailed msg), st\<lparr>world := w'\<rparr>))
          (seqp (modifies (\<lambda>st. st\<lparr>attached := sadd k (attached st)\<rparr>))
            (case d of TabT _ \<Rightarrow> enable C d ''Page'' | TargetT _ \<Rightarrow> ret ()))))"

definition ensureDomain :: "'w chrome \<Rightarrow> debuggee \<Rightarrow> string \<Rightarrow> ('w, 'm, unit) cdp_prog" where
  "ensureDomain C d dm = seqp (attach C d) (enable C d dm)"

definition cdp_send :: "'w chrome \<Rightarrow> debuggee \<Rightarrow> string \<Rightarrow> jsval \<Rightarrow> ('w, 'm, jsval) cdp_prog" where
  "cdp_send C d method params = seqp (attach C d) (rawSend C d method params)"

definition cleanup :: "debuggee \<Rightarrow> ('w, 'm) cdp_state_scheme \<Rightarrow> ('w, 'm) cdp_state_scheme" where
  "cleanup d st = st\<lparr>attached := sdel (cdp_key d) (attached st),
                     enabledDomains := mdel (cdp_key d) (enabledDomains st)\<rparr>"

definition detach :: "'w chrome \<Rightarrow> debuggee \<Rightarrow> ('w, 'm, unit) cdp_prog" where
  "detach C d = (\<lambda>st.
     if cdp_key d \<notin> set (attached st) then (Inr (), cleanup d st)
     else (Inr (), cleanup d (st\<lparr>world := dbg_detach C d (world st)\<rparr>)))"

text \<open>The browser reports a detached source by tab id, target id, or both.\<close>

definition onDetach :: "int option \<Rightarrow> string option \<Rightarrow> ('w, 'm) cdp_state_scheme \<Rightarrow> ('w, 'm) cdp_state_scheme" where
  "onDetach tabId targetId st =
     (let st1 = (case tabId of None \<Rightarrow> st | Some i \<Rightarrow> cleanup (TabT i) st)
      in case targetId of None \<Rightarrow> st1 | Some t \<Rightarrow> cleanup (TargetT t) st1)"

section \<open>Invariant: only attached targets have enabled domains, and an attached tab has Page\<close>

definition cdp_inv :: "('w, 'm) cdp_state_scheme \<Rightarrow> bool" where
  "cdp_inv st \<longleftrightarrow>
     distinct (attached st) \<and> distinct (keys (enabledDomains st))
     \<and> fst ` set (enabledDomains st) \<subseteq> set (attached st)
     \<and> (\<forall>i. cdp_key (TabT i) \<in> set (attached st) \<longrightarrow> ''Page'' \<in> set (domains_of (cdp_key (TabT i)) st))"

lemma domains_of_world [simp]: "domains_of k (st\<lparr>world := w\<rparr>) = domains_of k st"
  by (simp add: domains_of_def)

lemma domains_of_cong [simp]:
  "domains_of k (st\<lparr>attached := a\<rparr>) = domains_of k st"
  "domains_of k (st\<lparr>enabledDomains := mput k' ds m\<rparr>) = (if k = k' then ds else domains_of k (st\<lparr>enabledDomains := m\<rparr>))"
  "domains_of k (st\<lparr>enabledDomains := mdel k' m\<rparr>) = (if k = k' then [] else domains_of k (st\<lparr>enabledDomains := m\<rparr>))"
  "domains_of k (st\<lparr>enabledDomains := enabledDomains st\<rparr>) = domains_of k st"
  by (simp_all add: domains_of_def)

lemma domains_of_key: "dm \<in> set (domains_of k st) \<Longrightarrow> \<exists>ds. map_of (enabledDomains st) k = Some ds"
  by (cases "map_of (enabledDomains st) k") (simp_all add: domains_of_def)

lemma cdp_inv_world [simp]: "cdp_inv (st\<lparr>world := w\<rparr>) = cdp_inv st"
  by (simp add: cdp_inv_def)

lemma rawSend_world: "\<exists>w'. snd (rawSend C d m p st) = st\<lparr>world := w'\<rparr>"
  by (auto simp: rawSend_def split: prod.splits sum.splits)

lemma sendQuietly_world: "\<exists>w'. sendQuietly C d m st = (Inr (), st\<lparr>world := w'\<rparr>)"
  using rawSend_world [of C d m Undef st]
  by (auto simp: sendQuietly_def prog_defs split: prod.splits sum.splits)

lemma enable_result:
  "\<exists>w'. enable C d dm st = (Inr (), st\<lparr>world := w',
     enabledDomains := mput (cdp_key d) (sadd dm (domains_of (cdp_key d) st)) (enabledDomains st)\<rparr>)
   \<or> (dm \<in> set (domains_of (cdp_key d) st) \<and> enable C d dm st = (Inr (), st))"
proof (cases "dm \<in> set (domains_of (cdp_key d) st)")
  case True
  then obtain ds where "map_of (enabledDomains st) (cdp_key d) = Some ds"
    using domains_of_key by blast
  with True show ?thesis
    by (simp add: enable_def prog_defs ensure_set_def Let_def domains_of_def)
next
  case False
  define st1 where "st1 = snd (ensure_set (cdp_key d) st)"
  have st1: "st1 = st \<or> st1 = st\<lparr>enabledDomains := mput (cdp_key d) [] (enabledDomains st)\<rparr>"
    and dom1: "domains_of (cdp_key d) st1 = domains_of (cdp_key d) st"
    by (auto simp: st1_def ensure_set_def prog_defs domains_of_def split: option.splits)
  obtain w' where w: "sendQuietly C d (dm @ ''.enable'') st1 = (Inr (), st1\<lparr>world := w'\<rparr>)"
    using sendQuietly_world [of C d "dm @ ''.enable''" st1] by auto
  have ens: "ensure_set (cdp_key d) st = (Inr (), st1)"
    by (simp add: st1_def ensure_set_def modifies_def)
  have "enable C d dm st = (Inr (), st\<lparr>world := w',
     enabledDomains := mput (cdp_key d) (sadd dm (domains_of (cdp_key d) st)) (enabledDomains st)\<rparr>)"
    using False st1 w
    by (auto simp: enable_def Let_def seqp_def bindp_def ens dom1 reads_def add_domain_def modifies_def)
  then show ?thesis by blast
qed

lemma enable_ok: "fst (enable C d dm st) = Inr ()"
  using enable_result [of C d dm st] by auto

lemma attached_enable [simp]: "attached (snd (enable C d dm st)) = attached st"
  using enable_result [of C d dm st] by auto

lemma domains_enable: "domains_of k (snd (enable C d dm st)) =
    (if k = cdp_key d then sadd dm (domains_of k st) else domains_of k st)"
  using enable_result [of C d dm st] by (auto simp: domains_of_def sadd_def)

lemma cdp_inv_enable:
  assumes "cdp_inv st" "cdp_key d \<in> set (attached st)"
  shows "cdp_inv (snd (enable C d dm st))"
  using enable_result [of C d dm st]
proof (elim disjE exE conjE)
  fix w'
  assume "enable C d dm st = (Inr (), st\<lparr>world := w',
     enabledDomains := mput (cdp_key d) (sadd dm (domains_of (cdp_key d) st)) (enabledDomains st)\<rparr>)"
  then show ?thesis
    using assms by (auto simp: cdp_inv_def)
qed (use assms in simp)

section \<open>Attaching, sending, detaching\<close>

definition open_debugger :: "'w chrome \<Rightarrow> debuggee \<Rightarrow> ('w, 'm, unit) cdp_prog" where
  "open_debugger C d = (\<lambda>st. case dbg_attach C d (world st) of
      (None, w') \<Rightarrow> (Inr (), st\<lparr>world := w'\<rparr>)
    | (Some msg, w') \<Rightarrow>
        (if already_attached msg then Inr () else Inl (AttachFailed msg), st\<lparr>world := w'\<rparr>))"

lemma attach_unfold:
  "attach C d st =
     (if cdp_key d \<in> set (attached st) then (Inr (), st)
      else case open_debugger C d st of
        (Inl e, st') \<Rightarrow> (Inl e, st')
      | (Inr _, st') \<Rightarrow>
          (case d of TabT _ \<Rightarrow> enable C d ''Page'' | TargetT _ \<Rightarrow> ret ())
            (st'\<lparr>attached := sadd (cdp_key d) (attached st')\<rparr>))"
  by (simp add: attach_def Let_def bindp_def reads_def seqp_def modifies_def open_debugger_def [symmetric] ret_def
      split: sum.splits prod.splits)

lemma open_debugger_world: "\<exists>w'. snd (open_debugger C d st) = st\<lparr>world := w'\<rparr>"
  by (auto simp: open_debugger_def split: prod.splits option.splits)

lemma open_debugger_Inr: "open_debugger C d st = (Inr x, st1) \<Longrightarrow> \<exists>w'. st1 = st\<lparr>world := w'\<rparr>"
  using open_debugger_world [of C d st] by simp

text \<open>What a successful attach leaves behind.\<close>

lemma attach_ok:
  assumes "attach C d st = (Inr (), st')"
  shows "set (attached st') = insert (cdp_key d) (set (attached st))
    \<and> (\<forall>k. set (domains_of k st) \<subseteq> set (domains_of k st'))
    \<and> (cdp_inv st \<longrightarrow> cdp_inv st')"
proof (cases "cdp_key d \<in> set (attached st)")
  case True
  with assms show ?thesis by (auto simp: attach_unfold)
next
  case False
  with assms obtain x st1 where od: "open_debugger C d st = (Inr x, st1)"
    by (auto simp: attach_unfold split: sum.splits prod.splits if_splits)
  then obtain w' where st1: "st1 = st\<lparr>world := w'\<rparr>" using open_debugger_Inr by blast
  define st2 where "st2 = st1\<lparr>attached := sadd (cdp_key d) (attached st1)\<rparr>"
  have att2: "set (attached st2) = insert (cdp_key d) (set (attached st))"
    and dom2: "domains_of k st2 = domains_of k st" for k
    by (simp_all add: st2_def st1)
  show ?thesis
  proof (cases d)
    case (TabT i)
    with assms od False have st': "st' = snd (enable C d ''Page'' st2)"
      by (auto simp: attach_unfold st2_def split: if_splits) 
    have "cdp_inv st'" if inv: "cdp_inv st"
    proof -
      have "fst ` set (enabledDomains st2) \<subseteq> set (attached st2)" "distinct (attached st2)"
        "distinct (keys (enabledDomains st2))"
        using inv by (auto simp: cdp_inv_def st2_def st1)
      moreover have "''Page'' \<in> set (domains_of (cdp_key (TabT j)) st2)"
        if "cdp_key (TabT j) \<in> set (attached st2)" "j \<noteq> i" for j
        using that inv TabT by (auto simp: cdp_inv_def att2 dom2)
      ultimately show ?thesis
        using enable_result [of C d "''Page''" st2] TabT att2
        unfolding st' cdp_inv_def by (elim disjE exE conjE) auto
    qed
    then show ?thesis by (auto simp: st' att2 dom2 domains_enable)
  next
    case (TargetT t)
    with assms od False have st': "st' = st2"
      by (auto simp: attach_unfold st2_def ret_def split: if_splits)
    show ?thesis
      using TargetT by (auto simp: st' att2 dom2 cdp_inv_def st2_def st1)
  qed
qed

lemma attach_error: "attach C d st = (Inl e, st') \<Longrightarrow> \<exists>w' m. st' = st\<lparr>world := w'\<rparr> \<and> e = AttachFailed m"
proof -
  assume a: "attach C d st = (Inl e, st')"
  have "fst (enable C d ''Page'' s) = Inr ()" for s :: "('a, 'b) cdp_state_scheme"
    by (rule enable_ok)
  then have "open_debugger C d st = (Inl e, st')"
    using a by (auto simp: attach_unfold ret_def split: if_splits sum.splits prod.splits debuggee.splits)
      (metis Inl_Inr_False fst_conv)+
  then show ?thesis
    by (auto simp: open_debugger_def split: prod.splits option.splits if_splits)
qed

lemma keeps_cdp_attach [hoare_rules]: "keeps cdp_inv (attach C d)"
proof (rule keepsI)
  fix s :: "('a, 'b) cdp_state_scheme"
  assume inv: "cdp_inv s"
  show "cdp_inv (snd (attach C d s))"
  proof (cases "attach C d s")
    case (Pair r s')
    show ?thesis
      using Pair attach_ok [of C d s s'] attach_error [of C d s _ s'] inv by (cases r) auto
  qed
qed

lemma ensureDomain_unfold:
  "ensureDomain C d dm st = (case attach C d st of (Inl e, s) \<Rightarrow> (Inl e, s) | (Inr _, s) \<Rightarrow> enable C d dm s)"
  by (simp add: ensureDomain_def seqp_def bindp_def)

lemma cdp_inv_cleanup: "cdp_inv st \<Longrightarrow> cdp_inv (cleanup d st)"
  by (auto simp: cdp_inv_def cleanup_def)

lemma cdp_inv_detach: "cdp_inv st \<Longrightarrow> cdp_inv (snd (detach C d st))"
  by (auto simp: detach_def intro: cdp_inv_cleanup)

lemma cdp_inv_onDetach: "cdp_inv st \<Longrightarrow> cdp_inv (onDetach i t st)"
  by (auto simp: onDetach_def Let_def intro: cdp_inv_cleanup split: option.splits)

lemma cleanup_gone [simp]:
  "cdp_key d \<notin> set (attached (cleanup d st))" "domains_of (cdp_key d) (cleanup d st) = []"
  by (simp_all add: cleanup_def domains_of_def)

text \<open>
  After \<^verbatim>\<open>ensureDomain\<close> succeeds the target is attached and the domain enabled (for a tab also
  \<^verbatim>\<open>Page\<close>), nothing another target had enabled is lost, and asking again makes no call at all: the
  state, the browser's included, is unchanged.
\<close>

lemma ensureDomain_attaches:
  assumes "cdp_inv st" and "ensureDomain C d dm st = (Inr (), st')"
  shows "cdp_key d \<in> set (attached st') \<and> dm \<in> set (domains_of (cdp_key d) st')
    \<and> (\<forall>i. d = TabT i \<longrightarrow> ''Page'' \<in> set (domains_of (cdp_key d) st'))
    \<and> (\<forall>k. set (domains_of k st) \<subseteq> set (domains_of k st'))
    \<and> ensureDomain C d dm st' = (Inr (), st')"
proof -
  obtain s1 where a: "attach C d st = (Inr (), s1)" and e: "enable C d dm s1 = (Inr (), st')"
    using assms(2) by (auto simp: ensureDomain_unfold split: prod.splits sum.splits)
  note ok = attach_ok [OF a]
  have st': "st' = snd (enable C d dm s1)" using e by simp
  have inv: "cdp_inv st'"
    unfolding st' using ok assms(1) by (intro cdp_inv_enable) auto
  have at: "cdp_key d \<in> set (attached st')" and dm: "dm \<in> set (domains_of (cdp_key d) st')"
    using ok by (auto simp: st' domains_enable)
  have "ensureDomain C d dm st' = enable C d dm st'"
    using at by (simp add: ensureDomain_unfold attach_unfold)
  also have "\<dots> = (Inr (), st')"
    using dm domains_of_key [OF dm]
    by (auto simp: enable_def Let_def prog_defs ensure_set_def)
  finally show ?thesis
    using ok inv at dm by (auto simp: st' domains_enable cdp_inv_def)
qed

text \<open>What the debugger state and the browser do not bear on survives every debugger call.\<close>

definition cdp_stable :: "(('w, 'm) cdp_state_scheme \<Rightarrow> bool) \<Rightarrow> bool" where
  "cdp_stable I \<longleftrightarrow> (\<forall>st w a e. I st \<longrightarrow> I (st\<lparr>world := w\<rparr>) \<and> I (st\<lparr>attached := a\<rparr>) \<and> I (st\<lparr>enabledDomains := e\<rparr>))"

lemma keeps_cdp:
  assumes "cdp_stable I"
  shows "keeps I (rawSend C d m p)" "keeps I (enable C d dm)" "keeps I (attach C d)"
    "keeps I (ensureDomain C d dm)" "keeps I (cdp_send C d m p)"
proof -
  have s: "I st \<Longrightarrow> I (st\<lparr>world := w\<rparr>)" "I st \<Longrightarrow> I (st\<lparr>attached := a\<rparr>)" "I st \<Longrightarrow> I (st\<lparr>enabledDomains := e\<rparr>)" for st w a e
    using assms by (simp_all add: cdp_stable_def)
  show raw: "keeps I (rawSend C d m p)" for m p
  proof (rule keepsI)
    fix st
    assume "I st"
    moreover obtain w where "snd (rawSend C d m p st) = st\<lparr>world := w\<rparr>" using rawSend_world [of C d m p st] by blast
    ultimately show "I (snd (rawSend C d m p st))" by (simp add: s(1))
  qed
  have quiet: "keeps I (sendQuietly C d m)" for m
  proof (rule keepsI)
    fix st
    assume "I st"
    moreover obtain w where "sendQuietly C d m st = (Inr (), st\<lparr>world := w\<rparr>)" using sendQuietly_world [of C d m st] by blast
    ultimately show "I (snd (sendQuietly C d m st))" by (simp add: s(1))
  qed
  have set: "keeps I (ensure_set k)" "keeps I (add_domain k dm)" for k dm
    by (auto intro!: keepsI s simp: ensure_set_def add_domain_def modifies_def split: option.splits)
  show en: "keeps I (enable C d dm)" for dm
    unfolding enable_def Let_def by (intro hoare_rules set quiet) simp_all
  have opened: "keeps I (open_debugger C d)"
  proof (rule keepsI)
    fix st
    assume "I st"
    moreover obtain w where "snd (open_debugger C d st) = st\<lparr>world := w\<rparr>" using open_debugger_world [of C d st] by blast
    ultimately show "I (snd (open_debugger C d st))" by (simp add: s(1))
  qed
  have page: "keeps I (case d of TabT _ \<Rightarrow> enable C d ''Page'' | TargetT _ \<Rightarrow> ret ())"
    using en by (cases d) (simp_all add: hoare_ret)
  show att: "keeps I (attach C d)"
    unfolding attach_def Let_def open_debugger_def [symmetric]
    by (intro hoare_rules opened page s)
  show "keeps I (ensureDomain C d dm)" unfolding ensureDomain_def by (intro hoare_rules att en)
  show "keeps I (cdp_send C d m p)" unfolding cdp_send_def by (intro hoare_rules att raw)
qed

text \<open>A browser whose debugger always answers, for the concrete instance.\<close>

definition answering :: "unit chrome" where
  "answering = \<lparr>
     tabs_get = (\<lambda>_ _. None), tabs_query = (\<lambda>_. None), tabs_query_group = (\<lambda>_ _. None),
     tabs_create = (\<lambda>_ _ w. (None, w)), tabs_remove = (\<lambda>_ w. (False, w)), tabs_group = (\<lambda>_ _ w. (None, w)),
     tabs_update_url = (\<lambda>_ _ w. (False, w)), tabs_activate = (\<lambda>_ w. (None, w)), windows_focus = (\<lambda>_ w. (False, w)),
     groups_query = (\<lambda>_. None), groups_get = (\<lambda>_ _. None), groups_set_title = (\<lambda>_ _ w. (False, w)),
     storage_get = (\<lambda>_ _. None), storage_set = (\<lambda>_ w. (False, w)),
     dbg_attach = (\<lambda>_ w. (None, w)), dbg_detach = (\<lambda>_ w. w), dbg_send = (\<lambda>_ _ _ w. (Inr Undef, w))\<rparr>"

lemma ensureDomain_attaches_witness:
  "''Page'' \<in> set (domains_of (cdp_key (TabT 5)) (snd (ensureDomain answering (TabT 5) ''Network''
     \<lparr>world = (), attached = [], enabledDomains = []\<rparr>)))"
proof -
  have "fst (ensureDomain answering (TabT 5) ''Network'' \<lparr>world = (), attached = [], enabledDomains = []\<rparr>) = Inr ()"
    by code_simp
  moreover have "cdp_inv \<lparr>world = (), attached = [], enabledDomains = []\<rparr>"
    by (simp add: cdp_inv_def)
  ultimately show ?thesis
    using ensureDomain_attaches [OF _ run_eq] by blast
qed

text \<open>
  A debugger that cannot be attached leaves no trace: the call fails with the browser's message,
  and neither the attached set nor the enabled domains have changed, so the next call tries again.
\<close>

lemma failed_attach_records_nothing:
  assumes "cdp_send C d method params st = (Inl (AttachFailed msg), st')"
  shows "attached st' = attached st \<and> enabledDomains st' = enabledDomains st \<and> cdp_key d \<notin> set (attached st')"
proof -
  have raw: "rawSend C d method params s \<noteq> (Inl (AttachFailed msg), s')" for s s' :: "('a, 'b) cdp_state_scheme"
    by (auto simp: rawSend_def split: prod.splits sum.splits)
  have a: "attach C d st = (Inl (AttachFailed msg), st')"
    using assms raw by (auto simp: cdp_send_def seqp_def bindp_def split: prod.splits sum.splits)
  have "cdp_key d \<notin> set (attached st)"
    using a by (auto simp: attach_unfold split: if_splits)
  with attach_error [OF a] show ?thesis by auto
qed

lemma failed_attach_records_nothing_witness:
  "attached (snd (cdp_send mock_chrome (TabT 7) ''Page.reload'' Undef
     \<lparr>world = initial_mock [], attached = [], enabledDomains = []\<rparr>)) = []"
proof -
  have "fst (cdp_send mock_chrome (TabT 7) ''Page.reload'' Undef
     \<lparr>world = initial_mock [], attached = [], enabledDomains = []\<rparr>) = Inl (AttachFailed [])"
    by code_simp
  from failed_attach_records_nothing [OF run_eq [OF this]] show ?thesis
    by (elim conjE) (simp only: cdp_state.simps)
qed

end
