(* ===== verification/Refs.thy ===== *)
theory Refs
  imports Cdp
begin

text \<open>
  \<^verbatim>\<open>src/refs.js\<close>: the element references of the last snapshot, per tab or frame.  A snapshot's table
  maps the decimal number of an \<^verbatim>\<open>@e\<close> reference to a DOM node id.
\<close>

datatype refkey = TabKey int | FrameKey string

type_synonym ref_table = "(string \<times> int) list"
type_synonym ref_store = "(refkey \<times> ref_table) list"

record 'w refs_state = "'w cdp_state" +
  refStore :: ref_store

text \<open>\<^verbatim>\<open>String(ref).replace(/^@?e/i, "")\<close>.\<close>

definition strip_ref :: "string \<Rightarrow> string" where
  "strip_ref r =
     (let r' = (case strip_char (CHR ''@'') r of Some t \<Rightarrow> t | None \<Rightarrow> r)
      in if r' \<noteq> [] \<and> lower_char (hd r') = CHR ''e'' then tl r' else r)"

definition setRefs :: "refkey \<Rightarrow> ref_table \<Rightarrow> ref_store \<Rightarrow> ref_store" where
  "setRefs k m store = mput k m store"

definition getBackendId :: "ref_store \<Rightarrow> refkey \<Rightarrow> string \<Rightarrow> int option" where
  "getBackendId store k ref = (case map_of store k of None \<Rightarrow> None | Some m \<Rightarrow> map_of m (strip_ref ref))"

definition clearRefs :: "refkey \<Rightarrow> ref_store \<Rightarrow> ref_store" where
  "clearRefs k store = mdel k store"

interpretation refs: keyed_table "map_of :: ref_store \<Rightarrow> refkey \<Rightarrow> ref_table option" setRefs clearRefs
  by unfold_locales (auto simp: setRefs_def clearRefs_def)

lemma strip_ref_at: "strip_ref (''@e'' @ n) = n"
  by (simp add: strip_ref_def lower_char_def strip_char_def)

lemma strip_ref_digits:
  assumes "n = [] \<or> is_digit (hd n)"
  shows "strip_ref n = n"
proof (cases n)
  case (Cons c t)
  with assms have d: "is_digit c" by simp
  then have "c \<noteq> CHR ''@''" by (auto simp: is_digit_def)
  moreover from d have "code_of (lower_char c) = code_of c"
    by (auto simp: code_of_lower_char is_digit_def)
  with d have "lower_char c \<noteq> CHR ''e''" by (auto simp: is_digit_def)
  ultimately show ?thesis using Cons by (simp add: strip_ref_def strip_char_def)
qed (simp add: strip_ref_def strip_char_def)

text \<open>A fresh snapshot replaces the whole table: no reference of an older one survives.\<close>

lemma getBackendId_setRefs:
  "getBackendId (setRefs k m store) k' r =
     (if k' = k then map_of m (strip_ref r) else getBackendId store k' r)"
  by (simp add: getBackendId_def refs.get_put)

lemma getBackendId_clearRefs:
  "getBackendId (clearRefs k store) k' r = (if k' = k then None else getBackendId store k' r)"
  by (simp add: getBackendId_def refs.get_del)

lemma snapshot_replaces: "getBackendId (setRefs k m (setRefs k m' store)) = getBackendId (setRefs k m store)"
  by (intro ext) (simp add: getBackendId_def refs.last_write_wins)

end
