(* ===== verification/TabLimit.thy ===== *)
theory TabLimit
  imports Errors
begin

text \<open>
  \<^verbatim>\<open>src/tablimit.js\<close>: the per-domain caps on concurrent tabs.  \<^verbatim>\<open>new URL(u).hostname\<close> is the
  browser's, so it is the parameter \<open>U\<close> (\<open>None\<close> where the constructor throws).  A limit of the
  list may be null.  \<open>governs\<close> is the specification: which rule of the list decides for a host.
\<close>

record tab_limit =
  lim_domain :: string
  lim_max :: int

definition hostOf :: "(string \<Rightarrow> string option) \<Rightarrow> string \<Rightarrow> string" where
  "hostOf U u = (case U u of None \<Rightarrow> [] | Some h \<Rightarrow> js_lower h)"

definition domainMatches :: "string \<Rightarrow> string \<Rightarrow> bool" where
  "domainMatches host ruleDomain =
     (let h = js_lower host; d = js_trim (js_lower ruleDomain)
      in if d = [] then False else h = d \<or> ends_with h (''.'' @ d))"

text \<open>The loop of \<^verbatim>\<open>rulesToCheck\<close>: \<open>best\<close> carries the best rule so far with its length.\<close>

definition norm_domain :: "tab_limit option \<Rightarrow> string" where
  "norm_domain lm = js_trim (js_lower (case lm of None \<Rightarrow> [] | Some l \<Rightarrow> lim_domain l))"

fun best_rule :: "string \<Rightarrow> tab_limit option list \<Rightarrow> tab_limit option \<Rightarrow> int \<Rightarrow> tab_limit option" where
  "best_rule host [] best bestLen = best"
| "best_rule host (None # ls) best bestLen = best_rule host ls best bestLen"
| "best_rule host (Some l # ls) best bestLen =
     (let domain = norm_domain (Some l)
      in if domain \<noteq> [] \<and> lim_max l > 0 \<and> domainMatches host domain \<and> int (length domain) > bestLen
         then best_rule host ls (Some l) (int (length domain))
         else best_rule host ls best bestLen)"

definition rulesToCheck ::
  "(string \<Rightarrow> string option) \<Rightarrow> tab_limit option list \<Rightarrow> string option \<Rightarrow> tab_limit list" where
  "rulesToCheck U limits targetUrl =
     (if limits = [] then []
      else let hasTarget = (case targetUrl of None \<Rightarrow> False | Some t \<Rightarrow> js_trim t \<noteq> [])
           in if \<not> hasTarget
              then [l. Some l \<leftarrow> limits, lim_domain l \<noteq> [] \<and> lim_max l > 0]
              else let targetHost = hostOf U (the targetUrl)
                   in if targetHost = [] then []
                      else case best_rule targetHost limits None (- 1) of None \<Rightarrow> [] | Some b \<Rightarrow> [b])"

definition count_matching :: "(string \<Rightarrow> string option) \<Rightarrow> string \<Rightarrow> string list \<Rightarrow> nat" where
  "count_matching U d tabUrls = length (filter (\<lambda>u. u \<noteq> [] \<and> domainMatches (hostOf U u) d) tabUrls)"

fun check_rules ::
  "(string \<Rightarrow> string option) \<Rightarrow> tab_limit list \<Rightarrow> string list \<Rightarrow> js_error + unit" where
  "check_rules U [] tabUrls = Inr ()"
| "check_rules U (lm # lms) tabUrls =
     (let count = count_matching U (lim_domain lm) tabUrls
      in if int count \<ge> lim_max lm then Inl (TabLimitReached (lim_domain lm) count (lim_max lm))
         else check_rules U lms tabUrls)"

definition assertDomainTabLimits ::
  "(string \<Rightarrow> string option) \<Rightarrow> tab_limit option list \<Rightarrow> string option \<Rightarrow> string list
    \<Rightarrow> js_error + unit" where
  "assertDomainTabLimits U limits targetUrl tabUrls =
     check_rules U (rulesToCheck U limits targetUrl) tabUrls"

section \<open>Matching\<close>

lemma norm_domain_idem: "js_trim (js_lower (norm_domain l)) = norm_domain l"
  by (simp add: norm_domain_def js_trim_lower)

lemma domainMatches_norm: "domainMatches h (norm_domain (Some l)) = domainMatches h (lim_domain l)"
  by (simp add: domainMatches_def norm_domain_def js_trim_lower Let_def)

lemma domainMatches_iff:
  "domainMatches host d \<longleftrightarrow>
     js_trim (js_lower d) \<noteq> []
     \<and> (js_lower host = js_trim (js_lower d)
        \<or> (\<exists>p. js_lower host = p @ ''.'' @ js_trim (js_lower d)))"
  by (auto simp: domainMatches_def Let_def ends_with_suffix suffix_def)

section \<open>Which rule governs a host\<close>

definition candidate :: "string \<Rightarrow> tab_limit option list \<Rightarrow> tab_limit \<Rightarrow> bool" where
  "candidate host limits l \<longleftrightarrow> Some l \<in> set limits \<and> lim_max l > 0 \<and> domainMatches host (lim_domain l)"

definition governs :: "string \<Rightarrow> tab_limit option list \<Rightarrow> tab_limit \<Rightarrow> bool" where
  "governs host limits l \<longleftrightarrow>
     candidate host limits l
     \<and> (\<forall>l'. candidate host limits l' \<longrightarrow> length (norm_domain (Some l')) \<le> length (norm_domain (Some l)))"

lemma candidate_test:
  "norm_domain (Some l) \<noteq> [] \<and> lim_max l > 0 \<and> domainMatches host (norm_domain (Some l))
     \<longleftrightarrow> lim_max l > 0 \<and> domainMatches host (lim_domain l)"
  by (auto simp: domainMatches_norm) (auto simp: domainMatches_def norm_domain_def Let_def)

lemma best_rule_invariant:
  assumes "case best of None \<Rightarrow> bestLen = - 1 \<and> (\<forall>l. \<not> candidate host seen l)
           | Some b \<Rightarrow> governs host seen b \<and> bestLen = int (length (norm_domain (Some b)))"
  shows "case best_rule host ls best bestLen of
           None \<Rightarrow> (\<forall>l. \<not> candidate host (seen @ ls) l)
         | Some b \<Rightarrow> governs host (seen @ ls) b"
  using assms
proof (induction host ls best bestLen arbitrary: seen rule: best_rule.induct)
  case (1 host best bestLen)
  then show ?case by (simp split: option.splits)
next
  case (2 host ls best bestLen)
  have "candidate host (seen @ [None]) = candidate host seen"
    by (auto simp: candidate_def fun_eq_iff)
  then have "case best of None \<Rightarrow> bestLen = - 1 \<and> (\<forall>l. \<not> candidate host (seen @ [None]) l)
           | Some b \<Rightarrow> governs host (seen @ [None]) b \<and> bestLen = int (length (norm_domain (Some b)))"
    using "2.prems" by (simp add: governs_def split: option.splits)
  from "2.IH" [OF this] show ?case by (simp cong: option.case_cong)
next
  case (3 host l ls best bestLen)
  let ?n = "norm_domain (Some l)"
  let ?fits = "?n \<noteq> [] \<and> lim_max l > 0 \<and> domainMatches host ?n"
  have cand: "candidate host (seen @ [Some l]) l' \<longleftrightarrow> candidate host seen l' \<or> (l' = l \<and> ?fits)" for l'
    unfolding candidate_test by (auto simp: candidate_def)
  show ?case
  proof (cases "?fits \<and> int (length ?n) > bestLen")
    case True
    have "governs host (seen @ [Some l]) l"
      using "3.prems" True by (force simp: governs_def cand split: option.splits)
    with "3.IH"(1) [OF refl, of "seen @ [Some l]"] True show ?thesis by (simp add: Let_def cong: option.case_cong)
  next
    case False
    have "case best of None \<Rightarrow> bestLen = - 1 \<and> (\<forall>l'. \<not> candidate host (seen @ [Some l]) l')
           | Some b \<Rightarrow> governs host (seen @ [Some l]) b \<and> bestLen = int (length (norm_domain (Some b)))"
      using "3.prems" False by (force simp: governs_def cand split: option.splits)
    moreover from False have "best_rule host (Some l # ls) best bestLen = best_rule host ls best bestLen"
      by (auto simp: Let_def)
    ultimately show ?thesis
      using "3.IH"(2) [OF refl, of "seen @ [Some l]"] False by (simp cong: option.case_cong)
  qed
qed

lemma best_rule_governs: "best_rule host ls None (- 1) = Some b \<Longrightarrow> governs host ls b"
  using best_rule_invariant [where best = None and bestLen = "- 1" and seen = "[]" and host = host and ls = ls] by (simp add: candidate_def)

lemma best_rule_none: "best_rule host ls None (- 1) = None \<Longrightarrow> \<not> candidate host ls l"
  using best_rule_invariant [where best = None and bestLen = "- 1" and seen = "[]" and host = host and ls = ls] by (simp add: candidate_def)

lemma check_rules_ok: "check_rules U rs urls = Inr () \<longleftrightarrow>
    (\<forall>r \<in> set rs. int (count_matching U (lim_domain r) urls) < lim_max r)"
  by (induction rs) (auto simp: Let_def)

lemma check_rules_error: "check_rules U rs urls = Inl e \<Longrightarrow>
    \<exists>r \<in> set rs. e = TabLimitReached (lim_domain r) (count_matching U (lim_domain r) urls) (lim_max r)
      \<and> lim_max r \<le> int (count_matching U (lim_domain r) urls)"
  by (induction rs) (auto simp: Let_def split: if_splits)

text \<open>
  For a navigation (a target URL with a host) the check passes exactly when every governing rule
  has room; with no rule for the host it always passes.
\<close>

lemma assert_target_ok:
  assumes "js_trim t \<noteq> []" "hostOf U t \<noteq> []"
    and "assertDomainTabLimits U limits (Some t) urls = Inr ()"
    and "candidate (hostOf U t) limits l"
  shows "\<exists>b. governs (hostOf U t) limits b \<and> int (count_matching U (lim_domain b) urls) < lim_max b"
proof -
  from assms(4) have "limits \<noteq> []" by (auto simp: candidate_def)
  moreover obtain b where b: "best_rule (hostOf U t) limits None (- 1) = Some b"
    using assms(4) best_rule_none by (cases "best_rule (hostOf U t) limits None (- 1)") blast+
  ultimately have "rulesToCheck U limits (Some t) = [b]"
    using assms(1,2) by (simp add: rulesToCheck_def Let_def)
  with assms(3) have "int (count_matching U (lim_domain b) urls) < lim_max b"
    by (simp add: assertDomainTabLimits_def Let_def split: if_splits)
  with best_rule_governs [OF b] show ?thesis by blast
qed

section \<open>The first governing rule\<close>

definition rules :: "tab_limit option list \<Rightarrow> tab_limit list" where
  "rules limits = [l. Some l \<leftarrow> limits]"

lemma rules_simps [simp]: "rules [] = []" "rules (None # ls) = rules ls" "rules (Some l # ls) = l # rules ls"
  "rules (xs @ ys) = rules xs @ rules ys"
  by (simp_all add: rules_def)

lemma set_rules [simp]: "l \<in> set (rules limits) \<longleftrightarrow> Some l \<in> set limits"
  by (auto simp: rules_def split: option.splits intro!: bexI [of _ "Some l"])

lemma find_append: "List.find P (xs @ ys) = (case List.find P xs of None \<Rightarrow> List.find P ys | Some x \<Rightarrow> Some x)"
  by (induction xs) auto

lemma best_rule_first:
  assumes "best = List.find (governs host seen) (rules seen)"
    and "case best of None \<Rightarrow> bestLen = - 1 \<and> (\<forall>l. \<not> candidate host seen l)
         | Some b \<Rightarrow> governs host seen b \<and> bestLen = int (length (norm_domain (Some b)))"
  shows "best_rule host ls best bestLen = List.find (governs host (seen @ ls)) (rules (seen @ ls))"
  using assms
proof (induction host ls best bestLen arbitrary: seen rule: best_rule.induct)
  case (1 host best bestLen)
  then show ?case by simp
next
  case (2 host ls best bestLen)
  have "candidate host (seen @ [None]) = candidate host seen"
    by (auto simp: candidate_def fun_eq_iff)
  then have "governs host (seen @ [None]) = governs host seen"
    by (simp add: governs_def fun_eq_iff)
  with "2.IH" [of "seen @ [None]"] "2.prems" \<open>candidate host (seen @ [None]) = candidate host seen\<close>
  show ?case by (simp cong: option.case_cong)
next
  case (3 host l ls best bestLen)
  let ?n = "norm_domain (Some l)"
  let ?seen = "seen @ [Some l]"
  let ?fits = "?n \<noteq> [] \<and> lim_max l > 0 \<and> domainMatches host ?n"
  have cand: "candidate host ?seen l' \<longleftrightarrow> candidate host seen l' \<or> (l' = l \<and> ?fits)" for l'
    unfolding candidate_test by (auto simp: candidate_def)
  show ?case
  proof (cases "?fits \<and> int (length ?n) > bestLen")
    case True
    have gl: "governs host ?seen l"
      using "3.prems"(2) True by (force simp: governs_def cand split: option.splits)
    have "\<not> governs host ?seen l'" if "l' \<in> set (rules seen)" "l' \<noteq> l" for l'
      using "3.prems"(2) True that by (force simp: governs_def cand split: option.splits)
    then have "List.find (governs host ?seen) (rules ?seen) = Some l"
      using gl by (auto simp: find_append find_None_iff find_Some_iff2 split: option.splits)
        (metis find_Some_iff nth_mem set_rules)
    with "3.IH"(1) [OF refl, of ?seen] gl True show ?thesis by (simp add: Let_def)
  next
    case False
    have inv: "case best of None \<Rightarrow> bestLen = - 1 \<and> (\<forall>l'. \<not> candidate host ?seen l')
           | Some b \<Rightarrow> governs host ?seen b \<and> bestLen = int (length (norm_domain (Some b)))"
      using "3.prems"(2) False by (force simp: governs_def cand split: option.splits)
    have "best = List.find (governs host ?seen) (rules ?seen)"
    proof (cases best)
      case None
      with inv have "\<not> governs host ?seen l'" for l' by (simp add: governs_def)
      with None show ?thesis by (auto simp: find_None_iff eq_commute [of None])
    next
      case (Some b)
      have "governs host ?seen l' = governs host seen l'" if "l' \<in> set (rules seen)" for l'
        using "3.prems"(2) inv False Some that unfolding governs_def cand
        by (auto simp: candidate_def) (metis candidate_test order_trans)+
      then have "List.find (governs host ?seen) (rules seen) = Some b"
        using "3.prems"(1) Some by (metis find_cong)
      then show ?thesis using Some by (simp add: find_append)
    qed
    moreover from False have "best_rule host (Some l # ls) best bestLen = best_rule host ls best bestLen"
      by (auto simp: Let_def)
    ultimately show ?thesis
      using "3.IH"(2) [OF refl, of ?seen] False inv by simp
  qed
qed

lemma best_rule_is_first: "best_rule host ls None (- 1) = List.find (governs host ls) (rules ls)"
  using best_rule_first [of None host "[]" "- 1" ls] by (simp add: candidate_def)

lemma rulesToCheck_target:
  assumes "js_trim t \<noteq> []" "hostOf U t \<noteq> []"
  shows "rulesToCheck U limits (Some t) =
    (case List.find (governs (hostOf U t) limits) (rules limits) of None \<Rightarrow> [] | Some b \<Rightarrow> [b])"
  using assms by (simp add: rulesToCheck_def Let_def best_rule_is_first)

text \<open>
  A rule's domain covers exactly the host equal to it and the hosts below it: a host that ends
  with a dot and the domain, case and surrounding blanks aside.  A longer name that merely ends with the same letters
  (\<^verbatim>\<open>evilexample.com\<close> for \<^verbatim>\<open>example.com\<close>) is not covered, an empty domain covers nothing.
\<close>

lemma domain_covers_subdomains:
  "domainMatches host d \<longleftrightarrow>
     js_trim (js_lower d) \<noteq> []
     \<and> (js_lower host = js_trim (js_lower d)
        \<or> (\<exists>p. js_lower host = p @ ''.'' @ js_trim (js_lower d)))"
  by (rule domainMatches_iff)

text \<open>
  C24: for a navigation the check consults one rule, the first of the list among the active ones with
  the longest domain covering the target's host: it passes exactly when there is no such rule or fewer
  than its maximum of the counted URLs fall under its domain, and otherwise the error names that rule's
  domain, the count and the maximum.
\<close>

theorem limit_check_exact:
  assumes "js_trim t \<noteq> []" and "hostOf U t \<noteq> []"
  shows "assertDomainTabLimits U limits (Some t) urls =
    (case List.find (governs (hostOf U t) limits) (rules limits) of
       None \<Rightarrow> Inr ()
     | Some b \<Rightarrow> if int (count_matching U (lim_domain b) urls) < lim_max b then Inr ()
         else Inl (TabLimitReached (lim_domain b) (count_matching U (lim_domain b) urls) (lim_max b)))"
  using rulesToCheck_target [OF assms]
  by (auto simp: assertDomainTabLimits_def Let_def split: option.splits)

lemma limit_check_exact_witness:
  "assertDomainTabLimits (\<lambda>u. Some u) [Some \<lparr>lim_domain = ''a.b'', lim_max = 1\<rparr>] (Some ''x.a.b'') [''a.b''] =
    (case List.find (governs ''x.a.b'' [Some \<lparr>lim_domain = ''a.b'', lim_max = 1\<rparr>]) [\<lparr>lim_domain = ''a.b'', lim_max = 1\<rparr>] of
       None \<Rightarrow> Inr ()
     | Some b \<Rightarrow> if int (count_matching (\<lambda>u. Some u) (lim_domain b) [''a.b'']) < lim_max b then Inr ()
         else Inl (TabLimitReached (lim_domain b) (count_matching (\<lambda>u. Some u) (lim_domain b) [''a.b'']) (lim_max b)))"
proof -
  have t: "js_trim ''x.a.b'' \<noteq> []" and h: "hostOf (\<lambda>u. Some u) ''x.a.b'' = ''x.a.b''"
    by code_simp+
  from limit_check_exact [OF t, of "\<lambda>u. Some u" "[Some \<lparr>lim_domain = ''a.b'', lim_max = 1\<rparr>]"] show ?thesis
    unfolding h by simp
qed

end
