(* ===== verification/Sessions.thy ===== *)
theory Sessions
  imports Refs TabLimit
begin

text \<open>
  \<^verbatim>\<open>src/sessions.js\<close>: named sessions, each a Chrome tab group with the tabs opened under it, the
  ownership table persisted in storage, re-adoption of live groups (\<open>reconcile\<close>), the per-domain tab
  limits and the closing of tabs, sessions and groups.  The module variable \<^verbatim>\<open>sessions\<close> is the
  field \<open>sessionMap\<close>; JavaScript's reference to a session is read through its key each time.  A
  handler runs to completion before the next (\<^verbatim>\<open>tabs.onRemoved\<close> is the separate event
  \<open>handleTabRemoved\<close>).
\<close>

section \<open>State\<close>

record session =
  groupId :: "int option"
  activeTabId :: "int option"
  tabIds :: "int list"

record 'w sess_state = "'w refs_state" +
  sessionMap :: "(string \<times> session) list"

type_synonym ('w, 'm, 'a) sess_prog = "(('w, 'm) sess_state_scheme, 'a) jsprog"

definition OWNED_GROUPS_KEY :: string where
  "OWNED_GROUPS_KEY = ''owb_owned_groups''"

definition sessionKey :: "string \<Rightarrow> string" where
  "sessionKey name = (if name = [] then ''default'' else name)"

definition new_session :: session where
  "new_session = \<lparr>groupId = None, activeTabId = None, tabIds = []\<rparr>"

definition cur :: "string \<Rightarrow> ('w, 'm) sess_state_scheme \<Rightarrow> session" where
  "cur name st = (case map_of (sessionMap st) (sessionKey name) of None \<Rightarrow> new_session | Some s \<Rightarrow> s)"

definition getSession :: "string \<Rightarrow> ('w, 'm, session) sess_prog" where
  "getSession name = (\<lambda>st. case map_of (sessionMap st) (sessionKey name) of
      Some s \<Rightarrow> (Inr s, st)
    | None \<Rightarrow> (Inr new_session, st\<lparr>sessionMap := mput (sessionKey name) new_session (sessionMap st)\<rparr>))"

text \<open>Assigning to a field of the session object.\<close>

definition update_session :: "string \<Rightarrow> (session \<Rightarrow> session) \<Rightarrow> ('w, 'm, unit) sess_prog" where
  "update_session name f = modifies (\<lambda>st. case map_of (sessionMap st) (sessionKey name) of
      None \<Rightarrow> st | Some s \<Rightarrow> st\<lparr>sessionMap := mput (sessionKey name) (f s) (sessionMap st)\<rparr>)"

section \<open>The persisted ownership table\<close>

definition loadOwnedGroups :: "'w chrome \<Rightarrow> 'w \<Rightarrow> (string \<times> jsval) list" where
  "loadOwnedGroups C w = (case storage_get C w OWNED_GROUPS_KEY of
      None \<Rightarrow> [] | Some v \<Rightarrow> if is_object v then own_props v else [])"

definition saveOwnedGroups :: "'w chrome \<Rightarrow> (string \<times> jsval) list \<Rightarrow> ('w, 'm, unit) sess_prog" where
  "saveOwnedGroups C owned = catchp (call_bool (storage_set C [(OWNED_GROUPS_KEY, Obj owned)])) (\<lambda>_. ret ())"

definition update_owned ::
  "'w chrome \<Rightarrow> ((string \<times> jsval) list \<Rightarrow> (string \<times> jsval) list) \<Rightarrow> ('w, 'm, unit) sess_prog" where
  "update_owned C f = bindp (reads (\<lambda>st. loadOwnedGroups C (world st))) (\<lambda>owned. saveOwnedGroups C (f owned))"

definition rememberOwnedGroup :: "'w chrome \<Rightarrow> string \<Rightarrow> int \<Rightarrow> ('w, 'm, unit) sess_prog" where
  "rememberOwnedGroup C name gid = update_owned C (mput (show_int gid) (Str (sessionKey name)))"

definition forgetOwnedGroup :: "'w chrome \<Rightarrow> int \<Rightarrow> ('w, 'm, unit) sess_prog" where
  "forgetOwnedGroup C gid = update_owned C (mdel (show_int gid))"

definition forgetOwnedSession :: "'w chrome \<Rightarrow> string \<Rightarrow> ('w, 'm, unit) sess_prog" where
  "forgetOwnedSession C name = update_owned C (filter (\<lambda>(g, v). v \<noteq> Str (sessionKey name)))"

section \<open>Reconciliation with the live tab groups\<close>

definition tabExists :: "'w chrome \<Rightarrow> 'w \<Rightarrow> int option \<Rightarrow> bool" where
  "tabExists C w t = (case t of None \<Rightarrow> False | Some i \<Rightarrow> tabs_get C w i \<noteq> None)"

definition belongs :: "string \<Rightarrow> (string \<times> jsval) list \<Rightarrow> tgroup \<Rightarrow> bool" where
  "belongs name owned g \<longleftrightarrow>
     grp_title g = sessionKey name \<or> map_of owned (show_int (grp_id g)) = Some (Str (sessionKey name))"

definition adopt_group :: "'w chrome \<Rightarrow> string \<Rightarrow> tgroup \<Rightarrow> ('w, 'm, unit) sess_prog" where
  "adopt_group C name g =
     seqp (rememberOwnedGroup C name (grp_id g))
       (bindp (reads (\<lambda>st. tabs_query_group C (world st) (grp_id g))) (\<lambda>q. case q of
          None \<Rightarrow> ret ()
        | Some tabs \<Rightarrow> update_session name (\<lambda>s. s\<lparr>tabIds := sadds (map tab_id tabs) (tabIds s)\<rparr>)))"

definition refresh_active :: "'w chrome \<Rightarrow> string \<Rightarrow> ('w, 'm, unit) sess_prog" where
  "refresh_active C name = bindp (reads world) (\<lambda>w.
     update_session name (\<lambda>s. if tabExists C w (activeTabId s) then s else s\<lparr>activeTabId := last_opt (tabIds s)\<rparr>))"

definition drop_stale_group :: "tgroup list \<Rightarrow> session \<Rightarrow> session" where
  "drop_stale_group all s = (case groupId s of
      None \<Rightarrow> s | Some g \<Rightarrow> if g \<in> grp_id ` set all then s else s\<lparr>groupId := None\<rparr>)"

definition reconcile :: "'w chrome \<Rightarrow> string \<Rightarrow> ('w, 'm, unit) sess_prog" where
  "reconcile C name =
     seqp (getSession name)
       (bindp (reads (\<lambda>st. loadOwnedGroups C (world st))) (\<lambda>owned.
        bindp (reads (\<lambda>st. groups_query C (world st))) (\<lambda>q. case q of
          None \<Rightarrow> ret ()
        | Some all \<Rightarrow>
            (let groups = filter (belongs name owned) all in
             if groups = [] then update_session name (drop_stale_group all)
             else seqp (update_session name (\<lambda>s. s\<lparr>groupId := Some (grp_id (hd groups))\<rparr>))
                    (seqp (for_each groups (adopt_group C name)) (refresh_active C name))))))"

definition trackedGroupIds :: "'w chrome \<Rightarrow> ('w, 'm) sess_state_scheme \<Rightarrow> jsnum list" where
  "trackedGroupIds C st =
     sadds (map string_to_number (keys (loadOwnedGroups C (world st))))
       (sadds [Fin (of_int g). s \<leftarrow> map snd (sessionMap st), g \<leftarrow> (case groupId s of None \<Rightarrow> [] | Some g \<Rightarrow> [g])] [])"

section \<open>Tab limits over the managed tabs\<close>

definition session_tabs :: "'w chrome \<Rightarrow> ('w, 'm) sess_state_scheme \<Rightarrow> int list" where
  "session_tabs C st = [t. s \<leftarrow> map snd (sessionMap st), t \<leftarrow> tabIds s, tabs_get C (world st) t \<noteq> None]"

definition managed_group :: "'w chrome \<Rightarrow> ('w, 'm) sess_state_scheme \<Rightarrow> tgroup \<Rightarrow> bool" where
  "managed_group C st g \<longleftrightarrow>
     (case map_of (loadOwnedGroups C (world st)) (show_int (grp_id g)) of None \<Rightarrow> False | Some v \<Rightarrow> \<not> nullish v)
     \<or> Some (grp_id g) \<in> (groupId \<circ> snd) ` set (sessionMap st)
     \<or> grp_title g \<in> fst ` set (sessionMap st)"

definition collectManagedTabIds :: "'w chrome \<Rightarrow> ('w, 'm) sess_state_scheme \<Rightarrow> int list" where
  "collectManagedTabIds C st =
     (let ids = sadds (session_tabs C st) [] in
      case groups_query C (world st) of
        None \<Rightarrow> ids
      | Some groups \<Rightarrow>
          foldl (\<lambda>acc g. if managed_group C st g
                         then (case tabs_query_group C (world st) (grp_id g) of
                                 None \<Rightarrow> acc | Some tabs \<Rightarrow> sadds (map tab_id tabs) acc)
                         else acc) ids groups)"

definition limit_url :: "tab \<Rightarrow> string" where
  "limit_url t = (if tab_pendingUrl t \<noteq> [] then tab_pendingUrl t else tab_url t)"

definition managed_urls :: "'w chrome \<Rightarrow> int option \<Rightarrow> ('w, 'm) sess_state_scheme \<Rightarrow> string list" where
  "managed_urls C excl st =
     (let ids = (case excl of None \<Rightarrow> collectManagedTabIds C st | Some x \<Rightarrow> sdel x (collectManagedTabIds C st))
      in [limit_url t. i \<leftarrow> ids, t \<leftarrow> (case tabs_get C (world st) i of None \<Rightarrow> [] | Some t \<Rightarrow> [t])])"

definition ensureDomainTabLimits ::
  "'w chrome \<Rightarrow> (string \<Rightarrow> string option) \<Rightarrow> tab_limit option list \<Rightarrow> string option \<Rightarrow> int option
    \<Rightarrow> ('w, 'm, unit) sess_prog" where
  "ensureDomainTabLimits C U limits targetUrl excl =
     (if limits = [] then ret ()
      else bindp (reads (managed_urls C excl)) (\<lambda>urls.
        case assertDomainTabLimits U limits targetUrl urls of Inl e \<Rightarrow> throw e | Inr _ \<Rightarrow> ret ()))"

section \<open>Closing and opening tabs\<close>

definition forget_refs :: "int \<Rightarrow> ('w, 'm) refs_state_scheme \<Rightarrow> ('w, 'm) refs_state_scheme" where
  "forget_refs t st = st\<lparr>refStore := clearRefs (TabKey t) (refStore st)\<rparr>"

definition removeManagedTab :: "'w chrome \<Rightarrow> int \<Rightarrow> ('w, 'm, bool) sess_prog" where
  "removeManagedTab C t =
     seqp (catchp (detach C (TabT t)) (\<lambda>_. ret ()))
       (\<lambda>st. case tabs_remove C t (world st) of
          (ok, w') \<Rightarrow>
            if ok then (Inr True, forget_refs t (st\<lparr>world := w'\<rparr>))
            else if tabExists C w' (Some t) then (Inr False, st\<lparr>world := w'\<rparr>)
            else (Inr True, forget_refs t (st\<lparr>world := w'\<rparr>)))"

definition closeActiveTab :: "'w chrome \<Rightarrow> string \<Rightarrow> ('w, 'm, bool) sess_prog" where
  "closeActiveTab C name = bindp (getSession name) (\<lambda>s. case activeTabId s of
      None \<Rightarrow> ret False
    | Some t \<Rightarrow> bindp (removeManagedTab C t) (\<lambda>ok.
        if \<not> ok then ret False
        else seqp (update_session name (\<lambda>s. let ts = sdel t (tabIds s) in s\<lparr>tabIds := ts, activeTabId := last_opt ts\<rparr>))
               (ret True)))"

definition groupTab :: "'w chrome \<Rightarrow> string \<Rightarrow> int \<Rightarrow> ('w, 'm, unit) sess_prog" where
  "groupTab C name t = bindp (getSession name) (\<lambda>s.
     catchp
       (case groupId s of
          Some g \<Rightarrow> seqp (call_opt (tabs_group C [t] (Some g))) (rememberOwnedGroup C name g)
        | None \<Rightarrow> bindp (call_opt (tabs_group C [t] None)) (\<lambda>g.
            seqp (update_session name (\<lambda>s. s\<lparr>groupId := Some g\<rparr>))
              (seqp (call_bool (groups_set_title C g (sessionKey name))) (rememberOwnedGroup C name g))))
       (\<lambda>_. ret ()))"

definition open_tab :: "'w chrome \<Rightarrow> string \<Rightarrow> ('w, 'm, int) sess_prog" where
  "open_tab C name = bindp (call_opt (tabs_create C ''about:blank'' False)) (\<lambda>t.
     seqp (update_session name (\<lambda>s. s\<lparr>tabIds := sadd (tab_id t) (tabIds s), activeTabId := Some (tab_id t)\<rparr>))
       (seqp (groupTab C name (tab_id t)) (ret (tab_id t))))"

definition acquireTabForNavigation ::
  "'w chrome \<Rightarrow> (string \<Rightarrow> string option) \<Rightarrow> string \<Rightarrow> bool \<Rightarrow> tab_limit option list \<Rightarrow> string option
    \<Rightarrow> ('w, 'm, int) sess_prog" where
  "acquireTabForNavigation C U name newTab limits targetUrl =
     seqp (reconcile C name)
       (bindp (reads (\<lambda>st. (activeTabId (cur name st), tabExists C (world st) (activeTabId (cur name st)))))
         (\<lambda>(act, activeExists).
            if \<not> newTab \<and> activeExists
            then seqp (ensureDomainTabLimits C U limits targetUrl act) (ret (the act))
            else (let replaced = (if newTab \<and> activeExists then act else None) in
              seqp (ensureDomainTabLimits C U limits targetUrl replaced)
                (seqp (case replaced of
                         None \<Rightarrow> ret ()
                       | Some r \<Rightarrow> bindp (closeActiveTab C name) (\<lambda>closed.
                           if closed then ret () else throw (CouldNotClose r)))
                  (open_tab C name)))))"

definition setGroupTitle :: "'w chrome \<Rightarrow> string \<Rightarrow> string \<Rightarrow> ('w, 'm, unit) sess_prog" where
  "setGroupTitle C name title = bindp (getSession name) (\<lambda>s. case groupId s of
      None \<Rightarrow> ret ()
    | Some g \<Rightarrow> catchp (seqp (call_bool (groups_set_title C g title)) (rememberOwnedGroup C name g)) (\<lambda>_. ret ()))"

definition getActiveTab :: "string \<Rightarrow> ('w, 'm, int) sess_prog" where
  "getActiveTab name = bindp (getSession name) (\<lambda>s. case activeTabId s of
      None \<Rightarrow> throw (NoOpenTab (sessionKey name)) | Some t \<Rightarrow> ret t)"

definition sessionForTab :: "int \<Rightarrow> ('w, 'm) sess_state_scheme \<Rightarrow> string" where
  "sessionForTab t st = (case find (\<lambda>(n, s). t \<in> set (tabIds s)) (sessionMap st) of None \<Rightarrow> [] | Some (n, _) \<Rightarrow> n)"

definition bindTab :: "string \<Rightarrow> int \<Rightarrow> ('w, 'm, unit) sess_prog" where
  "bindTab name t = seqp (getSession name)
     (update_session name (\<lambda>s. s\<lparr>tabIds := sadd t (tabIds s), activeTabId := Some t\<rparr>))"

section \<open>Closing sessions and groups\<close>

definition close_step :: "'w chrome \<Rightarrow> string \<Rightarrow> int \<Rightarrow> nat \<Rightarrow> ('w, 'm, nat) sess_prog" where
  "close_step C name t n = bindp (removeManagedTab C t) (\<lambda>ok.
     if ok then seqp (update_session name (\<lambda>s. s\<lparr>tabIds := sdel t (tabIds s)\<rparr>)) (ret (Suc n)) else ret n)"

definition delete_session :: "string \<Rightarrow> ('w, 'm, unit) sess_prog" where
  "delete_session name = modifies (\<lambda>st. st\<lparr>sessionMap := mdel (sessionKey name) (sessionMap st)\<rparr>)"

text \<open>\<^verbatim>\<open>[...s.tabIds][s.tabIds.size - 1] || null\<close>: a zero id would read as null.\<close>

definition last_or_null :: "int list \<Rightarrow> int option" where
  "last_or_null ts = (case last_opt ts of None \<Rightarrow> None | Some t \<Rightarrow> if t = 0 then None else Some t)"

definition finish_close :: "'w chrome \<Rightarrow> string \<Rightarrow> ('w, 'm, unit) sess_prog" where
  "finish_close C name = bindp (reads (\<lambda>st. (world st, cur name st))) (\<lambda>(w, s).
     if tabIds s = [] then seqp (delete_session name) (forgetOwnedSession C name)
     else if \<not> tabExists C w (activeTabId s)
     then update_session name (\<lambda>s. s\<lparr>activeTabId := last_or_null (tabIds s)\<rparr>)
     else ret ())"

definition closeSession :: "'w chrome \<Rightarrow> string \<Rightarrow> ('w, 'm, nat) sess_prog" where
  "closeSession C name =
     seqp (reconcile C name)
       (bindp (reads (\<lambda>st. tabIds (cur name st))) (\<lambda>ids.
        bindp (foldp (close_step C name) ids 0) (\<lambda>closed.
        seqp (finish_close C name) (ret closed))))"

definition close_group_step :: "'w chrome \<Rightarrow> tab \<Rightarrow> nat \<times> nat \<Rightarrow> ('w, 'm, nat \<times> nat) sess_prog" where
  "close_group_step C t = (\<lambda>(closed, remaining). bindp (removeManagedTab C (tab_id t)) (\<lambda>ok.
     if ok then ret (Suc closed, remaining) else ret (closed, Suc remaining)))"

definition closeGroup :: "'w chrome \<Rightarrow> int \<Rightarrow> ('w, 'm, nat) sess_prog" where
  "closeGroup C gid = bindp (reads (\<lambda>st. tabs_query_group C (world st) gid)) (\<lambda>q. case q of
      None \<Rightarrow> ret 0
    | Some tabs \<Rightarrow> bindp (foldp (close_group_step C) tabs (0, 0)) (\<lambda>(closed, remaining).
        seqp (if remaining = 0 then forgetOwnedGroup C gid else ret ()) (ret closed)))"

definition drop_tab :: "int \<Rightarrow> session \<Rightarrow> session" where
  "drop_tab t s =
     (if t \<in> set (tabIds s)
      then (let ts = sdel t (tabIds s)
            in s\<lparr>tabIds := ts, activeTabId := (if activeTabId s = Some t then last_opt ts else activeTabId s)\<rparr>)
      else s)"

definition handleTabRemoved :: "int \<Rightarrow> ('w, 'm) sess_state_scheme \<Rightarrow> ('w, 'm) sess_state_scheme" where
  "handleTabRemoved t st =
     (let st1 = cleanup (TabT t) (forget_refs t st)
      in st1\<lparr>sessionMap := map (\<lambda>(n, s). (n, drop_tab t s)) (sessionMap st1)\<rparr>)"

end
