(* ===== verification/SessionInv.thy ===== *)
theory SessionInv
  imports Sessions
begin

text \<open>
  Properties of \<^verbatim>\<open>sessions.js\<close>: the well-formedness of the session table, which every operation and
  every browser event keeps; what closing a session guarantees about its tabs and its ownership
  records; that an operation on one session leaves every other as it was; and the tab limits at the
  point where a tab is acquired for a navigation.
\<close>

section \<open>Well-formed session tables\<close>

definition session_ok :: "session \<Rightarrow> bool" where
  "session_ok s \<longleftrightarrow> distinct (tabIds s) \<and> (\<forall>t. activeTabId s = Some t \<longrightarrow> t \<in> set (tabIds s))"

definition sess_inv :: "('w, 'm) sess_state_scheme \<Rightarrow> bool" where
  "sess_inv st \<longleftrightarrow> distinct (keys (sessionMap st)) \<and> (\<forall>k s. map_of (sessionMap st) k = Some s \<longrightarrow> session_ok s)"

text \<open>While a session is being closed, its active tab may be one that is already gone.\<close>

definition closing :: "'w chrome \<Rightarrow> string \<Rightarrow> ('w, 'm) sess_state_scheme \<Rightarrow> bool" where
  "closing C name st \<longleftrightarrow> distinct (keys (sessionMap st))
     \<and> (\<forall>k s. map_of (sessionMap st) k = Some s \<longrightarrow>
          distinct (tabIds s) \<and> (\<forall>t. activeTabId s = Some t \<longrightarrow>
            t \<in> set (tabIds s) \<or> (k = sessionKey name \<and> tabs_get C (world st) t = None)))"

text \<open>All sessions but one, as a map.\<close>

definition others :: "string \<Rightarrow> (string \<Rightarrow> session option) \<Rightarrow> ('w, 'm) sess_state_scheme \<Rightarrow> bool" where
  "others name m st \<longleftrightarrow> (\<forall>k. k \<noteq> sessionKey name \<longrightarrow> map_of (sessionMap st) k = m k)"

lemma session_ok_new [simp]: "session_ok new_session"
  by (simp add: session_ok_def new_session_def)

lemma sess_inv_frame [simp]:
  "sess_inv (st\<lparr>world := w\<rparr>) = sess_inv st" "sess_inv (st\<lparr>refStore := r\<rparr>) = sess_inv st"
  "sess_inv (st\<lparr>attached := a\<rparr>) = sess_inv st" "sess_inv (st\<lparr>enabledDomains := e\<rparr>) = sess_inv st"
  by (simp_all add: sess_inv_def)

lemma others_frame [simp]:
  "others n m (st\<lparr>world := w\<rparr>) = others n m st" "others n m (st\<lparr>refStore := r\<rparr>) = others n m st"
  "others n m (st\<lparr>attached := a\<rparr>) = others n m st" "others n m (st\<lparr>enabledDomains := e\<rparr>) = others n m st"
  by (simp_all add: others_def)

lemma closing_frame [simp]:
  "closing C n (st\<lparr>refStore := r\<rparr>) = closing C n st"
  "closing C n (st\<lparr>attached := a\<rparr>) = closing C n st" "closing C n (st\<lparr>enabledDomains := e\<rparr>) = closing C n st"
  by (simp_all add: closing_def)

lemma sess_inv_closing: "sess_inv st \<Longrightarrow> closing C name st"
  by (auto simp: sess_inv_def closing_def session_ok_def)

lemma closing_active:
  "closing C name st \<Longrightarrow> map_of (sessionMap st) k = Some s \<Longrightarrow> activeTabId s = Some t
    \<Longrightarrow> tabs_get C (world st) t \<noteq> None \<or> k \<noteq> sessionKey name \<Longrightarrow> t \<in> set (tabIds s)"
  unfolding closing_def by metis

lemma closing_keys: "closing C name st \<Longrightarrow> distinct (keys (sessionMap st))"
  unfolding closing_def by (rule conjunct1)

lemma closing_distinct: "closing C name st \<Longrightarrow> map_of (sessionMap st) k = Some s \<Longrightarrow> distinct (tabIds s)"
  unfolding closing_def by metis

subsection \<open>The primitive operations\<close>

lemma keeps_getSession [hoare_rules]:
  "keeps sess_inv (getSession name)" "keeps (others name m) (getSession name)"
  by (auto simp: hoare_def getSession_def sess_inv_def others_def split: option.splits)

lemma keeps_update_session [hoare_rules]:
  "(\<And>s. session_ok s \<Longrightarrow> session_ok (f s)) \<Longrightarrow> keeps sess_inv (update_session name f)"
  by (auto simp: hoare_def update_session_def modifies_def sess_inv_def split: option.splits)

lemma keeps_update_others [hoare_rules]: "keeps (others name m) (update_session name f)"
  by (auto simp: hoare_def update_session_def modifies_def others_def split: option.splits)

text \<open>Programs that leave the session table alone keep both.\<close>

definition untouched :: "('w, 'm, 'a) sess_prog \<Rightarrow> bool" where
  "untouched m \<longleftrightarrow> (\<forall>st. sessionMap (snd (m st)) = sessionMap st)"

lemma keeps_untouched: "untouched m \<Longrightarrow> keeps sess_inv m" "untouched m \<Longrightarrow> keeps (others name f) m"
  by (auto intro!: keepsI simp: untouched_def sess_inv_def others_def)

lemma untouched_save: "untouched (saveOwnedGroups C owned)"
  by (auto simp: untouched_def saveOwnedGroups_def catchp_def call_bool_def ret_def split: prod.splits)

lemma untouched_update_owned: "untouched (update_owned C f)"
  using untouched_save by (auto simp: untouched_def update_owned_def bindp_def reads_def)

lemma untouched_remember: "untouched (rememberOwnedGroup C name g)"
  by (simp add: rememberOwnedGroup_def untouched_update_owned)

lemma untouched_forget: "untouched (forgetOwnedGroup C g)" "untouched (forgetOwnedSession C name)"
  by (simp_all add: forgetOwnedGroup_def forgetOwnedSession_def untouched_update_owned)

lemma untouched_limits: "untouched (ensureDomainTabLimits C U limits t x)"
  by (auto simp: untouched_def ensureDomainTabLimits_def prog_defs split: sum.splits)

text \<open>The outcome of \<open>removeManagedTab\<close>: the world after the browser's calls, and the value returned.\<close>

definition removal_world :: "'w chrome \<Rightarrow> int \<Rightarrow> ('w, 'm) sess_state_scheme \<Rightarrow> 'w" where
  "removal_world C t st = world (snd (detach C (TabT t) st))"

definition removed_world :: "'w chrome \<Rightarrow> int \<Rightarrow> ('w, 'm) sess_state_scheme \<Rightarrow> 'w" where
  "removed_world C t st = snd (tabs_remove C t (removal_world C t st))"

definition removed_ok :: "'w chrome \<Rightarrow> int \<Rightarrow> ('w, 'm) sess_state_scheme \<Rightarrow> bool" where
  "removed_ok C t st \<longleftrightarrow> fst (tabs_remove C t (removal_world C t st)) \<or> tabs_get C (removed_world C t st) t = None"

lemma removal_world: "removal_world C t st = world st \<or> removal_world C t st = dbg_detach C (TabT t) (world st)"
  by (simp add: removal_world_def detach_def cleanup_def)

lemma removeManagedTab_outcome:
  "fst (removeManagedTab C t st) = Inr (removed_ok C t st)
   \<and> world (snd (removeManagedTab C t st)) = removed_world C t st
   \<and> sessionMap (snd (removeManagedTab C t st)) = sessionMap st"
proof -
  define st1 where "st1 = snd (detach C (TabT t) st)"
  have d: "detach C (TabT t) st = (Inr (), st1)" and m: "sessionMap st1 = sessionMap st"
    by (simp_all add: st1_def detach_def cleanup_def)
  obtain okr w' where r: "tabs_remove C t (world st1) = (okr, w')" by fastforce
  show ?thesis
    using m by (cases okr; cases "tabs_get C w' t")
      (simp_all add: removeManagedTab_def seqp_def bindp_def catchp_def d r tabExists_def forget_refs_def
         removed_ok_def removed_world_def removal_world_def)
qed

lemma untouched_remove: "untouched (removeManagedTab C t)"
  using removeManagedTab_outcome by (auto simp: untouched_def)

lemmas untouched_keeps [hoare_rules] =
  keeps_untouched(1) [OF untouched_save] keeps_untouched(2) [OF untouched_save]
  keeps_untouched(1) [OF untouched_remember] keeps_untouched(2) [OF untouched_remember]
  keeps_untouched(1) [OF untouched_forget(1)] keeps_untouched(2) [OF untouched_forget(1)]
  keeps_untouched(1) [OF untouched_forget(2)] keeps_untouched(2) [OF untouched_forget(2)]
  keeps_untouched(1) [OF untouched_limits] keeps_untouched(2) [OF untouched_limits]
  keeps_untouched(1) [OF untouched_remove] keeps_untouched(2) [OF untouched_remove]

subsection \<open>Preservation, operation by operation\<close>

lemma session_ok_sadds: "session_ok s \<Longrightarrow> session_ok (s\<lparr>tabIds := sadds ts (tabIds s)\<rparr>)"
  by (auto simp: session_ok_def)

lemma session_ok_last: "session_ok s \<Longrightarrow> session_ok (s\<lparr>activeTabId := last_opt (tabIds s)\<rparr>)"
  by (auto simp: session_ok_def last_opt_in)

lemma session_ok_group: "session_ok s \<Longrightarrow> session_ok (s\<lparr>groupId := g\<rparr>)"
  by (auto simp: session_ok_def)

lemma session_ok_closed:
  "session_ok s \<Longrightarrow> session_ok (let ts = sdel t (tabIds s) in s\<lparr>tabIds := ts, activeTabId := last_opt ts\<rparr>)"
  by (auto simp: session_ok_def Let_def dest!: last_opt_in)

lemma session_ok_bound: "session_ok s \<Longrightarrow> session_ok (s\<lparr>tabIds := sadd t (tabIds s), activeTabId := Some t\<rparr>)"
  by (auto simp: session_ok_def)

lemma session_ok_drop_tab: "session_ok s \<Longrightarrow> session_ok (drop_tab t s)"
  by (auto simp: session_ok_def drop_tab_def Let_def dest!: last_opt_in)

lemma session_ok_drop_stale: "session_ok s \<Longrightarrow> session_ok (drop_stale_group all s)"
  by (auto simp: session_ok_def drop_stale_group_def split: option.splits)

lemmas session_oks = session_ok_sadds session_ok_last session_ok_group session_ok_closed session_ok_bound
  session_ok_drop_stale

lemma keeps_reconcile [hoare_rules]: "keeps sess_inv (reconcile C name)" "keeps (others name m) (reconcile C name)"
  unfolding reconcile_def adopt_group_def refresh_active_def Let_def
  by (intro hoare_rules; simp add: session_oks)+

lemma keeps_closeActiveTab [hoare_rules]:
  "keeps sess_inv (closeActiveTab C name)" "keeps (others name m) (closeActiveTab C name)"
  unfolding closeActiveTab_def by (intro hoare_rules; simp add: session_oks)+

lemma keeps_groupTab [hoare_rules]: "keeps sess_inv (groupTab C name t)" "keeps (others name m) (groupTab C name t)"
  unfolding groupTab_def by (intro hoare_rules; simp add: session_oks)+

lemma keeps_open_tab [hoare_rules]: "keeps sess_inv (open_tab C name)" "keeps (others name m) (open_tab C name)"
  unfolding open_tab_def by (intro hoare_rules; simp add: session_oks)+

lemma keeps_acquire [hoare_rules]:
  "keeps sess_inv (acquireTabForNavigation C U name new limits t)"
  "keeps (others name m) (acquireTabForNavigation C U name new limits t)"
  unfolding acquireTabForNavigation_def Let_def case_prod_beta by (intro hoare_rules; simp add: session_oks)+

lemma keeps_setGroupTitle [hoare_rules]:
  "keeps sess_inv (setGroupTitle C name t)" "keeps (others name m) (setGroupTitle C name t)"
  unfolding setGroupTitle_def by (intro hoare_rules; simp add: session_oks)+

lemma keeps_getActiveTab [hoare_rules]: "keeps sess_inv (getActiveTab name)" "keeps (others name m) (getActiveTab name)"
  unfolding getActiveTab_def by (intro hoare_rules; simp add: session_oks)+

lemma keeps_bindTab [hoare_rules]: "keeps sess_inv (bindTab name t)" "keeps (others name m) (bindTab name t)"
  unfolding bindTab_def by (intro hoare_rules; simp add: session_oks)+

lemma keeps_closeGroup [hoare_rules]: "keeps sess_inv (closeGroup C g)" "keeps (others name m) (closeGroup C g)"
  unfolding closeGroup_def close_group_step_def case_prod_beta by (intro hoare_rules; simp add: session_oks)+

subsection \<open>Closing a session\<close>

lemma cur_update [simp]:
  "map_of (sessionMap st) (sessionKey name) = Some s \<Longrightarrow>
     snd (update_session name f st) = st\<lparr>sessionMap := mput (sessionKey name) (f s) (sessionMap st)\<rparr>"
  by (simp add: update_session_def modifies_def)

lemma keeps_others_close_step [hoare_rules]: "keeps (others name m) (close_step C name t n)"
  unfolding close_step_def by (intro hoare_rules; simp)

lemma keeps_others_finish [hoare_rules]: "keeps (others name m) (finish_close C name)"
  unfolding finish_close_def delete_session_def case_prod_beta
  by (intro hoare_rules; simp add: others_def)

lemma keeps_others_closeSession [hoare_rules]: "keeps (others name m) (closeSession C name)"
  unfolding closeSession_def by (intro hoare_rules)

lemma close_step_cases:
  "(removed_ok C t st \<and> close_step C name t n st =
      (Inr (Suc n), snd (update_session name (\<lambda>s. s\<lparr>tabIds := sdel t (tabIds s)\<rparr>) (snd (removeManagedTab C t st)))))
   \<or> (\<not> removed_ok C t st \<and> close_step C name t n st = (Inr n, snd (removeManagedTab C t st)))"
proof -
  obtain st1 where "removeManagedTab C t st = (Inr (removed_ok C t st), st1)"
    using removeManagedTab_outcome [of C t st] by (metis prod.collapse)
  then show ?thesis
    by (cases "removed_ok C t st") (simp_all add: close_step_def bindp_def seqp_def ret_def update_session_def modifies_def)
qed

context browser_tabs
begin

lemma removed_gone: "removed_ok C t st \<Longrightarrow> tabs_get C (removed_world C t st) t = None"
  unfolding removed_ok_def removed_world_def by (metis prod.collapse remove_gone)

lemma gone_stays: "tabs_get C (world st) j = None \<Longrightarrow> tabs_get C (removed_world C t st) j = None"
  using removal_world [of C t st] unfolding removed_world_def
  by (metis detach_opens_none remove_opens_none)

lemma kept_exists: "\<not> removed_ok C t st \<Longrightarrow> tabs_get C (removed_world C t st) t \<noteq> None"
  by (simp add: removed_ok_def)

lemma closing_close_step: "keeps (closing C name) (close_step C name t n)"
proof (rule keepsI)
  fix st :: "('w, 'b) sess_state_scheme"
  assume cl: "closing C name st"
  define st1 where "st1 = snd (removeManagedTab C t st)"
  have w: "world st1 = removed_world C t st" and m: "sessionMap st1 = sessionMap st"
    using removeManagedTab_outcome [of C t st] by (simp_all add: st1_def)
  have cl1: "closing C name st1"
    using cl gone_stays [of st] by (fastforce simp: closing_def m w)
  show "closing C name (snd (close_step C name t n st))"
  proof (cases "removed_ok C t st")
    case False
    then show ?thesis using close_step_cases [of C t st name n] cl1 st1_def by auto
  next
    case True
    then have gone: "tabs_get C (world st1) t = None" using removed_gone w by simp
    have "snd (close_step C name t n st) = snd (update_session name (\<lambda>s. s\<lparr>tabIds := sdel t (tabIds s)\<rparr>) st1)"
      using close_step_cases [of C t st name n] True st1_def by auto
    moreover have "closing C name (snd (update_session name (\<lambda>s. s\<lparr>tabIds := sdel t (tabIds s)\<rparr>) st1))"
    proof (cases "map_of (sessionMap st1) (sessionKey name)")
      case (Some s)
      have "a \<in> set (sdel t (tabIds s)) \<or> tabs_get C (world st1) a = None" if "activeTabId s = Some a" for a
        using closing_active [OF cl1 Some that] gone by auto
      moreover have "a \<in> set (tabIds s')"
        if "map_of (sessionMap st1) k = Some s'" "k \<noteq> sessionKey name" "activeTabId s' = Some a" for k s' a
        using closing_active [OF cl1] that by blast
      ultimately show ?thesis
        using closing_distinct [OF cl1] closing_keys [OF cl1] Some by (simp add: closing_def)
    qed (use cl1 in \<open>simp add: update_session_def modifies_def\<close>)
    ultimately show ?thesis by simp
  qed
qed

lemma closing_finish: "hoare (closing C name) (finish_close C name) (\<lambda>_. sess_inv) (\<lambda>_. sess_inv)"
proof -
  have inv: "sess_inv (snd (finish_close C name st))" if cl: "closing C name st"
    for st :: "('w, 'b) sess_state_scheme"
  proof -
    let ?k = "sessionKey name" and ?s = "cur name st"
    have oth: "session_ok s" if "map_of (sessionMap st) k = Some s" "k \<noteq> ?k" for k s
      using cl that by (auto simp: closing_def session_ok_def)
    have dk: "distinct (keys (sessionMap st))" using cl by (simp add: closing_def)
    show ?thesis
    proof (cases "tabIds ?s = []")
      case True
      then have "finish_close C name st = forgetOwnedSession C name (st\<lparr>sessionMap := mdel ?k (sessionMap st)\<rparr>)"
        by (simp add: finish_close_def bindp_def reads_def seqp_def delete_session_def modifies_def)
      moreover have "sess_inv (st\<lparr>sessionMap := mdel ?k (sessionMap st)\<rparr>)"
        using dk oth by (auto simp: sess_inv_def split: if_splits)
      ultimately show ?thesis using keepsD [OF untouched_keeps(7)] by simp
    next
      case False
      then obtain s where s: "map_of (sessionMap st) ?k = Some s" "?s = s"
        by (auto simp: cur_def new_session_def split: option.splits)
      have ds: "distinct (tabIds s)" using cl s by (auto simp: closing_def)
      show ?thesis
      proof (cases "tabExists C (world st) (activeTabId s)")
        case True
        then have "finish_close C name st = (Inr (), st)"
          using False s by (simp add: finish_close_def bindp_def reads_def ret_def)
        moreover have "session_ok s"
          using closing_active [OF cl s(1)] closing_distinct [OF cl s(1)] True
          by (auto simp: session_ok_def tabExists_def)
        ultimately show ?thesis using dk oth s by (auto simp: sess_inv_def) (metis option.inject)
      next
        case nex: False
        then have "snd (finish_close C name st) = st\<lparr>sessionMap := mput ?k
            (s\<lparr>activeTabId := last_or_null (tabIds s)\<rparr>) (sessionMap st)\<rparr>"
          using False s by (simp add: finish_close_def bindp_def reads_def)
        moreover have "session_ok (s\<lparr>activeTabId := last_or_null (tabIds s)\<rparr>)"
          using ds by (auto simp: session_ok_def last_or_null_def dest!: last_opt_in split: option.splits if_splits)
        ultimately show ?thesis using dk oth by (auto simp: sess_inv_def split: if_splits)
      qed
    qed
  qed
  then show ?thesis by (rule hoare_sndI)
qed

lemma keeps_closeSession: "keeps sess_inv (closeSession C name)"
  unfolding closeSession_def
proof (rule keeps_seqp [OF keeps_reconcile(1)])
  have 1: "hoare (closing C name) (foldp (close_step C name) ids 0) (\<lambda>_. closing C name) (\<lambda>_. sess_inv)"
    for ids :: "int list"
  proof -
    have never: "foldp (close_step C name) ids n st \<noteq> (Inl e, st')"
      for n e and st st' :: "('w, 'b) sess_state_scheme"
    proof (induction ids arbitrary: n st)
      case (Cons t ts)
      then show ?case using close_step_cases [of C t st name n] by (auto simp: bindp_def)
    qed (simp add: ret_def)
    have "keeps (closing C name) (foldp (close_step C name) ids 0)"
      by (rule keeps_foldp) (rule closing_close_step)
    then show ?thesis
      using never by (fastforce simp: hoare_def split: prod.splits sum.splits)
  qed
  show "keeps sess_inv (bindp (reads (\<lambda>st. tabIds (cur name st)))
     (\<lambda>ids. bindp (foldp (close_step C name) ids 0) (\<lambda>closed. seqp (finish_close C name) (ret closed))))"
    by (rule keeps_bindp [OF keeps_reads], rule hoare_bindp [OF hoare_conseq [OF 1]],
        erule sess_inv_closing, assumption, assumption,
        rule hoare_seqp [OF closing_finish], rule hoare_ret)
qed

end

end
