(* ===== verification/SessionProps.thy ===== *)
theory SessionProps
  imports SessionInv
begin

text \<open>
  The main theorems on \<^verbatim>\<open>sessions.js\<close>.  First the shared lemmas: what the closing loop does to the
  tabs of a session, what the ownership table holds after it, when the tab limit lets an acquisition
  through.  Then the properties.
\<close>

section \<open>The closing loop\<close>

text \<open>A tab is accounted for when it is gone from the browser or still tracked by the session.\<close>

definition accounted :: "'w chrome \<Rightarrow> string \<Rightarrow> int \<Rightarrow> ('w, 'm) sess_state_scheme \<Rightarrow> bool" where
  "accounted C name t st \<longleftrightarrow>
     tabs_get C (world st) t = None \<or> t \<in> set (tabIds (cur name st))"

lemma cur_frame [simp]:
  "cur n (st\<lparr>world := w\<rparr>) = cur n st" "cur n (st\<lparr>refStore := r\<rparr>) = cur n st"
  by (simp_all add: cur_def)

lemma cur_put [simp]: "cur n (st\<lparr>sessionMap := mput (sessionKey n) s m\<rparr>) = s"
  by (simp add: cur_def)

lemma cur_sessionMap: "sessionMap st' = sessionMap st \<Longrightarrow> cur n st' = cur n st"
  by (simp add: cur_def)

lemma cur_update_session:
  "cur n (snd (update_session n f st)) = (if map_of (sessionMap st) (sessionKey n) = None then cur n st else f (cur n st))"
  by (auto simp: update_session_def modifies_def cur_def split: option.splits)

lemma world_update_session [simp]: "world (snd (update_session n f st)) = world st"
  by (simp add: update_session_def modifies_def split: option.splits)

lemma present_update_session:
  "(map_of (sessionMap (snd (update_session n f st))) k = None) = (map_of (sessionMap st) k = None)"
  by (auto simp: update_session_def modifies_def split: option.splits)

definition present :: "string \<Rightarrow> ('w, 'm) sess_state_scheme \<Rightarrow> bool" where
  "present name st \<longleftrightarrow> map_of (sessionMap st) (sessionKey name) \<noteq> None"

definition closed_one :: "'w chrome \<Rightarrow> string \<Rightarrow> int \<Rightarrow> nat \<Rightarrow> nat
    \<Rightarrow> ('w, 'm) sess_state_scheme \<Rightarrow> ('w, 'm) sess_state_scheme \<Rightarrow> bool" where
  "closed_one C name t n n' st st' \<longleftrightarrow>
     present name st' \<and> world st' = removed_world C t st
     \<and> (if removed_ok C t st then n' = Suc n \<and> tabIds (cur name st') = sdel t (tabIds (cur name st))
        else n' = n \<and> tabIds (cur name st') = tabIds (cur name st))"

lemma close_step_result:
  assumes "present name st"
  obtains n' st' where "close_step C name t n st = (Inr n', st')" "closed_one C name t n n' st st'"
proof -
  define st1 where "st1 = snd (removeManagedTab C t st)"
  define st2 where "st2 = snd (update_session name (\<lambda>s. s\<lparr>tabIds := sdel t (tabIds s)\<rparr>) st1)"
  have w: "world st1 = removed_world C t st" and m: "sessionMap st1 = sessionMap st"
    using removeManagedTab_outcome [of C t st] by (simp_all add: st1_def)
  have c: "cur name st1 = cur name st"
    using m by (rule cur_sessionMap)
  have p: "present name st1"
    using assms m by (simp add: present_def)
  have p2: "present name st2"
    using p by (simp add: st2_def present_def present_update_session)
  have w2: "world st2 = removed_world C t st"
    using w by (simp add: st2_def)
  have c2: "tabIds (cur name st2) = sdel t (tabIds (cur name st))"
    using p c by (simp add: st2_def cur_update_session present_def del: not_None_eq)
  show thesis
  proof (cases "removed_ok C t st")
    case True
    have "close_step C name t n st = (Inr (Suc n), st2)"
      using close_step_cases [of C t st name n] True unfolding st2_def st1_def by simp
    then show thesis
      by (rule that) (simp add: closed_one_def True p2 w2 c2)
  next
    case False
    have "close_step C name t n st = (Inr n, st1)"
      using close_step_cases [of C t st name n] False unfolding st1_def by simp
    then show thesis
      by (rule that) (simp add: closed_one_def False p w c)
  qed
qed

lemma close_loop:
  assumes "present name st" "distinct ts" "set ts \<subseteq> set (tabIds (cur name st))" "distinct (tabIds (cur name st))"
  shows "\<exists>m st'. foldp (close_step C name) ts n st = (Inr m, st') \<and> present name st'
    \<and> m + length (tabIds (cur name st')) = n + length (tabIds (cur name st))
    \<and> set (tabIds (cur name st')) \<subseteq> set (tabIds (cur name st))"
  using assms
proof (induction ts arbitrary: n st)
  case Nil
  then show ?case by (simp add: ret_def)
next
  case (Cons t ts)
  obtain n' st1 where r: "close_step C name t n st = (Inr n', st1)" and o: "closed_one C name t n n' st st1"
    using close_step_result [OF Cons.prems(1)] by blast
  have step: "foldp (close_step C name) (t # ts) n st = foldp (close_step C name) ts n' st1"
    by (simp add: bindp_def r)
  have p: "present name st1"
    using o by (simp add: closed_one_def)
  have d1: "distinct (tabIds (cur name st1))"
    and sub: "set ts \<subseteq> set (tabIds (cur name st1))"
    and s1: "set (tabIds (cur name st1)) \<subseteq> set (tabIds (cur name st))"
    and len: "n' + length (tabIds (cur name st1)) = n + length (tabIds (cur name st))"
    using o Cons.prems(2,3,4) length_sdel_distinct [of "tabIds (cur name st)" t]
    by (auto simp: closed_one_def split: if_splits)
  have "distinct ts" using Cons.prems(2) by simp
  from Cons.IH [OF p this sub d1, of n'] step len s1 show ?case by (metis order_trans)
qed

text \<open>Reconciliation creates the session's entry.\<close>

lemma keeps_present_update: "keeps (present name) (update_session n f)"
  by (rule keepsI) (auto simp: present_def present_update_session)

lemma keeps_present_untouched: "untouched m \<Longrightarrow> keeps (present name) m"
  by (rule keepsI) (simp add: present_def untouched_def)

lemma reconcile_present:
  assumes "reconcile C name st = (r, st1)"
  shows "present name st1"
proof -
  have g: "present name (snd (getSession name st))"
    by (auto simp: present_def getSession_def split: option.splits)
  obtain x where g': "getSession name st = (Inr x, snd (getSession name st))"
    by (cases "map_of (sessionMap st) (sessionKey name)") (simp_all add: getSession_def)
  have k: "keeps (present name) (bindp (reads (\<lambda>st. loadOwnedGroups C (world st))) (\<lambda>owned.
        bindp (reads (\<lambda>st. groups_query C (world st))) (\<lambda>q. case q of
          None \<Rightarrow> ret ()
        | Some all \<Rightarrow>
            (let groups = filter (belongs name owned) all in
             if groups = [] then update_session name (drop_stale_group all)
             else seqp (update_session name (\<lambda>s. s\<lparr>groupId := Some (grp_id (hd groups))\<rparr>))
                    (seqp (for_each groups (adopt_group C name)) (refresh_active C name))))))"
    unfolding Let_def adopt_group_def refresh_active_def
    by (intro hoare_rules keeps_present_update keeps_present_untouched untouched_remember)
  show ?thesis
    using keepsD [OF k g] assms unfolding reconcile_def seqp_def bindp_def [of "getSession name"]
    by (subst (asm) g') simp
qed

lemma reconcile_never_throws: "fst (reconcile C name st) = Inr ()"
proof -
  have 1: "hoare (\<lambda>_. True) (rememberOwnedGroup C name g) (\<lambda>_ _. True) (\<lambda>_ _. False)" for g
    by (auto simp: hoare_def rememberOwnedGroup_def update_owned_def saveOwnedGroups_def prog_defs call_bool_def
        split: prod.splits)
  have 2: "hoare (\<lambda>_. True) (update_session n f) (\<lambda>_ _. True) (\<lambda>_ _. False)" for n f
    by (simp add: hoare_def update_session_def modifies_def)
  have 3: "hoare (\<lambda>_. True) (adopt_group C name g) (\<lambda>_ _. True) (\<lambda>_ _. False)" for g
    unfolding adopt_group_def
    by (intro hoare_seqp [OF 1] hoare_bindp [where R = "\<lambda>_ _. True"])
      (auto simp: hoare_def reads_def ret_def update_session_def modifies_def split: option.splits)
  have 4: "hoare (\<lambda>_. True) (for_each gs (adopt_group C name)) (\<lambda>_ _. True) (\<lambda>_ _. False)" for gs
    by (induction gs) (auto intro!: hoare_ret hoare_seqp [OF 3])
  have 5: "hoare (\<lambda>_. True) (refresh_active C name) (\<lambda>_ _. True) (\<lambda>_ _. False)"
    by (simp add: hoare_def refresh_active_def update_session_def prog_defs)
  have "hoare (\<lambda>_. True) (reconcile C name) (\<lambda>_ _. True) (\<lambda>_ _. False)"
    unfolding reconcile_def Let_def
    by (rule hoare_seqp [where R = "\<lambda>_. True"], simp add: hoare_def getSession_def split: option.splits,
        rule hoare_bindp [where R = "\<lambda>_ _. True"], simp add: hoare_def reads_def,
        rule hoare_bindp [where R = "\<lambda>_ _. True"], simp add: hoare_def reads_def)
      (auto split: option.splits intro!: hoare_ret 2 hoare_seqp [OF 2] hoare_seqp [OF 4]
 5)
  then show ?thesis
    using hoareD_Inl [of "\<lambda>_. True" "reconcile C name"]
    by (cases "reconcile C name st"; cases "fst (reconcile C name st)") auto
qed

section \<open>The tab limit at an acquisition\<close>

lemma limits_result:
  "ensureDomainTabLimits C U limits t x st =
     (if limits = [] then Inr () else assertDomainTabLimits U limits t (managed_urls C x st), st)"
  by (auto simp: ensureDomainTabLimits_def prog_defs split: sum.splits)

definition replaceable :: "'w chrome \<Rightarrow> string \<Rightarrow> ('w, 'm) sess_state_scheme \<Rightarrow> int option" where
  "replaceable C name st =
     (if tabExists C (world st) (activeTabId (cur name st)) then activeTabId (cur name st) else None)"

lemma reconcile_eq: "reconcile C name st = (Inr (), snd (reconcile C name st))"
  using reconcile_never_throws [of C name st] by (metis prod.collapse)

text \<open>The acquisition after its reconciliation and its limit check.\<close>

definition acquire_checked :: "'w chrome \<Rightarrow> string \<Rightarrow> bool \<Rightarrow> int option \<Rightarrow> ('w, 'm, int) sess_prog" where
  "acquire_checked C name newTab active = (case active of
      None \<Rightarrow> open_tab C name
    | Some r \<Rightarrow>
        if newTab then bindp (closeActiveTab C name) (\<lambda>closed. if closed then open_tab C name else throw (CouldNotClose r))
        else ret r)"

lemma seqp_cond: "seqp (bindp m (\<lambda>b. if b then ret () else throw e)) n = bindp m (\<lambda>b. if b then n else throw e)"
  by (rule ext) (auto simp: prog_defs split: prod.splits sum.splits)

lemma acquire_unfold:
  "acquireTabForNavigation C U name newTab limits t st =
     (let st1 = snd (reconcile C name st) in
      case fst (ensureDomainTabLimits C U limits t (replaceable C name st1) st1) of
        Inl e \<Rightarrow> (Inl e, st1)
      | Inr _ \<Rightarrow> acquire_checked C name newTab (replaceable C name st1) st1)"
proof -
  define st1 where "st1 = snd (reconcile C name st)"
  have r: "reconcile C name st = (Inr (), st1)"
    unfolding st1_def by (rule reconcile_eq)
  obtain l where l: "ensureDomainTabLimits C U limits t (replaceable C name st1) st1 = (l, st1)"
    by (simp add: limits_result)
  consider (absent) "\<not> tabExists C (world st1) (activeTabId (cur name st1))"
    | (live) a where "activeTabId (cur name st1) = Some a" "tabExists C (world st1) (Some a)"
    by (cases "activeTabId (cur name st1)") (auto simp: tabExists_def)
  then show ?thesis
  proof cases
    case absent
    then have x: "replaceable C name st1 = None" by (simp add: replaceable_def)
    with absent l show ?thesis
      by (cases l) (simp_all add: acquireTabForNavigation_def seqp_def bindp_def r reads_def st1_def [symmetric]
          acquire_checked_def ret_def Let_def)
  next
    case live
    then have x: "replaceable C name st1 = Some a" by (simp add: replaceable_def)
    show ?thesis
    proof (cases newTab)
      case True
      have "acquireTabForNavigation C U name newTab limits t st =
        seqp (ensureDomainTabLimits C U limits t (Some a))
          (seqp (bindp (closeActiveTab C name) (\<lambda>closed. if closed then ret () else throw (CouldNotClose a)))
             (open_tab C name)) st1"
        unfolding acquireTabForNavigation_def seqp_def [of "reconcile C name"] bindp_def [of "reconcile C name"] r
        by (simp add: bindp_reads live True Let_def)
      then show ?thesis
        using l x True unfolding seqp_cond
        by (cases l) (simp_all add: seqp_def [of "ensureDomainTabLimits _ _ _ _ _"]
           bindp_def [of "ensureDomainTabLimits _ _ _ _ _"] st1_def [symmetric] acquire_checked_def Let_def)
    next
      case False
      then show ?thesis
        using l x live by (cases l) (simp_all add: acquireTabForNavigation_def seqp_def bindp_def r reads_def
          st1_def [symmetric] acquire_checked_def ret_def Let_def)
    qed
  qed
qed

subsection \<open>What the limit counts\<close>

text \<open>
  The tabs a limit counts, as a set: the live tabs tracked by a session and the tabs of every group
  the extension manages, except the one about to be navigated or replaced.
\<close>

definition managed :: "'w chrome \<Rightarrow> ('w, 'm) sess_state_scheme \<Rightarrow> int \<Rightarrow> bool" where
  "managed C st t \<longleftrightarrow>
     (\<exists>k s. (k, s) \<in> set (sessionMap st) \<and> t \<in> set (tabIds s) \<and> tabs_get C (world st) t \<noteq> None)
     \<or> (\<exists>gs g ts tb. groups_query C (world st) = Some gs \<and> g \<in> set gs \<and> managed_group C st g
          \<and> tabs_query_group C (world st) (grp_id g) = Some ts \<and> tb \<in> set ts \<and> t = tab_id tb)"

definition counted :: "'w chrome \<Rightarrow> (string \<Rightarrow> string option) \<Rightarrow> string \<Rightarrow> int option
    \<Rightarrow> ('w, 'm) sess_state_scheme \<Rightarrow> int set" where
  "counted C U d excl st = {t. managed C st t \<and> excl \<noteq> Some t \<and> (\<exists>tb. tabs_get C (world st) t = Some tb
     \<and> limit_url tb \<noteq> [] \<and> domainMatches (hostOf U (limit_url tb)) d)}"

lemma foldl_groups:
  "set (foldl (\<lambda>acc g. if P g then (case q g of None \<Rightarrow> acc | Some ts \<Rightarrow> sadds (map f ts) acc) else acc) acc gs)
     = set acc \<union> {x. \<exists>g ts t. g \<in> set gs \<and> P g \<and> q g = Some ts \<and> t \<in> set ts \<and> x = f t}"
  by (induction gs arbitrary: acc) (auto split: option.splits)

lemma foldl_groups_distinct:
  "distinct acc \<Longrightarrow>
   distinct (foldl (\<lambda>acc g. if P g then (case q g of None \<Rightarrow> acc | Some ts \<Rightarrow> sadds (map f ts) acc) else acc) acc gs)"
  by (induction gs arbitrary: acc) (auto split: option.splits)

lemma set_collect: "set (collectManagedTabIds C st) = {t. managed C st t}"
proof (cases "groups_query C (world st)")
  case None
  then show ?thesis
    by (force simp: collectManagedTabIds_def managed_def session_tabs_def split: if_splits)
next
  case (Some gs)
  then have "set (collectManagedTabIds C st) = set (session_tabs C st)
      \<union> {x. \<exists>g ts t. g \<in> set gs \<and> managed_group C st g \<and> tabs_query_group C (world st) (grp_id g) = Some ts
            \<and> t \<in> set ts \<and> x = tab_id t}"
    by (simp add: collectManagedTabIds_def Let_def foldl_groups)
  moreover have "set (session_tabs C st) = {t. \<exists>k s. (k, s) \<in> set (sessionMap st) \<and> t \<in> set (tabIds s)
      \<and> tabs_get C (world st) t \<noteq> None}"
    by (force simp: session_tabs_def split: if_splits)
  ultimately show ?thesis
    using Some by (auto simp: managed_def)
qed

lemma distinct_collect: "distinct (collectManagedTabIds C st)"
  by (auto simp: collectManagedTabIds_def Let_def intro: foldl_groups_distinct split: option.splits)

lemma length_filter_concat_option:
  "length (filter P [f t. i \<leftarrow> xs, t \<leftarrow> (case g i of None \<Rightarrow> [] | Some t \<Rightarrow> [t])])
     = length (filter (\<lambda>i. \<exists>t. g i = Some t \<and> P (f t)) xs)"
  by (induction xs) (auto split: option.splits)

lemma count_managed: "count_matching U d (managed_urls C excl st) = card (counted C U d excl st)"
proof -
  define ids where "ids = (case excl of None \<Rightarrow> collectManagedTabIds C st | Some x \<Rightarrow> sdel x (collectManagedTabIds C st))"
  define fits where "fits i \<longleftrightarrow> (\<exists>tb. tabs_get C (world st) i = Some tb \<and> limit_url tb \<noteq> []
      \<and> domainMatches (hostOf U (limit_url tb)) d)" for i
  have di: "distinct ids"
    by (auto simp: ids_def distinct_collect split: option.splits)
  have "count_matching U d (managed_urls C excl st) = length (filter fits ids)"
    unfolding count_matching_def managed_urls_def Let_def ids_def [symmetric] length_filter_concat_option fits_def
    by simp
  also have "\<dots> = card (set (filter fits ids))"
    by (rule distinct_card [symmetric]) (simp add: di)
  also have "set (filter fits ids) = counted C U d excl st"
    by (auto simp: ids_def fits_def counted_def set_collect split: option.splits)
  finally show ?thesis .
qed

section \<open>Acquiring a tab\<close>

text \<open>The host parser and the start state of the concrete instances: sessions.test.js's browser.\<close>

definition test_host :: "string \<Rightarrow> string option" where
  "test_host u = (if take 8 u = ''https://'' then Some (takeWhile (\<lambda>c. c \<noteq> CHR ''/'') (drop 8 u)) else None)"

definition start_state :: "int list \<Rightarrow> mock sess_state" where
  "start_state failures =
     \<lparr>world = initial_mock failures, attached = [], enabledDomains = [], refStore = [], sessionMap = []\<rparr>"

definition one_example :: "tab_limit option list" where
  "one_example = [Some \<lparr>lim_domain = ''example.com'', lim_max = 1\<rparr>]"

text \<open>
  C1: a navigation to a URL that some active rule covers is let through only where the governing
  rule (the longest matching domain) has room: with the new or reused tab, the tabs of that domain
  the extension manages are at most the rule's maximum.  The tab being reused or replaced is not counted
  against itself.
\<close>

theorem navigation_within_limit:
  assumes "acquireTabForNavigation C U name newTab limits (Some url) st = (Inr t, st')"
    and "js_trim url \<noteq> []" and "candidate (hostOf U url) limits l" and "hostOf U url \<noteq> []"
  shows "\<exists>b. governs (hostOf U url) limits b
    \<and> int (card (counted C U (lim_domain b) (replaceable C name (snd (reconcile C name st))) (snd (reconcile C name st)))) + 1
       \<le> lim_max b"
proof -
  let ?st1 = "snd (reconcile C name st)"
  from assms(3) have "limits \<noteq> []" by (auto simp: candidate_def)
  with assms(1) have "assertDomainTabLimits U limits (Some url) (managed_urls C (replaceable C name ?st1) ?st1) = Inr ()"
    by (simp add: acquire_unfold Let_def limits_result split: sum.splits)
  from assert_target_ok [OF assms(2,4) this assms(3)] show ?thesis
    by (auto simp: count_managed)
qed

lemma navigation_within_limit_witness:
  "\<exists>b. governs ''example.com'' one_example b
    \<and> int (card (counted mock_chrome test_host (lim_domain b)
        (replaceable mock_chrome ''custom-session'' (snd (reconcile mock_chrome ''custom-session'' (start_state []))))
        (snd (reconcile mock_chrome ''custom-session'' (start_state []))))) + 1 \<le> lim_max b"
proof -
  obtain t st' where a: "acquireTabForNavigation mock_chrome test_host ''custom-session'' False one_example
      (Some ''https://example.com/b'') (start_state []) = (Inr t, st')"
  proof -
    have "fst (acquireTabForNavigation mock_chrome test_host ''custom-session'' False one_example
      (Some ''https://example.com/b'') (start_state [])) = Inr 7"
      by code_simp
    then show thesis by (rule that [OF run_eq])
  qed
  have h: "hostOf test_host ''https://example.com/b'' = ''example.com''"
    by code_simp
  have tr: "js_trim ''https://example.com/b'' \<noteq> []"
    by code_simp
  have m: "domainMatches ''example.com'' ''example.com''"
    by code_simp
  have c: "candidate (hostOf test_host ''https://example.com/b'') one_example \<lparr>lim_domain = ''example.com'', lim_max = 1\<rparr>"
    by (simp add: candidate_def one_example_def h m)
  show ?thesis
    using navigation_within_limit [OF a tr c] h by simp
qed

text \<open>
  A navigation the tab limits refuse has changed nothing beyond the reconciliation: no tab is
  opened, closed, grouped or forgotten.
\<close>

lemma closeActiveTab_no_error: "closeActiveTab C name st \<noteq> (Inl e, st')"
proof -
  have "fst (removeManagedTab C t s) = Inr (removed_ok C t s)" for t and s :: "('a, 'b) sess_state_scheme"
    using removeManagedTab_outcome [of C t s] by simp
  then show ?thesis
    by (auto simp: closeActiveTab_def getSession_def bindp_def seqp_def ret_def update_session_def modifies_def
        split: option.splits prod.splits sum.splits) (metis fst_conv Inl_Inr_False)+
qed

lemma groupTab_ok: "fst (groupTab C name t st) = Inr ()"
  by (auto simp: groupTab_def getSession_def bindp_def catchp_def ret_def split: option.splits prod.splits sum.splits)

lemma hoare_total: "(\<And>st. fst (m st) = Inr ()) \<Longrightarrow> hoare (\<lambda>_. True) m (\<lambda>_ _. True) E"
  unfolding hoare_def by (metis (mono_tags, lifting) case_prod_beta old.sum.simps(6))

lemma open_tab_hoare: "hoare (\<lambda>_. True) (open_tab C name) (\<lambda>_ _. True) (\<lambda>e _. e = ApiError [])"
  unfolding open_tab_def
  by (rule hoare_bindp [where R = "\<lambda>_ _. True"], simp add: hoare_def call_opt_def split: option.splits prod.splits,
      rule hoare_seqp [where R = "\<lambda>_. True"], simp add: hoare_def update_session_def modifies_def,
      rule hoare_seqp [OF hoare_total [OF groupTab_ok]], rule hoare_ret, simp)

lemma open_tab_error: "open_tab C name st = (Inl e, st') \<Longrightarrow> e = ApiError []"
  by (rule hoareD_Inl [OF open_tab_hoare TrueI])

lemma refused_navigation_changes_nothing:
  assumes "acquireTabForNavigation C U name newTab limits target st = (Inl (TabLimitReached d n m), st')"
  shows "st' = snd (reconcile C name st)"
proof -
  let ?st1 = "snd (reconcile C name st)"
  have "acquire_checked C name newTab x ?st1 \<noteq> (Inl (TabLimitReached d n m), st')" for x
    using closeActiveTab_no_error [of C name ?st1]
    by (auto simp: acquire_checked_def bindp_def throw_def ret_def dest: open_tab_error
        split: option.splits prod.splits sum.splits if_splits)
  with assms show ?thesis
    by (auto simp: acquire_unfold Let_def split: sum.splits)
qed

lemma refused_navigation_changes_nothing_witness:
  "snd (acquireTabForNavigation mock_chrome test_host ''other'' False one_example
      (Some ''https://www.example.com'') (start_state []))
   = snd (reconcile mock_chrome ''other'' (start_state []))"
proof -
  have "fst (acquireTabForNavigation mock_chrome test_host ''other'' False one_example
      (Some ''https://www.example.com'') (start_state [])) = Inl (TabLimitReached ''example.com'' 1 1)"
    by code_simp
  then show ?thesis
    by (rule refused_navigation_changes_nothing [OF run_eq])
qed

subsection \<open>The tab acquired\<close>

definition holds_tab :: "string \<Rightarrow> int \<Rightarrow> ('w, 'm) sess_state_scheme \<Rightarrow> bool" where
  "holds_tab name t st \<longleftrightarrow> present name st \<and> activeTabId (cur name st) = Some t \<and> t \<in> set (tabIds (cur name st))"

lemma present_frame [simp]: "present name (st\<lparr>world := w\<rparr>) = present name st"
  by (simp add: present_def)

lemma holds_tab_frame [simp]: "holds_tab name t (st\<lparr>world := w\<rparr>) = holds_tab name t st"
  by (simp add: holds_tab_def)

lemma keeps_holds_tab_untouched: "untouched m \<Longrightarrow> keeps (holds_tab name t) m"
  by (rule keepsI) (simp add: holds_tab_def present_def untouched_def cur_def)

lemma keeps_holds_tab_group: "keeps (holds_tab name t) (update_session name (\<lambda>s. s\<lparr>groupId := g\<rparr>))"
  by (rule keepsI) (auto simp: holds_tab_def cur_update_session present_def present_update_session split: if_splits)

lemma untouched_getSession_present: "present name st \<Longrightarrow> getSession name st = (Inr (cur name st), st)"
  by (auto simp: present_def getSession_def cur_def)

lemma keeps_holds_tab_get: "keeps (holds_tab name t) (getSession name)"
  by (rule keepsI) (simp add: untouched_getSession_present holds_tab_def)

lemma keeps_holds_tab_groupTab: "keeps (holds_tab name t) (groupTab C name x)"
  unfolding groupTab_def
  by (intro hoare_rules keeps_holds_tab_get keeps_holds_tab_group keeps_holds_tab_untouched untouched_remember) simp_all

lemma open_tab_holds:
  assumes "present name st" "open_tab C name st = (Inr t, st')"
  shows "holds_tab name t st'"
proof -
  have "hoare (present name) (open_tab C name) (holds_tab name) (\<lambda>_ _. True)"
    unfolding open_tab_def
  proof (rule hoare_bindp [where R = "\<lambda>_. present name"])
    show "hoare (present name) (call_opt (tabs_create C ''about:blank'' False)) (\<lambda>_. present name) (\<lambda>_ _. True)"
      by (simp add: hoare_def call_opt_def split: option.splits prod.splits)
    fix tb
    have u: "hoare (present name) (update_session name (\<lambda>s. s\<lparr>tabIds := sadd (tab_id tb) (tabIds s),
        activeTabId := Some (tab_id tb)\<rparr>)) (\<lambda>_. holds_tab name (tab_id tb)) (\<lambda>_ _. True)"
      by (rule hoare_conseq [OF hoare_sndI [where P = "present name" and Q = "holds_tab name (tab_id tb)"]])
        (auto simp: holds_tab_def cur_update_session present_def present_update_session)
    show "hoare (present name) (seqp (update_session name (\<lambda>s. s\<lparr>tabIds := sadd (tab_id tb) (tabIds s),
        activeTabId := Some (tab_id tb)\<rparr>)) (seqp (groupTab C name (tab_id tb)) (ret (tab_id tb))))
        (holds_tab name) (\<lambda>_ _. True)"
      by (rule hoare_seqp [OF u], rule hoare_seqp [where R = "holds_tab name (tab_id tb)"],
          rule hoare_conseq [OF keeps_holds_tab_groupTab], assumption, assumption, rule TrueI)
        (rule hoare_ret)
  qed
  from hoareD_Inr [OF this assms] show ?thesis .
qed

lemma keeps_present_get: "keeps (present name) (getSession name)"
  by (rule keepsI) (simp add: untouched_getSession_present)

lemma keeps_present_closeActive: "keeps (present name) (closeActiveTab C name)"
  unfolding closeActiveTab_def
  by (intro hoare_rules keeps_present_update keeps_present_get keeps_present_untouched [OF untouched_remove])

lemmas present_closeActive = keepsD [OF keeps_present_closeActive]

text \<open>
  The tab an acquisition returns is the session's active tab and one of its tracked tabs, so the
  commands that follow (\<^verbatim>\<open>getActiveTab\<close>) act on it and \<^verbatim>\<open>closeSession\<close> will close it.
\<close>

lemma acquired_tab_is_active:
  assumes "sess_inv st" and "acquireTabForNavigation C U name newTab limits target st = (Inr t, st')"
  shows "activeTabId (cur name st') = Some t \<and> t \<in> set (tabIds (cur name st'))"
proof -
  let ?st1 = "snd (reconcile C name st)"
  have p: "present name ?st1"
    by (rule reconcile_present [OF reconcile_eq])
  have inv: "sess_inv ?st1"
    by (rule keepsD [OF keeps_reconcile(1) assms(1)])
  have "acquire_checked C name newTab (replaceable C name ?st1) ?st1 = (Inr t, st')"
    using assms(2) by (simp add: acquire_unfold Let_def split: sum.splits)
  then consider s where "present name s" "open_tab C name s = (Inr t, st')"
    | "replaceable C name ?st1 = Some t" "st' = ?st1"
    using p present_closeActive [OF p, of C]
    by (auto simp: acquire_checked_def bindp_def ret_def throw_def
        split: option.splits if_splits prod.splits sum.splits)
  then show ?thesis
  proof cases
    case 1
    then show ?thesis using open_tab_holds [OF 1] by (simp add: holds_tab_def)
  next
    case 2
    then have a: "activeTabId (cur name ?st1) = Some t"
      by (simp add: replaceable_def split: if_splits)
    obtain s where s: "map_of (sessionMap ?st1) (sessionKey name) = Some s" "cur name ?st1 = s"
      using p by (auto simp: present_def cur_def)
    have "session_ok s" using inv s by (simp add: sess_inv_def)
    with a s 2 show ?thesis by (simp add: session_ok_def)
  qed
qed

lemma acquired_tab_is_active_witness:
  "activeTabId (cur ''custom-session'' (snd (acquireTabForNavigation mock_chrome test_host ''custom-session'' True
     one_example (Some ''https://example.com/b'') (start_state [])))) = Some 100"
proof -
  have "fst (acquireTabForNavigation mock_chrome test_host ''custom-session'' True
     one_example (Some ''https://example.com/b'') (start_state [])) = Inr 100"
    by code_simp
  moreover have "sess_inv (start_state [])"
    by (simp add: sess_inv_def start_state_def)
  ultimately show ?thesis
    using acquired_tab_is_active [OF _ run_eq] by blast
qed



section \<open>Closing a session\<close>

lemma closeSession_unfold:
  assumes "reconcile C name st = (Inr (), st1)"
    and "foldp (close_step C name) (tabIds (cur name st1)) 0 st1 = (Inr m, st2)"
    and "finish_close C name st2 = (Inr (), st3)"
  shows "closeSession C name st = (Inr m, st3)"
  using assms by (simp add: closeSession_def seqp_def bindp_def reads_def ret_def)

lemma save_ok: "fst (saveOwnedGroups C owned st) = Inr ()"
  by (simp add: saveOwnedGroups_def catchp_def call_bool_def ret_def split: prod.splits)

lemma update_owned_ok: "fst (update_owned C f st) = Inr ()"
  by (simp add: update_owned_def bindp_reads save_ok)

lemma finish_close_result:
  "finish_close C name st =
     (if tabIds (cur name st) = []
      then (Inr (), snd (forgetOwnedSession C name (st\<lparr>sessionMap := mdel (sessionKey name) (sessionMap st)\<rparr>)))
      else (Inr (), if tabExists C (world st) (activeTabId (cur name st)) then st
        else snd (update_session name (\<lambda>s. s\<lparr>activeTabId := last_or_null (tabIds s)\<rparr>) st)))"
proof (cases "tabIds (cur name st) = []")
  case True
  then have finish: "finish_close C name st = forgetOwnedSession C name (st\<lparr>sessionMap := mdel (sessionKey name) (sessionMap st)\<rparr>)"
    by (simp add: finish_close_def bindp_reads seqp_def delete_session_def bindp_modifies)
  have "fst (finish_close C name st) = Inr ()"
    by (simp add: finish forgetOwnedSession_def update_owned_ok)
  from run_eq [OF this] show ?thesis
    using True by (simp add: finish)
next
  case False
  then show ?thesis
    by (simp add: finish_close_def bindp_reads update_session_def modifies_def ret_def)
qed

lemma finish_close_ok: "fst (finish_close C name st) = Inr ()"
  by (simp add: finish_close_result)

lemma world_forget: "world (snd (forgetOwnedSession C name st)) =
    snd (storage_set C [(OWNED_GROUPS_KEY, Obj (filter (\<lambda>(g, v). v \<noteq> Str (sessionKey name)) (loadOwnedGroups C (world st))))]
      (world st))"
  by (simp add: forgetOwnedSession_def update_owned_def bindp_reads saveOwnedGroups_def catchp_def call_bool_def ret_def
      split: prod.splits)

lemma sessionMap_forget: "sessionMap (snd (forgetOwnedSession C name st)) = sessionMap st"
  using untouched_forget(2) [of C name] unfolding untouched_def by (rule spec)

context browser_tabs
begin

lemma accounted_step:
  assumes "close_step C name x n st = (Inr n', st')" "closed_one C name x n n' st st'"
    and "accounted C name t st"
  shows "accounted C name t st'"
  using assms(2,3) gone_stays [of st t x] removed_gone [of x st]
  by (cases "t = x") (auto simp: accounted_def closed_one_def split: if_splits)

lemma accounted_loop:
  assumes "present name st" "accounted C name t st" "foldp (close_step C name) ts n st = (Inr m, st')"
  shows "accounted C name t st'"
  using assms
proof (induction ts arbitrary: n st)
  case Nil
  then show ?case by (simp add: ret_def)
next
  case (Cons x ts)
  obtain n' st1 where r: "close_step C name x n st = (Inr n', st1)" and o: "closed_one C name x n n' st st1"
    using close_step_result [OF Cons.prems(1)] by blast
  have "foldp (close_step C name) ts n' st1 = (Inr m, st')"
    using Cons.prems(3) by (simp add: bindp_def r)
  moreover have "present name st1" using o by (simp add: closed_one_def)
  ultimately show ?case
    using Cons.IH accounted_step [OF r o Cons.prems(2)] by blast
qed

end

context browser
begin

lemma loadOwned_loop:
  assumes "present name st" "foldp (close_step C name) ts n st = (Inr m, st')"
  shows "loadOwnedGroups C (world st') = loadOwnedGroups C (world st)"
  using assms
proof (induction ts arbitrary: n st)
  case Nil
  then show ?case by (simp add: ret_def)
next
  case (Cons x ts)
  obtain n' st1 where r: "close_step C name x n st = (Inr n', st1)" and o: "closed_one C name x n n' st st1"
    using close_step_result [OF Cons.prems(1)] by blast
  have "foldp (close_step C name) ts n' st1 = (Inr m, st')"
    using Cons.prems(2) by (simp add: bindp_def r)
  moreover have "loadOwnedGroups C (world st1) = loadOwnedGroups C (world st)"
    using o removal_world [of C x st] remove_keeps_storage detach_keeps_storage
    by (auto simp: closed_one_def loadOwnedGroups_def removed_world_def)
  moreover have "present name st1" using o by (simp add: closed_one_def)
  ultimately show ?case using Cons.IH by metis
qed

lemma finish_tabs: "tabs_get C (world (snd (finish_close C name st))) t = tabs_get C (world st) t"
  by (simp add: finish_close_result world_forget storage_keeps_tabs)

lemma loadOwned_forget:
  assumes "\<And>kvs w. fst (storage_set C kvs w)"
  shows "loadOwnedGroups C (world (snd (forgetOwnedSession C name st))) =
    filter (\<lambda>(g, v). v \<noteq> Str (sessionKey name)) (loadOwnedGroups C (world st))"
  unfolding world_forget
  by (subst loadOwnedGroups_def, subst set_get [OF run_eq]) (simp_all add: assms is_object_def own_props_def)

end

text \<open>The shape of every run of \<open>closeSession\<close>: reconcile, the closing loop, the finish.\<close>

lemma closeSession_run:
  assumes "sess_inv st"
  obtains m st2 where "foldp (close_step C name) (tabIds (cur name (snd (reconcile C name st)))) 0
        (snd (reconcile C name st)) = (Inr m, st2)"
    "closeSession C name st = (Inr m, snd (finish_close C name st2))"
    "present name st2" "m + length (tabIds (cur name st2)) = length (tabIds (cur name (snd (reconcile C name st))))"
    "set (tabIds (cur name st2)) \<subseteq> set (tabIds (cur name (snd (reconcile C name st))))"
proof -
  let ?st1 = "snd (reconcile C name st)"
  have p: "present name ?st1"
    by (rule reconcile_present [OF reconcile_eq])
  obtain s where s: "map_of (sessionMap ?st1) (sessionKey name) = Some s" "cur name ?st1 = s"
    using p by (auto simp: present_def cur_def)
  have "sess_inv ?st1"
    by (rule keepsD [OF keeps_reconcile(1) assms])
  with s have d: "distinct (tabIds (cur name ?st1))"
    by (simp add: sess_inv_def session_ok_def)
  obtain m st2 where l: "foldp (close_step C name) (tabIds (cur name ?st1)) 0 ?st1 = (Inr m, st2)" "present name st2"
    "m + length (tabIds (cur name st2)) = 0 + length (tabIds (cur name ?st1))"
    "set (tabIds (cur name st2)) \<subseteq> set (tabIds (cur name ?st1))"
    using close_loop [OF p d order_refl d] by blast
  show thesis
    by (rule that [OF l(1) closeSession_unfold [OF reconcile_eq l(1) run_eq [OF finish_close_ok]] l(2)])
      (use l in simp_all)
qed

lemma finish_tabIds: "present name st \<Longrightarrow> tabIds (cur name (snd (finish_close C name st))) = tabIds (cur name st)"
  by (auto simp: finish_close_result cur_update_session present_def)
    (auto simp: cur_def sessionMap_forget new_session_def)

lemma finish_present: "present name st \<Longrightarrow> present name (snd (finish_close C name st)) \<longleftrightarrow> tabIds (cur name st) \<noteq> []"
  by (auto simp: finish_close_result present_def present_update_session sessionMap_forget)

text \<open>
  C6: \<^verbatim>\<open>closeSession\<close> always returns a count.  Every tab the session tracked (after the reconciliation
  that adopts its groups) is gone from the browser or is still tracked, the count is the number of
  tabs no longer tracked, and the session is forgotten exactly when no tab is left.
\<close>

theorem close_session_accounts:
  assumes "browser C" and "sess_inv st"
  shows "\<exists>m st'. closeSession C name st = (Inr m, st')
    \<and> (\<forall>t \<in> set (tabIds (cur name (snd (reconcile C name st)))).
         tabs_get C (world st') t = None \<or> t \<in> set (tabIds (cur name st')))
    \<and> m + length (tabIds (cur name st')) = length (tabIds (cur name (snd (reconcile C name st))))
    \<and> (present name st' \<longleftrightarrow> tabIds (cur name st') \<noteq> [])"
proof -
  let ?st1 = "snd (reconcile C name st)"
  have bt: "browser_tabs C"
    using assms(1) by (rule browser.axioms(1))
  obtain m st2 where l: "foldp (close_step C name) (tabIds (cur name ?st1)) 0 ?st1 = (Inr m, st2)"
    and c: "closeSession C name st = (Inr m, snd (finish_close C name st2))" and p2: "present name st2"
    and n: "m + length (tabIds (cur name st2)) = length (tabIds (cur name ?st1))"
    by (rule closeSession_run [OF assms(2), of C name])
  have "accounted C name t (snd (finish_close C name st2))" if "t \<in> set (tabIds (cur name ?st1))" for t
  proof -
    have "accounted C name t ?st1" using that by (simp add: accounted_def)
    from browser_tabs.accounted_loop [OF bt reconcile_present [OF reconcile_eq] this l]
    show ?thesis
      by (simp add: accounted_def finish_tabIds [OF p2] browser.finish_tabs [OF assms(1)])
  qed
  with c n p2 show ?thesis
    by (auto simp: accounted_def finish_tabIds finish_present)
qed

lemma close_session_accounts_witness:
  "\<exists>m st'. closeSession mock_chrome ''custom-session'' (start_state []) = (Inr m, st')
    \<and> (present ''custom-session'' st' \<longleftrightarrow> tabIds (cur ''custom-session'' st') \<noteq> [])"
proof -
  have "sess_inv (start_state [])"
    by (simp add: sess_inv_def start_state_def)
  from close_session_accounts [OF mocked.browser_axioms this, of "''custom-session''"]
  show ?thesis by blast
qed

text \<open>
  The ownership record outlives a failed close and only that: while a tab of the session survives
  \<^verbatim>\<open>closeSession\<close> the persisted table is what it was, and once none survives no entry names the session any
  more (provided the browser accepts the write).
\<close>

lemma close_session_ownership:
  assumes "browser C" and "sess_inv st" and "\<And>kvs w. fst (storage_set C kvs w)"
  shows "loadOwnedGroups C (world (snd (closeSession C name st))) =
    (if tabIds (cur name (snd (closeSession C name st))) = []
     then filter (\<lambda>(g, v). v \<noteq> Str (sessionKey name)) (loadOwnedGroups C (world (snd (reconcile C name st))))
     else loadOwnedGroups C (world (snd (reconcile C name st))))"
proof -
  let ?st1 = "snd (reconcile C name st)"
  obtain m st2 where l: "foldp (close_step C name) (tabIds (cur name ?st1)) 0 ?st1 = (Inr m, st2)"
    and c: "closeSession C name st = (Inr m, snd (finish_close C name st2))" and p2: "present name st2"
    by (rule closeSession_run [OF assms(2), of C name])
  have "loadOwnedGroups C (world st2) = loadOwnedGroups C (world ?st1)"
    by (rule browser.loadOwned_loop [OF assms(1) reconcile_present [OF reconcile_eq] l])
  moreover have "loadOwnedGroups C (world (snd (forgetOwnedSession C name s))) =
      filter (\<lambda>(g, v). v \<noteq> Str (sessionKey name)) (loadOwnedGroups C (world s))"
    for s :: "('a, 'b) sess_state_scheme"
    by (rule browser.loadOwned_forget [OF assms(1,3)])
  ultimately show ?thesis
    by (simp add: c finish_tabIds [OF p2]) (simp add: finish_close_result)
qed

lemma close_session_ownership_witness:
  "loadOwnedGroups mock_chrome (world (snd (closeSession mock_chrome ''custom-session'' (start_state [7]))))
     = loadOwnedGroups mock_chrome (world (snd (reconcile mock_chrome ''custom-session'' (start_state [7]))))"
proof -
  have "sess_inv (start_state [7])"
    by (simp add: sess_inv_def start_state_def)
  moreover have f: "fst (storage_set mock_chrome kvs w)" for kvs w
    by (simp add: mock_defs)
  moreover have t: "tabIds (cur ''custom-session'' (snd (closeSession mock_chrome ''custom-session'' (start_state [7])))) = [7]"
    by code_simp
  ultimately show ?thesis
    using close_session_ownership [OF mocked.browser_axioms _ f, of "start_state [7]" "''custom-session''"]
    unfolding t by (simp only: list.simps if_False simp_thms)
qed

end
