(* ===== verification/SessionSystem.thy ===== *)
theory SessionSystem
  imports SessionProps
begin

text \<open>
  The session and debugger layer as a transition system: the operations the handlers call, in any
  order and with any outcome of the browser's calls, interleaved with the browser's own events (a tab
  removed, a debugger detached, anything else that changes the world).  The invariants of both
  modules hold in every reachable state.
\<close>

section \<open>Operations\<close>

datatype sess_op =
    Acquire string bool "tab_limit option list" "string option"
  | SetTitle string string
  | ActiveTab string
  | Bind string int
  | CloseSession string
  | CloseGroup int
  | Send debuggee string jsval
  | Ensure debuggee string
  | DetachFrom debuggee

definition discard :: "('s, 'e, 'a) prog \<Rightarrow> ('s, 'e, unit) prog" where
  "discard m = seqp m (ret ())"

fun run_op :: "'w chrome \<Rightarrow> (string \<Rightarrow> string option) \<Rightarrow> sess_op \<Rightarrow> ('w, 'm, unit) sess_prog" where
  "run_op C U (Acquire name newTab limits url) = discard (acquireTabForNavigation C U name newTab limits url)"
| "run_op C U (SetTitle name t) = setGroupTitle C name t"
| "run_op C U (ActiveTab name) = discard (getActiveTab name)"
| "run_op C U (Bind name t) = bindTab name t"
| "run_op C U (CloseSession name) = discard (closeSession C name)"
| "run_op C U (CloseGroup g) = discard (closeGroup C g)"
| "run_op C U (Send d m p) = discard (cdp_send C d m p)"
| "run_op C U (Ensure d dm) = ensureDomain C d dm"
| "run_op C U (DetachFrom d) = detach C d"

fun op_session :: "sess_op \<Rightarrow> string option" where
  "op_session (Acquire name _ _ _) = Some (sessionKey name)"
| "op_session (SetTitle name _) = Some (sessionKey name)"
| "op_session (ActiveTab name) = Some (sessionKey name)"
| "op_session (Bind name _) = Some (sessionKey name)"
| "op_session (CloseSession name) = Some (sessionKey name)"
| "op_session _ = None"

lemma snd_discard: "snd (discard m s) = snd (m s)"
  by (simp add: discard_def seqp_def bindp_def ret_def split: prod.splits sum.splits)

lemma keeps_discard [hoare_rules]: "keeps I m \<Longrightarrow> keeps I (discard m)"
  unfolding discard_def by (intro hoare_rules)

section \<open>The debugger's operations and the session table\<close>

lemma sessionMap_rawSend: "sessionMap (snd (rawSend C d m p st)) = sessionMap st"
  using rawSend_world [of C d m p st] by auto

lemma sessionMap_enable: "sessionMap (snd (enable C d dm st)) = sessionMap st"
  using enable_result [of C d dm st] by auto

lemma sessionMap_attach: "sessionMap (snd (attach C d st)) = sessionMap st"
proof -
  have o: "sessionMap (snd (open_debugger C d st)) = sessionMap st"
    using open_debugger_world [of C d st] by auto
  then show ?thesis
    by (auto simp: attach_unfold ret_def sessionMap_enable split: sum.splits prod.splits debuggee.splits)
qed

lemma untouched_attach: "untouched (attach C d)"
  by (simp add: untouched_def sessionMap_attach)

lemma untouched_bind: "untouched m \<Longrightarrow> (\<And>x. untouched (f x)) \<Longrightarrow> untouched (bindp m f)"
  unfolding untouched_def bindp_def
  by (intro allI) (auto split: prod.splits sum.splits, (metis snd_conv)+)

lemma untouched_cdp:
  "untouched (cdp_send C d m p)" "untouched (ensureDomain C d dm)" "untouched (detach C d)"
proof -
  have s: "untouched (rawSend C d m p)" and e: "untouched (enable C d dm)"
    by (simp_all add: untouched_def sessionMap_rawSend sessionMap_enable)
  show "untouched (cdp_send C d m p)" "untouched (ensureDomain C d dm)"
    unfolding cdp_send_def ensureDomain_def seqp_def
    by (rule untouched_bind [OF untouched_attach s], rule untouched_bind [OF untouched_attach e])
  show "untouched (detach C d)"
    by (simp add: untouched_def detach_def cleanup_def)
qed

lemma cdp_inv_frame [simp]:
  "cdp_inv (st\<lparr>refStore := r\<rparr>) = cdp_inv st" "cdp_inv (st\<lparr>sessionMap := m\<rparr>) = cdp_inv st"
  by (simp_all add: cdp_inv_def domains_of_def)

lemma keeps_cdp_update [hoare_rules]: "keeps cdp_inv (update_session name f)"
  by (rule keepsI) (simp add: update_session_def modifies_def split: option.splits)

lemma keeps_cdp_get [hoare_rules]: "keeps cdp_inv (getSession name)"
  by (rule keepsI) (simp add: getSession_def split: option.splits)

lemma keeps_cdp_remove [hoare_rules]: "keeps cdp_inv (removeManagedTab C t)"
proof (rule keepsI)
  fix s :: "('a, 'b) sess_state_scheme"
  assume i: "cdp_inv s"
  define s1 where "s1 = snd (detach C (TabT t) s)"
  have "detach C (TabT t) s = (Inr (), s1)" by (simp add: s1_def detach_def)
  moreover have "cdp_inv s1" unfolding s1_def by (rule cdp_inv_detach [OF i])
  ultimately show "cdp_inv (snd (removeManagedTab C t s))"
    by (simp add: removeManagedTab_def seqp_def bindp_def catchp_def forget_refs_def split: prod.splits)
qed

lemma keeps_cdp_owned [hoare_rules]: "keeps cdp_inv (update_owned C f)"
  unfolding update_owned_def saveOwnedGroups_def by (intro hoare_rules) simp

lemma keeps_cdp_detach [hoare_rules]: "keeps cdp_inv (detach C d)"
  by (rule keepsI) (rule cdp_inv_detach)

lemma keeps_cdp_send [hoare_rules]: "keeps cdp_inv (cdp_send C d m p)"
proof -
  have "keeps cdp_inv (rawSend C d m p)"
    by (rule keepsI) (metis rawSend_world cdp_inv_world)
  then show ?thesis
    unfolding cdp_send_def by (intro hoare_rules)
qed

lemma keeps_cdp_ensure [hoare_rules]: "keeps cdp_inv (ensureDomain C d dm)"
proof (rule keepsI)
  fix s :: "('a, 'b) cdp_state_scheme"
  assume i: "cdp_inv s"
  obtain r s1 where a: "attach C d s = (r, s1)" by fastforce
  have i1: "cdp_inv s1" using keepsD [OF keeps_cdp_attach i, of C d] a by simp
  show "cdp_inv (snd (ensureDomain C d dm s))"
    using a i1 attach_ok [of C d s s1] cdp_inv_enable [OF i1, of d C dm]
    by (cases r) (auto simp: ensureDomain_unfold)
qed

lemma keeps_cdp_reconcile [hoare_rules]: "keeps cdp_inv (reconcile C name)"
  unfolding reconcile_def adopt_group_def refresh_active_def rememberOwnedGroup_def Let_def
  by (intro hoare_rules)

lemma keeps_cdp_limits [hoare_rules]: "keeps cdp_inv (ensureDomainTabLimits C U limits t x)"
  unfolding ensureDomainTabLimits_def by (intro hoare_rules; simp)

lemma keeps_cdp_groupTab [hoare_rules]: "keeps cdp_inv (groupTab C name t)"
  unfolding groupTab_def rememberOwnedGroup_def by (intro hoare_rules; simp)

lemma keeps_cdp_acquire [hoare_rules]: "keeps cdp_inv (acquireTabForNavigation C U name newTab limits t)"
  unfolding acquireTabForNavigation_def closeActiveTab_def open_tab_def Let_def case_prod_beta
  by (intro hoare_rules; simp)

lemma keeps_cdp_title [hoare_rules]: "keeps cdp_inv (setGroupTitle C name t)"
  unfolding setGroupTitle_def rememberOwnedGroup_def by (intro hoare_rules; simp)

lemma keeps_cdp_close [hoare_rules]: "keeps cdp_inv (closeSession C name)"
  unfolding closeSession_def close_step_def finish_close_def delete_session_def forgetOwnedSession_def case_prod_beta
  by (intro hoare_rules; simp)

lemma keeps_cdp_closeGroup [hoare_rules]: "keeps cdp_inv (closeGroup C g)"
  unfolding closeGroup_def close_group_step_def forgetOwnedGroup_def case_prod_beta
  by (intro hoare_rules; simp)

lemma keeps_cdp_bind [hoare_rules]: "keeps cdp_inv (bindTab name t)" "keeps cdp_inv (getActiveTab name)"
  unfolding bindTab_def getActiveTab_def by (intro hoare_rules; simp)+

lemma keeps_cdp_run: "keeps cdp_inv (run_op C U p)"
  by (cases p) (simp_all only: run_op.simps, (intro hoare_rules)+)

lemma keeps_sess_run:
  assumes "browser_tabs C"
  shows "keeps sess_inv (run_op C U p)"
  using browser_tabs.keeps_closeSession [OF assms] untouched_cdp [THEN keeps_untouched(1)]
  by (cases p) (auto intro!: hoare_rules)

section \<open>Reachable states\<close>

inductive sess_step :: "'w chrome \<Rightarrow> (string \<Rightarrow> string option) \<Rightarrow> ('w, 'm) sess_state_scheme
    \<Rightarrow> ('w, 'm) sess_state_scheme \<Rightarrow> bool" for C U where
  step_op: "sess_step C U st (snd (run_op C U p st))"
| step_removed: "sess_step C U st (handleTabRemoved t st)"
| step_detached: "sess_step C U st (onDetach i d st)"
| step_snapshot: "sess_step C U st (st\<lparr>refStore := setRefs k m (refStore st)\<rparr>)"
| step_world: "sess_step C U st (st\<lparr>world := w\<rparr>)"

inductive_cases sess_stepE: "sess_step C U st st'"

inductive sess_reachable :: "'w chrome \<Rightarrow> (string \<Rightarrow> string option) \<Rightarrow> ('w, 'm) sess_state_scheme
    \<Rightarrow> ('w, 'm) sess_state_scheme \<Rightarrow> bool" for C U st0 where
  reach_start: "sess_reachable C U st0 st0"
| reach_step: "sess_reachable C U st0 st \<Longrightarrow> sess_step C U st st' \<Longrightarrow> sess_reachable C U st0 st'"

definition loaded :: "('w, 'm) sess_state_scheme \<Rightarrow> bool" where
  "loaded st \<longleftrightarrow> attached st = [] \<and> enabledDomains st = [] \<and> refStore st = [] \<and> sessionMap st = []"

lemma sess_inv_handleTabRemoved: "sess_inv st \<Longrightarrow> sess_inv (handleTabRemoved t st)"
proof -
  assume i: "sess_inv st"
  have "map_of (map (\<lambda>(n, s). (n, drop_tab t s)) m) k = map_option (drop_tab t) (map_of m k)" for m and k :: string
    by (simp add: map_of_map)
  then show ?thesis
    using i by (auto simp: handleTabRemoved_def Let_def sess_inv_def cleanup_def forget_refs_def o_def case_prod_beta
        intro!: session_ok_drop_tab)
qed

lemma cdp_inv_handleTabRemoved: "cdp_inv st \<Longrightarrow> cdp_inv (handleTabRemoved t st)"
  by (simp add: handleTabRemoved_def Let_def cdp_inv_cleanup forget_refs_def)

lemma sess_inv_onDetach: "sess_inv st \<Longrightarrow> sess_inv (onDetach i d st)"
  by (auto simp: onDetach_def Let_def sess_inv_def cleanup_def split: option.splits)

lemma step_keeps_cdp: "sess_step C U st st' \<Longrightarrow> cdp_inv st \<Longrightarrow> cdp_inv st'"
  by (erule sess_stepE) (auto intro: cdp_inv_handleTabRemoved cdp_inv_onDetach keepsD [OF keeps_cdp_run])

lemma step_keeps_sess: "browser_tabs C \<Longrightarrow> sess_step C U st st' \<Longrightarrow> sess_inv st \<Longrightarrow> sess_inv st'"
  by (erule sess_stepE) (auto intro: sess_inv_handleTabRemoved sess_inv_onDetach keepsD [OF keeps_sess_run])

text \<open>
  From a fresh load of the extension, in every state the operations and the browser's events can
  reach: session names are unique, no session tracks a tab twice, an active tab is one of the tracked
  ones; debugger domains are enabled only for attached targets and an attached tab has its \<^verbatim>\<open>Page\<close> domain.
\<close>

lemma reachable_well_formed:
  assumes "browser_tabs C" and "loaded st0" and "sess_reachable C U st0 st"
  shows "sess_inv st \<and> cdp_inv st"
  using assms(3)
proof induction
  case reach_start
  then show ?case using assms(2) by (simp add: loaded_def sess_inv_def cdp_inv_def)
next
  case (reach_step st st')
  then show ?case using step_keeps_sess [OF assms(1)] step_keeps_cdp by blast
qed

lemma reachable_well_formed_witness:
  "sess_inv (handleTabRemoved 7 (snd (run_op mock_chrome test_host (Bind ''a'' 7) (start_state []))))"
proof -
  have "loaded (start_state [])"
    by (simp add: loaded_def start_state_def)
  moreover have "sess_reachable mock_chrome test_host (start_state [])
      (handleTabRemoved 7 (snd (run_op mock_chrome test_host (Bind ''a'' 7) (start_state []))))"
    by (intro reach_step [OF reach_step [OF reach_start step_op] step_removed])
  ultimately show ?thesis
    using reachable_well_formed [OF mocked.browser_tabs_axioms] by blast
qed

lemma isolated_by:
  "keeps (others name (map_of (sessionMap st))) m \<Longrightarrow> k \<noteq> sessionKey name
    \<Longrightarrow> map_of (sessionMap (snd (m st))) k = map_of (sessionMap st) k"
  using keepsD [of "others name (map_of (sessionMap st))" m st] by (simp add: others_def)

lemma untouched_same: "untouched m \<Longrightarrow> sessionMap (snd (m st)) = sessionMap st"
  by (simp add: untouched_def)

lemma untouched_ret: "untouched (ret x)" "untouched (reads f)"
  by (simp_all add: untouched_def ret_def reads_def)

lemma untouched_foldp: "(\<And>x b. untouched (f x b)) \<Longrightarrow> untouched (foldp f xs b)"
  by (induction xs arbitrary: b) (auto intro: untouched_bind untouched_ret)

lemma untouched_closeGroup: "untouched (closeGroup C g)"
proof -
  have "untouched (close_group_step C t b)" for t b
    by (auto simp: close_group_step_def case_prod_beta intro!: untouched_bind untouched_remove untouched_ret)
  then have l: "untouched (foldp (close_group_step C) ts b)" for ts b
    by (intro untouched_foldp)
  show ?thesis
    unfolding closeGroup_def case_prod_beta seqp_def
    by (intro untouched_bind untouched_ret) (auto split: option.splits intro!: untouched_bind l untouched_ret untouched_forget)
qed

text \<open>
  An operation on one session never changes another: the entry of every other session name is
  what it was, whatever the operation, its outcome and the browser's answers.
\<close>

lemma sessions_isolated:
  assumes "op_session p \<noteq> Some k"
  shows "map_of (sessionMap (snd (run_op C U p st))) k = map_of (sessionMap st) k"
proof (cases p)
  case (Acquire name newTab limits url)
  with assms show ?thesis
    by (simp add: snd_discard isolated_by [OF keeps_acquire(2)])
next
  case (SetTitle name t)
  with assms show ?thesis by (simp add: isolated_by [OF keeps_setGroupTitle(2)])
next
  case (ActiveTab name)
  with assms show ?thesis by (simp add: snd_discard isolated_by [OF keeps_getActiveTab(2)])
next
  case (Bind name t)
  with assms show ?thesis by (simp add: isolated_by [OF keeps_bindTab(2)])
next
  case (CloseSession name)
  with assms show ?thesis by (simp add: snd_discard isolated_by [OF keeps_others_closeSession])
next
  case (CloseGroup g)
  then show ?thesis by (simp add: snd_discard untouched_same [OF untouched_closeGroup])
qed (simp_all add: snd_discard untouched_same [OF untouched_cdp(1)] untouched_same [OF untouched_cdp(2)]
      untouched_same [OF untouched_cdp(3)])

lemma sessions_isolated_witness:
  "map_of (sessionMap (snd (run_op mock_chrome test_host (CloseSession ''a'')
       (snd (run_op mock_chrome test_host (Bind ''b'' 7) (start_state [])))))) ''b''
   = map_of (sessionMap (snd (run_op mock_chrome test_host (Bind ''b'' 7) (start_state [])))) ''b''"
proof -
  have "op_session (CloseSession ''a'') \<noteq> Some ''b''"
    by (simp add: sessionKey_def)
  then show ?thesis by (rule sessions_isolated)
qed



section \<open>Adoption of live groups\<close>

lemma remember_world:
  "\<exists>kvs. world (snd (rememberOwnedGroup C name g st)) = snd (storage_set C kvs (world st))"
  by (rule exI [of _ "[(OWNED_GROUPS_KEY, Obj (mput (show_int g) (Str (sessionKey name)) (loadOwnedGroups C (world st))))]"])
    (simp add: rememberOwnedGroup_def update_owned_def saveOwnedGroups_def call_bool_def prog_defs split: prod.splits)

lemma bindp_update: "bindp (update_session n f) g st = g () (snd (update_session n f st))"
  by (simp add: update_session_def bindp_modifies) (simp add: modifies_def)

lemma remember_ok: "fst (rememberOwnedGroup C name g st) = Inr ()"
  by (simp add: rememberOwnedGroup_def update_owned_ok)

context browser
begin

definition same_groups :: "'w \<Rightarrow> 'w \<Rightarrow> bool" where
  "same_groups w w' \<longleftrightarrow> tabs_query_group C w' = tabs_query_group C w"

lemma adopt_effect:
  assumes "present name st"
  obtains st' where "adopt_group C name g st = (Inr (), st')" "present name st'" "same_groups (world st) (world st')"
    "set (tabIds (cur name st')) = set (tabIds (cur name st)) \<union>
       (case tabs_query_group C (world st) (grp_id g) of None \<Rightarrow> {} | Some ts \<Rightarrow> tab_id ` set ts)"
    "groupId (cur name st') = groupId (cur name st)"
proof -
  define st1 where "st1 = snd (rememberOwnedGroup C name (grp_id g) st)"
  have r: "rememberOwnedGroup C name (grp_id g) st = (Inr (), st1)"
    unfolding st1_def by (rule run_eq [OF remember_ok])
  have m: "sessionMap st1 = sessionMap st"
    unfolding st1_def by (rule untouched_same [OF untouched_remember])
  have p1: "present name st1" and c1: "cur name st1 = cur name st"
    using assms cur_sessionMap [OF m] by (simp_all add: present_def m)
  have w: "tabs_query_group C (world st1) = tabs_query_group C (world st)"
    using remember_world [of C name "grp_id g" st] storage_keeps_group_tabs by (auto simp: st1_def fun_eq_iff)
  show thesis
  proof (cases "tabs_query_group C (world st) (grp_id g)")
    case None
    then have "adopt_group C name g st = (Inr (), st1)"
      by (simp add: adopt_group_def seqp_def bindp_def r reads_def w ret_def)
    then show thesis
      by (rule that) (simp_all add: p1 same_groups_def w c1 None)
  next
    case (Some ts)
    let ?u = "update_session name (\<lambda>s. s\<lparr>tabIds := sadds (map tab_id ts) (tabIds s)\<rparr>) :: ('w, 'a, unit) sess_prog"
    have "adopt_group C name g st = ?u st1"
      by (simp add: adopt_group_def seqp_def bindp_def r reads_def w Some)
    also have "\<dots> = (Inr (), snd (?u st1))"
      by (simp add: update_session_def modifies_def)
    finally show thesis
    proof (rule that)
      show "present name (snd (?u st1))"
        using p1 by (simp add: present_def present_update_session)
      show "same_groups (world st) (world (snd (?u st1)))"
        by (simp add: same_groups_def w)
      have c: "cur name (snd (?u st1)) = (cur name st)\<lparr>tabIds := sadds (map tab_id ts) (tabIds (cur name st))\<rparr>"
        using p1 unfolding cur_update_session present_def by (simp add: c1 del: not_None_eq)
      show "set (tabIds (cur name (snd (?u st1)))) = set (tabIds (cur name st)) \<union>
         (case tabs_query_group C (world st) (grp_id g) of None \<Rightarrow> {} | Some ts \<Rightarrow> tab_id ` set ts)"
        by (simp add: c Some Un_commute)
      show "groupId (cur name (snd (?u st1))) = groupId (cur name st)"
        by (simp add: c)
    qed
  qed
qed

lemma adopt_groups_effect:
  assumes "present name st"
  shows "\<exists>st'. for_each gs (adopt_group C name) st = (Inr (), st') \<and> present name st'
    \<and> set (tabIds (cur name st')) = set (tabIds (cur name st)) \<union>
       (\<Union>g \<in> set gs. case tabs_query_group C (world st) (grp_id g) of None \<Rightarrow> {} | Some ts \<Rightarrow> tab_id ` set ts)
    \<and> groupId (cur name st') = groupId (cur name st)"
  using assms
proof (induction gs arbitrary: st)
  case Nil
  then show ?case by (simp add: ret_def)
next
  case (Cons g gs)
  obtain st1 where a: "adopt_group C name g st = (Inr (), st1)" "present name st1" "same_groups (world st) (world st1)"
    "set (tabIds (cur name st1)) = set (tabIds (cur name st)) \<union>
       (case tabs_query_group C (world st) (grp_id g) of None \<Rightarrow> {} | Some ts \<Rightarrow> tab_id ` set ts)"
    "groupId (cur name st1) = groupId (cur name st)"
    by (rule adopt_effect [OF Cons.prems])
  from Cons.IH [OF a(2)] a show ?case
    by (auto simp: seqp_def bindp_def same_groups_def)
qed

lemma refresh_active_effect:
  "present name st \<Longrightarrow> tabIds (cur name (snd (refresh_active C name st))) = tabIds (cur name st)
     \<and> groupId (cur name (snd (refresh_active C name st))) = groupId (cur name st)"
  unfolding refresh_active_def bindp_reads cur_update_session present_def by simp

end

text \<open>
  C25: reconciliation adopts the live groups of the session: every group whose title is the session's
  name, or that the persisted table records under it, has all its tabs tracked afterwards, the session
  points to the first such group, and no tab tracked before is dropped.
\<close>

theorem reconcile_adopts:
  assumes "browser C" and "groups_query C (world st) = Some all"
    and "g \<in> set all" and "belongs name (loadOwnedGroups C (world st)) g"
  shows "(\<forall>ts. tabs_query_group C (world st) (grp_id g) = Some ts \<longrightarrow>
            tab_id ` set ts \<subseteq> set (tabIds (cur name (snd (reconcile C name st)))))
    \<and> set (tabIds (cur name st)) \<subseteq> set (tabIds (cur name (snd (reconcile C name st))))
    \<and> groupId (cur name (snd (reconcile C name st)))
        = Some (grp_id (hd (filter (belongs name (loadOwnedGroups C (world st))) all)))"
proof -
  let ?gs = "filter (belongs name (loadOwnedGroups C (world st))) all"
  define st1 where "st1 = snd (getSession name st)"
  define st2 where "st2 = snd (update_session name (\<lambda>s. s\<lparr>groupId := Some (grp_id (hd ?gs))\<rparr>) st1)"
  have ne: "?gs \<noteq> []" and gin: "g \<in> set ?gs" using assms(3,4) by (auto simp: filter_empty_conv)
  have g1: "getSession name st = (fst (getSession name st), st1)" "fst (getSession name st) = Inr (cur name st1)"
    "world st1 = world st" "present name st1" "cur name st1 = cur name st"
    by (auto simp: st1_def getSession_def present_def cur_def split: option.splits)
  have c2: "cur name st2 = (cur name st)\<lparr>groupId := Some (grp_id (hd ?gs))\<rparr>" and p2: "present name st2"
    and w2: "world st2 = world st"
    using g1(3,4,5) unfolding st2_def cur_update_session present_def present_update_session
    by (simp_all del: not_None_eq)
  obtain st3 where f: "for_each ?gs (adopt_group C name) st2 = (Inr (), st3)" and p3: "present name st3"
    and t3: "set (tabIds (cur name st3)) = set (tabIds (cur name st)) \<union>
       (\<Union>g \<in> set ?gs. case tabs_query_group C (world st) (grp_id g) of None \<Rightarrow> {} | Some ts \<Rightarrow> tab_id ` set ts)"
    and i3: "groupId (cur name st3) = Some (grp_id (hd ?gs))"
    using browser.adopt_groups_effect [OF assms(1) p2, of ?gs] by (auto simp: c2 w2)
  have "reconcile C name st = refresh_active C name st3"
    using g1 ne assms(2) f
    by (simp add: reconcile_def seqp_def bindp_def [of "getSession name"] bindp_reads Let_def bindp_update
        st2_def [symmetric] bindp_Inr)
  with browser.refresh_active_effect [OF assms(1) p3] t3 i3 gin show ?thesis
    by force
qed

lemma reconcile_adopts_witness:
  "groupId (cur ''custom-session'' (snd (reconcile mock_chrome ''custom-session'' (start_state [])))) = Some 42"
proof -
  have q: "groups_query mock_chrome (world (start_state [])) = Some [\<lparr>grp_id = 42, grp_title = ''Renamed Group'', grp_color = []\<rparr>]"
    by code_simp
  have b: "belongs ''custom-session'' (loadOwnedGroups mock_chrome (world (start_state [])))
      \<lparr>grp_id = 42, grp_title = ''Renamed Group'', grp_color = []\<rparr>"
    by code_simp
  from reconcile_adopts [OF mocked.browser_axioms q _ b] b show ?thesis
    by simp
qed

end
