(* ===== verification/Tabs.thy ===== *)
theory Tabs
  imports SessionSystem
begin

text \<open>
  \<^verbatim>\<open>src/tools/tabs.js\<close>: the tab and session tools.  Arguments are typed as the tools document them (an
  absent string is empty).  While \<open>waitForComplete\<close> sleeps the browser moves on: the schedule \<open>ps\<close> lists
  its progress before each poll made before the 30 second deadline (at most 200, one every 150 ms).
  With domain limits configured a call runs under the mutation lock of TabLock.
\<close>

section \<open>The tools\<close>

fun waitForComplete :: "'w chrome \<Rightarrow> ('w \<Rightarrow> 'w) list \<Rightarrow> int \<Rightarrow> ('w, 'm, tab) sess_prog" where
  "waitForComplete C [] t = query_opt (\<lambda>w. tabs_get C w t)"
| "waitForComplete C (p # ps) t =
     seqp (modifies (\<lambda>st. st\<lparr>world := p (world st)\<rparr>))
       (bindp (query_opt (\<lambda>w. tabs_get C w t)) (\<lambda>tb.
          if tab_status tb = ''complete'' then ret tb else waitForComplete C ps t))"

definition hasDomainTabLimits :: "tab_limit option list \<Rightarrow> bool" where
  "hasDomainTabLimits limits \<longleftrightarrow> limits \<noteq> []"

record nav_args =
  nav_url :: string
  nav_newTab :: bool
  nav_group_title :: string

definition navigate :: "'w chrome \<Rightarrow> (string \<Rightarrow> string option) \<Rightarrow> ('w \<Rightarrow> 'w) list \<Rightarrow> nav_args \<Rightarrow> string
    \<Rightarrow> tab_limit option list \<Rightarrow> ('w, 'm, string \<times> int \<times> string) sess_prog" where
  "navigate C U ps args name limits =
     (if nav_url args = [] then throw NavigateNeedsUrl
      else bindp (acquireTabForNavigation C U name (nav_newTab args) limits (Some (nav_url args))) (\<lambda>t.
        seqp (call_bool (tabs_update_url C t (nav_url args)))
          (bindp (waitForComplete C ps t) (\<lambda>tb.
             seqp (if nav_group_title args \<noteq> [] then setGroupTitle C name (nav_group_title args) else ret ())
               (ret (tab_url tb, t, tab_title tb))))))"

definition url_host :: "(string \<Rightarrow> string option) \<Rightarrow> string \<Rightarrow> string" where
  "url_host U u = (case U u of None \<Rightarrow> [] | Some h \<Rightarrow> h)"

definition strip_scheme :: "string \<Rightarrow> string" where
  "strip_scheme u = (if take 7 u = ''http://'' then drop 7 u else if take 8 u = ''https://'' then drop 8 u else u)"

definition wantHost :: "(string \<Rightarrow> string option) \<Rightarrow> string \<Rightarrow> string" where
  "wantHost U u = (let h = url_host U u in if h \<noteq> [] then h else takeWhile (\<lambda>c. c \<noteq> CHR ''/'') (strip_scheme u))"

definition tab_matches :: "(string \<Rightarrow> string option) \<Rightarrow> string \<Rightarrow> tab \<Rightarrow> bool" where
  "tab_matches U url t \<longleftrightarrow>
     tab_url t \<noteq> []
     \<and> (let h = url_host U (tab_url t); w = wantHost U url
        in (w \<noteq> [] \<and> (h = w \<or> ends_with h (''.'' @ w))) \<or> str_has (tab_url t) url)"

definition choose_tab :: "bool \<Rightarrow> tab list \<Rightarrow> tab" where
  "choose_tab active matches =
     (if active then (case List.find tab_active matches of Some t \<Rightarrow> t | None \<Rightarrow> hd matches)
      else hd (sort_key tab_index matches))"

definition find_tab :: "'w chrome \<Rightarrow> (string \<Rightarrow> string option) \<Rightarrow> string \<Rightarrow> bool \<Rightarrow> string
    \<Rightarrow> tab_limit option list \<Rightarrow> ('w, 'm, string \<times> int) sess_prog" where
  "find_tab C U url active name limits =
     (if url = [] then throw FindTabNeedsUrl
      else bindp (query_opt (tabs_query C)) (\<lambda>all.
        (let matches = filter (tab_matches U url) all in
         if matches = [] then throw (NoTabFound url)
         else (let chosen = choose_tab active matches in
           seqp (ensureDomainTabLimits C U limits (Some (limit_url chosen)) (Some (tab_id chosen)))
             (seqp (bindTab name (tab_id chosen)) (ret (tab_url chosen, tab_id chosen)))))))"

record tab_info =
  ti_tabId :: int
  ti_url :: string
  ti_title :: string
  ti_active :: bool
  ti_groupTitle :: "string option"

definition tab_info_of :: "'w chrome \<Rightarrow> 'w \<Rightarrow> tab \<Rightarrow> tab_info" where
  "tab_info_of C w t =
     \<lparr>ti_tabId = tab_id t, ti_url = tab_url t, ti_title = tab_title t, ti_active = tab_active t,
      ti_groupTitle = (if tab_groupId t > - 1 then map_option grp_title (groups_get C w (tab_groupId t)) else None)\<rparr>"

definition list_tabs :: "'w chrome \<Rightarrow> string \<Rightarrow> ('w, 'm, tab_info list) sess_prog" where
  "list_tabs C name = seqp (reconcile C name)
     (reads (\<lambda>st. [tab_info_of C (world st) t. i \<leftarrow> tabIds (cur name st),
        t \<leftarrow> (case tabs_get C (world st) i of None \<Rightarrow> [] | Some t \<Rightarrow> [t])]))"

definition activate_tab :: "'w chrome \<Rightarrow> (string \<Rightarrow> string option) \<Rightarrow> int option \<Rightarrow> string
    \<Rightarrow> tab_limit option list \<Rightarrow> ('w, 'm, int) sess_prog" where
  "activate_tab C U tabId name limits =
     bindp (case tabId of Some t \<Rightarrow> ret t | None \<Rightarrow> getActiveTab name) (\<lambda>t.
     bindp (query_opt (\<lambda>w. tabs_get C w t)) (\<lambda>current.
       seqp (ensureDomainTabLimits C U limits (Some (limit_url current)) (Some t))
         (bindp (call_opt (tabs_activate C t)) (\<lambda>tb.
            seqp (catchp (call_bool (windows_focus C (tab_windowId tb))) (\<lambda>_. ret ()))
              (seqp (bindTab name t) (ret t))))))"

definition close_tab :: "'w chrome \<Rightarrow> string \<Rightarrow> ('w, 'm, bool) sess_prog" where
  "close_tab C name = closeActiveTab C name"

record session_info =
  si_session :: string
  si_groupId :: int
  si_color :: string
  si_tabCount :: nat
  si_orphaned :: bool

definition list_sessions :: "'w chrome \<Rightarrow> ('w, 'm, session_info list) sess_prog" where
  "list_sessions C = reads (\<lambda>st. case groups_query C (world st) of
      None \<Rightarrow> []
    | Some groups \<Rightarrow> map (\<lambda>g. \<lparr>si_session = grp_title g, si_groupId = grp_id g, si_color = grp_color g,
        si_tabCount = (case tabs_query_group C (world st) (grp_id g) of None \<Rightarrow> 0 | Some ts \<Rightarrow> length ts),
        si_orphaned = (Fin (of_int (grp_id g)) \<notin> set (trackedGroupIds C st))\<rparr>) groups)"

definition close_session :: "'w chrome \<Rightarrow> int option \<Rightarrow> string \<Rightarrow> ('w, 'm, nat) sess_prog" where
  "close_session C gid name = (case gid of Some g \<Rightarrow> closeGroup C g | None \<Rightarrow> closeSession C name)"

section \<open>Invariants\<close>

lemma keeps_sess_query: "keeps I (query_opt f)"
  by (rule keeps_query_opt)

lemma keeps_waitForComplete:
  "(\<And>s w. I s \<Longrightarrow> I (s\<lparr>world := w\<rparr>)) \<Longrightarrow> keeps I (waitForComplete C ps t)"
  by (induction ps) (auto intro!: hoare_rules)

lemma keeps_tools:
  "keeps sess_inv (navigate C U ps args name limits)" "keeps sess_inv (find_tab C U url a name limits)"
  "keeps sess_inv (activate_tab C U i name limits)" "keeps sess_inv (list_tabs C name)" "keeps sess_inv (close_tab C name)"
  unfolding navigate_def find_tab_def activate_tab_def list_tabs_def close_tab_def Let_def
  by (intro hoare_rules keeps_waitForComplete; simp)+

lemma keeps_tools_others:
  "keeps (others name m) (navigate C U ps args name limits)" "keeps (others name m) (find_tab C U url a name limits)"
  "keeps (others name m) (activate_tab C U i name limits)" "keeps (others name m) (list_tabs C name)"
  "keeps (others name m) (close_tab C name)"
  unfolding navigate_def find_tab_def activate_tab_def list_tabs_def close_tab_def Let_def
  by (intro hoare_rules keeps_waitForComplete; simp)+

section \<open>What the tools promise\<close>

lemma bindTab_holds: "holds_tab name t (snd (bindTab name t st))"
proof -
  obtain s1 where g: "getSession name st = (Inr (cur name s1), s1)" and p: "present name s1"
    by (cases "map_of (sessionMap st) (sessionKey name)") (auto simp: getSession_def present_def cur_def)
  have "bindTab name t st = update_session name (\<lambda>s. s\<lparr>tabIds := sadd t (tabIds s), activeTabId := Some t\<rparr>) s1"
    by (simp add: bindTab_def seqp_def bindp_def g)
  with p show ?thesis
    by (simp add: holds_tab_def present_def present_update_session cur_update_session del: not_None_eq)
qed

lemma bindTab_ok: "fst (bindTab name t st) = Inr ()"
proof -
  obtain x s1 where g: "getSession name st = (Inr x, s1)"
    by (cases "map_of (sessionMap st) (sessionKey name)") (auto simp: getSession_def)
  then show ?thesis
    by (simp add: bindTab_def seqp_def bindp_def update_session_def modifies_def)
qed

lemma bindTab_never: "bindTab name t st \<noteq> (Inl e, st')"
  using bindTab_ok [of name t st] by auto

lemma choose_tab_in: "matches \<noteq> [] \<Longrightarrow> choose_tab active matches \<in> set matches"
proof -
  assume ne: "matches \<noteq> []"
  then have "sort_key tab_index matches \<noteq> []"
    by (metis length_0_conv length_sort)
  then have "hd (sort_key tab_index matches) \<in> set matches"
    by (metis hd_in_set set_sort)
  with ne show ?thesis
    by (auto simp: choose_tab_def find_Some_iff split: option.splits)
qed

text \<open>
  \<^verbatim>\<open>find_tab\<close> fails with \<open>NoTabFound\<close>, changing nothing, exactly when no open tab matches; a tab it returns is open, matches the
  request, and is from then on the session's active, tracked tab.
\<close>

lemma find_tab_binds_a_match:
  assumes "tabs_query C (world st) = Some all" and "url \<noteq> []"
  shows "((\<forall>t \<in> set all. \<not> tab_matches U url t) \<longleftrightarrow> fst (find_tab C U url active name limits st) = Inl (NoTabFound url))
    \<and> (\<forall>u i st'. find_tab C U url active name limits st = (Inr (u, i), st') \<longrightarrow>
         (\<exists>t \<in> set all. tab_id t = i \<and> tab_url t = u \<and> tab_matches U url t) \<and> holds_tab name i st')"
proof -
  let ?m = "filter (tab_matches U url) all"
  let ?c = "choose_tab active ?m"
  have q: "query_opt (tabs_query C) st = (Inr all, st)"
    using assms(1) by (simp add: query_opt_def)
  have none: "find_tab C U url active name limits st = (Inl (NoTabFound url), st)" if "?m = []"
    using that assms(2) by (simp add: find_tab_def bindp_def q throw_def)
  have some: "find_tab C U url active name limits st =
      (case ensureDomainTabLimits C U limits (Some (limit_url ?c)) (Some (tab_id ?c)) st of
         (Inl e, s) \<Rightarrow> (Inl e, s)
       | (Inr _, s) \<Rightarrow> (Inr (tab_url ?c, tab_id ?c), snd (bindTab name (tab_id ?c) s)))" if "?m \<noteq> []"
    using that assms(2)
    by (auto simp: find_tab_def bindp_def q Let_def seqp_def ret_def bindTab_never split: prod.splits sum.splits)
  have e: "fst (ensureDomainTabLimits C U limits t x s) \<noteq> Inl (NoTabFound url)" for t x and s :: "('a, 'b) sess_state_scheme"
    by (auto simp: limits_result assertDomainTabLimits_def dest: check_rules_error)
  show ?thesis
  proof (cases "?m = []")
    case True
    with none show ?thesis by (auto simp: filter_empty_conv)
  next
    case False
    have c: "?c \<in> set ?m" by (rule choose_tab_in [OF False])
    then have ex: "\<not> (\<forall>t \<in> set all. \<not> tab_matches U url t)" by auto
    obtain l s where l: "ensureDomainTabLimits C U limits (Some (limit_url ?c)) (Some (tab_id ?c)) st = (l, s)"
      by fastforce
    show ?thesis
    proof (cases l)
      case (Inl err)
      have "err \<noteq> NoTabFound url"
        using e [of "Some (limit_url ?c)" "Some (tab_id ?c)" st] by (simp add: l Inl)
      then show ?thesis using ex some [OF False] by (simp add: l Inl)
    next
      case (Inr x)
      then have "find_tab C U url active name limits st = (Inr (tab_url ?c, tab_id ?c), snd (bindTab name (tab_id ?c) s))"
        using some [OF False] by (simp add: l)
      then show ?thesis
        using ex c bindTab_holds [of name "tab_id ?c" s] by auto
    qed
  qed
qed

lemma find_tab_binds_a_match_witness:
  "\<exists>u st'. find_tab mock_chrome test_host ''example.com'' False ''s'' [] (start_state []) = (Inr (u, 7), st') \<and> holds_tab ''s'' 7 st'"
proof -
  obtain all where q: "tabs_query mock_chrome (world (start_state [])) = Some all"
    by (simp add: mock_defs)
  have "fst (find_tab mock_chrome test_host ''example.com'' False ''s'' [] (start_state [])) = Inr (''https://example.com/a'', 7)"
    by code_simp
  from run_eq [OF this] find_tab_binds_a_match [OF q, of "''example.com''" test_host False "''s''" "[]"] show ?thesis
    by blast
qed

text \<open>
  The tabs listed for a session are its tracked tabs that are still open, each once and in the
  order they were tracked, after its live groups have been adopted.
\<close>

lemma concat_live:
  "map f [g i t. i \<leftarrow> xs, t \<leftarrow> (case h i of None \<Rightarrow> [] | Some t \<Rightarrow> [t])]
     = [f (g i t). i \<leftarrow> xs, t \<leftarrow> (case h i of None \<Rightarrow> [] | Some t \<Rightarrow> [t])]"
  by (induction xs) (auto split: option.splits)

lemma concat_ids:
  "(\<And>i t. h i = Some t \<Longrightarrow> f t = i) \<Longrightarrow>
   [f t. i \<leftarrow> xs, t \<leftarrow> (case h i of None \<Rightarrow> [] | Some t \<Rightarrow> [t])] = filter (\<lambda>i. h i \<noteq> None) xs"
  by (induction xs) (auto split: option.splits)

lemma list_tabs_lists_live_tabs:
  assumes "\<And>i t. tabs_get C (world (snd (reconcile C name st))) i = Some t \<Longrightarrow> tab_id t = i"
  shows "\<exists>infos. list_tabs C name st = (Inr infos, snd (reconcile C name st))
    \<and> map ti_tabId infos = filter (\<lambda>i. tabs_get C (world (snd (reconcile C name st))) i \<noteq> None)
        (tabIds (cur name (snd (reconcile C name st))))"
proof -
  let ?st1 = "snd (reconcile C name st)"
  have r: "list_tabs C name st = (Inr [tab_info_of C (world ?st1) t. i \<leftarrow> tabIds (cur name ?st1),
        t \<leftarrow> (case tabs_get C (world ?st1) i of None \<Rightarrow> [] | Some t \<Rightarrow> [t])], ?st1)"
    unfolding list_tabs_def seqp_def by (subst bindp_Inr [OF reconcile_eq]) (simp add: reads_def)
  show ?thesis
    unfolding r by (simp add: concat_live tab_info_of_def concat_ids [OF assms] del: not_None_eq)
qed

lemma list_tabs_lists_live_tabs_witness:
  "\<exists>infos. list_tabs mock_chrome ''custom-session'' (start_state []) = (Inr infos, snd (reconcile mock_chrome ''custom-session'' (start_state [])))
    \<and> map ti_tabId infos = [7]"
proof -
  let ?w = "world (snd (reconcile mock_chrome ''custom-session'' (start_state [])))"
  have m: "m_tabs ?w = m_tabs (initial_mock [])"
    by code_simp
  have "tab_id t = i" if "tabs_get mock_chrome ?w i = Some t" for i t
  proof -
    have "tabs_get mock_chrome w i = map_of (m_tabs w) i" for w
      by (simp add: mock_defs)
    with that m have "map_of (m_tabs (initial_mock [])) i = Some t" by metis
    then show ?thesis by (auto simp: initial_mock_def split: if_splits)
  qed
  moreover have "filter (\<lambda>i. tabs_get mock_chrome ?w i \<noteq> None) (tabIds (cur ''custom-session'' (snd (reconcile mock_chrome ''custom-session'' (start_state []))))) = [7]"
    by code_simp
  ultimately show ?thesis
    using list_tabs_lists_live_tabs [of mock_chrome "''custom-session''" "start_state []"] by metis
qed

text \<open>
  A group is reported orphaned exactly when neither the persisted table nor a session in memory knows its id
  (the table's keys are the ids printed in decimal and read back as numbers).
\<close>

lemma orphaned_groups_are_unknown:
  assumes "groups_query C (world st) = Some groups"
    and "set (keys (loadOwnedGroups C (world st))) \<subseteq> range show_int"
  shows "\<exists>infos. list_sessions C st = (Inr infos, st) \<and> map si_groupId infos = map grp_id groups
    \<and> (\<forall>s \<in> set infos. si_orphaned s \<longleftrightarrow> show_int (si_groupId s) \<notin> set (keys (loadOwnedGroups C (world st)))
          \<and> Some (si_groupId s) \<notin> (groupId \<circ> snd) ` set (sessionMap st))"
proof -
  have owned: "Fin (of_int g) \<in> string_to_number ` set (keys (loadOwnedGroups C (world st)))
      \<longleftrightarrow> show_int g \<in> set (keys (loadOwnedGroups C (world st)))" for g
  proof
    assume "Fin (of_int g) \<in> string_to_number ` set (keys (loadOwnedGroups C (world st)))"
    then obtain k where k: "k \<in> set (keys (loadOwnedGroups C (world st)))" "string_to_number k = Fin (of_int g)"
      by (metis imageE)
    then obtain j where "k = show_int j" using assms(2) by blast
    with k show "show_int g \<in> set (keys (loadOwnedGroups C (world st)))" by simp
  next
    assume "show_int g \<in> set (keys (loadOwnedGroups C (world st)))"
    then have "string_to_number (show_int g) \<in> string_to_number ` set (keys (loadOwnedGroups C (world st)))"
      by (rule imageI)
    then show "Fin (of_int g) \<in> string_to_number ` set (keys (loadOwnedGroups C (world st)))"
      by simp
  qed
  have mem: "Fin (of_int g) \<in> set [Fin (of_int g). s \<leftarrow> map snd (sessionMap st), g \<leftarrow> (case groupId s of None \<Rightarrow> [] | Some g \<Rightarrow> [g])]
      \<longleftrightarrow> Some g \<in> (groupId \<circ> snd) ` set (sessionMap st)" for g
    by (force split: option.splits)
  have t: "Fin (of_int g) \<in> set (trackedGroupIds C st) \<longleftrightarrow> show_int g \<in> set (keys (loadOwnedGroups C (world st)))
      \<or> Some g \<in> (groupId \<circ> snd) ` set (sessionMap st)" for g
    using owned [of g] mem [of g] by (simp only: trackedGroupIds_def set_sadds set_map Un_iff list.set empty_iff simp_thms)
  show ?thesis
    using assms(1) t by (simp add: list_sessions_def reads_def o_def)
qed

lemma orphaned_groups_are_unknown_witness:
  "\<exists>infos. list_sessions mock_chrome (start_state []) = (Inr infos, start_state [])
     \<and> (\<forall>s \<in> set infos. si_orphaned s \<longleftrightarrow> show_int (si_groupId s) \<notin> {''42''} \<and> Some (si_groupId s) \<notin> {})"
proof -
  have k: "keys (loadOwnedGroups mock_chrome (world (start_state []))) = [''42'']"
    by code_simp
  have "show_int 42 = ''42''"
    by code_simp
  then have "set (keys (loadOwnedGroups mock_chrome (world (start_state [])))) \<subseteq> range show_int"
    unfolding k by (metis list.set(1) list.set(2) insert_subset empty_subsetI rangeI)
  moreover obtain groups where "groups_query mock_chrome (world (start_state [])) = Some groups"
    by (simp add: mock_defs)
  moreover have "sessionMap (start_state []) = []"
    by (simp add: start_state_def)
  ultimately show ?thesis
    using orphaned_groups_are_unknown [of mock_chrome "start_state []" groups] by (simp only: k) auto
qed

end
