(* ===== verification/AnnModel.thy ===== *)
theory AnnModel
  imports Errors
begin

text \<open>
  \<^verbatim>\<open>src/annotations/model.js\<close>: the pure rules of the annotation store.  What a page submits is an
  untrusted JSON value; \<open>makeRecord\<close> turns it into an \<open>annotation\<close> whose every string is bounded.
  \<^verbatim>\<open>new URL(s)\<close> with its fragment cleared is the parameter \<open>K\<close> (\<open>None\<close> where the constructor throws),
  the time stamp is an argument.
\<close>

section \<open>Records\<close>

record ann_rect =
  rect_x :: rat
  rect_y :: rat
  rect_w :: rat
  rect_h :: rat

record ann_selectors =
  sel_css :: string
  sel_xpath :: string
  sel_testid :: string
  sel_aria :: string
  sel_text :: string

record ann_element =
  el_tag :: string
  el_role :: string
  el_name :: string
  el_text :: string
  el_selector :: string
  el_selector_kind :: string
  el_unique :: bool
  el_shadow :: bool
  el_selectors :: ann_selectors
  el_attrs :: "(string \<times> string) list"
  el_ancestors :: "string list"
  el_rect :: "ann_rect option"
  el_page :: "ann_rect option"

record ann_viewport =
  vp_w :: rat
  vp_h :: rat
  vp_dpr :: rat

record annotation =
  ann_id :: string
  ann_seq :: nat
  ann_created_at :: string
  ann_updated_at :: string
  ann_status :: jsval
  ann_comment :: string
  ann_note :: string
  ann_url :: string
  ann_url_key :: string
  ann_title :: string
  ann_tabId :: "jsnum option"
  ann_session :: "string option"
  ann_frame_url :: string
  ann_top_frame :: bool
  ann_element :: ann_element
  ann_viewport :: "ann_viewport option"
  ann_has_screenshot :: bool

text \<open>A query, its fields as they arrive: \<open>Undef\<close> where absent.\<close>

record ann_filter =
  f_status :: jsval
  f_ids :: jsval
  f_url :: jsval
  f_tabId :: jsval
  f_since :: jsval
  f_limit :: jsval

definition no_filter :: ann_filter where
  "no_filter = \<lparr>f_status = Undef, f_ids = Undef, f_url = Undef, f_tabId = Undef, f_since = Undef, f_limit = Undef\<rparr>"

definition MAX_ANNOTATIONS :: nat where "MAX_ANNOTATIONS = 500"
definition MAX_SHOTS :: nat where "MAX_SHOTS = 30"
definition MAX_WAIT_MS :: rat where "MAX_WAIT_MS = 240000"
definition MAX_COMMENT :: nat where "MAX_COMMENT = 4000"
definition MAX_NOTE :: nat where "MAX_NOTE = 4000"

section \<open>Sanitising\<close>

definition urlKey :: "(string \<Rightarrow> string option) \<Rightarrow> jsval \<Rightarrow> string" where
  "urlKey K url = (case K (to_string url) of Some s \<Rightarrow> s | None \<Rightarrow> to_string (js_or url (Str [])))"

definition clip :: "jsval \<Rightarrow> nat \<Rightarrow> string" where
  "clip v mx = (let s = (if nullish v then [] else to_string v) in if length s > mx then take mx s else s)"

definition sanitizeComment :: "jsval \<Rightarrow> string" where
  "sanitizeComment text = js_trim (clip text MAX_COMMENT)"

definition sanitizeNote :: "jsval \<Rightarrow> string" where
  "sanitizeNote text = js_trim (clip text MAX_NOTE)"

text \<open>\<^verbatim>\<open>Math.round(n * 100) / 100\<close>, rounding halves up.\<close>

definition num :: "jsval \<Rightarrow> rat" where
  "num v = (case to_number v of Fin q \<Rightarrow> of_int \<lfloor>q * 100 + 1 / 2\<rfloor> / 100 | _ \<Rightarrow> 0)"

definition rect :: "jsval \<Rightarrow> ann_rect option" where
  "rect r = (if \<not> is_object r then None
     else Some \<lparr>rect_x = num (getp ''x'' r), rect_y = num (getp ''y'' r),
                rect_w = num (getp ''w'' r), rect_h = num (getp ''h'' r)\<rparr>)"

definition object_or_empty :: "jsval \<Rightarrow> jsval" where
  "object_or_empty v = (if is_object v then v else Obj [])"

text \<open>
  The loop over the attributes.  Assigning a string to \<^verbatim>\<open>outAttrs["__proto__"]\<close> sets no property.
\<close>

fun sanitize_attrs :: "(string \<times> jsval) list \<Rightarrow> (string \<times> string) list \<Rightarrow> (string \<times> string) list" where
  "sanitize_attrs [] out = out"
| "sanitize_attrs ((k, v) # rest) out =
     (let key = js_trim (clip (Str k) 40); val = clip v 200
      in if key \<noteq> [] \<and> val \<noteq> [] \<and> key \<noteq> ''__proto__'' then sanitize_attrs rest (mput key val out)
         else sanitize_attrs rest out)"

definition sanitizeElement :: "jsval \<Rightarrow> ann_element" where
  "sanitizeElement el =
     (let e = object_or_empty el;
          selectors = object_or_empty (getp ''selectors'' e);
          attrs = object_or_empty (getp ''attrs'' e)
      in \<lparr>el_tag = js_lower (clip (getp ''tag'' e) 40),
          el_role = clip (getp ''role'' e) 40,
          el_name = clip (getp ''name'' e) 200,
          el_text = clip (getp ''text'' e) 400,
          el_selector = clip (getp ''selector'' e) 600,
          el_selector_kind = clip (getp ''selector_kind'' e) 20,
          el_unique = truthy (getp ''unique'' e),
          el_shadow = truthy (getp ''shadow'' e),
          el_selectors = \<lparr>sel_css = clip (getp ''css'' selectors) 600, sel_xpath = clip (getp ''xpath'' selectors) 600,
            sel_testid = clip (getp ''testid'' selectors) 200, sel_aria = clip (getp ''aria'' selectors) 200,
            sel_text = clip (getp ''text'' selectors) 200\<rparr>,
          el_attrs = sanitize_attrs (take 12 (own_props attrs)) [],
          el_ancestors = (case getp ''ancestors'' e of Arr as \<Rightarrow> map (\<lambda>a. clip a 120) (take 6 as) | _ \<Rightarrow> []),
          el_rect = rect (getp ''rect'' e),
          el_page = rect (getp ''page'' e)\<rparr>)"

definition makeRecord ::
  "(string \<Rightarrow> string option) \<Rightarrow> nat \<Rightarrow> jsval \<Rightarrow> jsval \<Rightarrow> jsval \<Rightarrow> string \<Rightarrow> annotation" where
  "makeRecord K seq input tabId session now =
     (let src = object_or_empty input; url = clip (getp ''url'' src) 2000;
          sub = (getp ''top_frame'' src = Bool False); vp = getp ''viewport'' src
      in \<lparr>ann_id = ''a'' @ show_nat seq, ann_seq = seq, ann_created_at = now, ann_updated_at = now,
          ann_status = Str ''open'', ann_comment = sanitizeComment (getp ''comment'' src), ann_note = [],
          ann_url = url, ann_url_key = urlKey K (Str url), ann_title = clip (getp ''title'' src) 300,
          ann_tabId = (if nullish tabId then None else Some (to_number tabId)),
          ann_session = (let s = clip session 120 in if s = [] then None else Some s),
          ann_frame_url = (if sub then clip (getp ''frame_url'' src) 2000 else []),
          ann_top_frame = (\<not> sub), ann_element = sanitizeElement (getp ''element'' src),
          ann_viewport = (if is_object vp
            then Some \<lparr>vp_w = num (getp ''w'' vp), vp_h = num (getp ''h'' vp), vp_dpr = num (getp ''dpr'' vp)\<rparr>
            else None),
          ann_has_screenshot = False\<rparr>)"

section \<open>Queries\<close>

definition filter_ids :: "ann_filter \<Rightarrow> string list option" where
  "filter_ids f = (case f_ids f of
      Arr vs \<Rightarrow> if vs = [] then None else Some (map (\<lambda>v. js_trim (to_string v)) vs) | _ \<Rightarrow> None)"

definition filter_since :: "ann_filter \<Rightarrow> jsnum option" where
  "filter_since f = (if nullish (f_since f) then None
     else let n = to_number (f_since f) in if is_finite n then Some n else None)"

definition item_tab :: "annotation \<Rightarrow> jsnum" where
  "item_tab it = (case ann_tabId it of None \<Rightarrow> Fin 0 | Some n \<Rightarrow> n)"

definition matches :: "ann_filter \<Rightarrow> annotation \<Rightarrow> bool" where
  "matches f it \<longleftrightarrow>
     (let status = js_or (f_status f) (Str ''open'');
          url = (if truthy (f_url f) then js_lower (to_string (f_url f)) else [])
      in (case filter_ids f of None \<Rightarrow> True | Some ids \<Rightarrow> ann_id it \<in> set ids)
       \<and> (status = Str ''all'' \<or> strict_eq (ann_status it) status)
       \<and> (url = [] \<or> str_has (js_lower (ann_url it)) url)
       \<and> (nullish (f_tabId f) \<or> num_eq (item_tab it) (to_number (f_tabId f)))
       \<and> (case filter_since f of None \<Rightarrow> True | Some n \<Rightarrow> num_gt (Fin (of_nat (ann_seq it))) n))"

definition newest :: "jsval \<Rightarrow> 'a list \<Rightarrow> 'a list" where
  "newest limit xs = (case to_number limit of
      Fin q \<Rightarrow> if q > 0 \<and> of_nat (length xs) > q then drop (nat \<lfloor>of_nat (length xs) - q\<rfloor>) xs else xs
    | _ \<Rightarrow> xs)"

definition filterAnnotations :: "annotation list \<Rightarrow> ann_filter \<Rightarrow> annotation list" where
  "filterAnnotations items f = newest (f_limit f) (sort_key ann_seq (filter (matches f) items))"

definition pruneItems :: "nat \<Rightarrow> annotation list \<Rightarrow> annotation list" where
  "pruneItems mx items =
     (let ls = sort_key ann_seq items in if length ls \<le> mx then ls else drop (length ls - mx) ls)"

definition shotIdsToKeep :: "annotation list \<Rightarrow> string list \<Rightarrow> nat \<Rightarrow> string list" where
  "shotIdsToKeep items shotIds mx =
     (let bySeq = foldl (\<lambda>m it. mput (ann_id it) (ann_seq it) m) [] items;
          live = filter (\<lambda>i. map_of bySeq i \<noteq> None) shotIds;
          sorted = sort_key (\<lambda>i. the (map_of bySeq i)) live
      in drop (length sorted - mx) sorted)"

record ann_stats =
  st_total :: nat
  st_open :: nat
  st_resolved :: nat
  st_with_screenshot :: nat
  st_pages :: "(string \<times> nat) list"

definition page_key :: "annotation \<Rightarrow> string" where
  "page_key it = (if ann_url_key it \<noteq> [] then ann_url_key it else ann_url it)"

definition stats :: "annotation list \<Rightarrow> ann_stats" where
  "stats items =
     \<lparr>st_total = length items,
      st_open = length (filter (\<lambda>it. ann_status it \<noteq> Str ''resolved'') items),
      st_resolved = length (filter (\<lambda>it. ann_status it = Str ''resolved'') items),
      st_with_screenshot = length (filter ann_has_screenshot items),
      st_pages = foldl (\<lambda>m it. mput (page_key it)
        ((case map_of m (page_key it) of None \<Rightarrow> 0 | Some n \<Rightarrow> n) + 1) m) [] items\<rparr>"

definition clampWait :: "jsval \<Rightarrow> rat" where
  "clampWait ms = (case to_number ms of Fin q \<Rightarrow> if q \<le> 0 then 0 else min (max q 250) MAX_WAIT_MS | _ \<Rightarrow> 0)"

section \<open>The wire form\<close>

abbreviation jnum :: "rat \<Rightarrow> jsval" where
  "jnum q \<equiv> Num (Fin q)"

definition wire_rect :: "ann_rect option \<Rightarrow> jsval" where
  "wire_rect r = (case r of None \<Rightarrow> Null | Some r \<Rightarrow>
     Obj [(''x'', jnum (rect_x r)), (''y'', jnum (rect_y r)), (''w'', jnum (rect_w r)), (''h'', jnum (rect_h r))])"

definition wire_viewport :: "ann_viewport option \<Rightarrow> jsval" where
  "wire_viewport v = (case v of None \<Rightarrow> Null | Some v \<Rightarrow>
     Obj [(''w'', jnum (vp_w v)), (''h'', jnum (vp_h v)), (''dpr'', jnum (vp_dpr v))])"

definition wire_selectors :: "ann_selectors \<Rightarrow> jsval" where
  "wire_selectors s = Obj [(''css'', Str (sel_css s)), (''xpath'', Str (sel_xpath s)), (''testid'', Str (sel_testid s)),
     (''aria'', Str (sel_aria s)), (''text'', Str (sel_text s))]"

definition wire_element :: "bool \<Rightarrow> ann_element \<Rightarrow> (string \<times> jsval) list" where
  "wire_element verbose el =
     [(''tag'', Str (el_tag el)), (''name'', Str (el_name el)), (''text'', Str (el_text el)),
      (''selector'', Str (el_selector el)), (''unique'', Bool (el_unique el))]
     @ (if el_role el \<noteq> [] then [(''role'', Str (el_role el))] else [])
     @ (if verbose then
         [(''selectors'', wire_selectors (el_selectors el)), (''selector_kind'', Str (el_selector_kind el)),
          (''attrs'', Obj (map (\<lambda>(k, v). (k, Str v)) (el_attrs el))), (''ancestors'', Arr (map Str (el_ancestors el))),
          (''shadow'', Bool (el_shadow el)), (''rect'', wire_rect (el_rect el)), (''page'', wire_rect (el_page el))]
        else [])"

definition toWire :: "annotation \<Rightarrow> bool \<Rightarrow> (string \<times> jsval) list" where
  "toWire it verbose =
     [(''id'', Str (ann_id it)), (''seq'', jnum (of_nat (ann_seq it))), (''status'', ann_status it),
      (''comment'', Str (ann_comment it)), (''created_at'', Str (ann_created_at it)), (''url'', Str (ann_url it)),
      (''title'', Str (ann_title it)), (''tabId'', (case ann_tabId it of None \<Rightarrow> Null | Some n \<Rightarrow> Num n)),
      (''element'', Obj (wire_element verbose (ann_element it))), (''has_screenshot'', Bool (ann_has_screenshot it))]
     @ (if ann_note it \<noteq> [] then [(''note'', Str (ann_note it))] else [])
     @ (if ann_status it = Str ''resolved'' then [(''updated_at'', Str (ann_updated_at it))] else [])
     @ (case ann_session it of None \<Rightarrow> [] | Some s \<Rightarrow> [(''session'', Str s)])
     @ (if \<not> ann_top_frame it \<and> ann_frame_url it \<noteq> [] then [(''frame_url'', Str (ann_frame_url it))] else [])
     @ (if verbose then [(''viewport'', wire_viewport (ann_viewport it)), (''url_key'', Str (ann_url_key it)),
          (''top_frame'', Bool (ann_top_frame it))] else [])"

section \<open>Bounds on what a page submits\<close>

lemma length_clip: "length (clip v mx) \<le> mx"
  by (simp add: clip_def Let_def)

lemma length_clip_trans: "mx \<le> n \<Longrightarrow> length (clip v mx) \<le> n"
  using length_clip [of v mx] by linarith

lemma length_trim_clip: "length (js_trim (clip v mx)) \<le> mx"
  using length_clip [of v mx] length_js_trim [of "clip v mx"] by linarith

lemma length_mput: "length (mput k v m) \<le> Suc (length m)"
  by (induction k v m rule: mput.induct) auto

lemma set_mput: "(k', v') \<in> set (mput k v m) \<Longrightarrow> (k' = k \<and> v' = v) \<or> (k', v') \<in> set m"
  by (induction k v m rule: mput.induct) (auto split: if_splits)

definition attrs_ok :: "(string \<times> string) list \<Rightarrow> bool" where
  "attrs_ok out \<longleftrightarrow> distinct (keys out) \<and>
     (\<forall>(k, v) \<in> set out. k \<noteq> [] \<and> length k \<le> 40 \<and> v \<noteq> [] \<and> length v \<le> 200)"

lemma attrs_ok_mput: "attrs_ok out \<Longrightarrow> k \<noteq> [] \<Longrightarrow> length k \<le> 40 \<Longrightarrow> v \<noteq> [] \<Longrightarrow> length v \<le> 200
    \<Longrightarrow> attrs_ok (mput k v out)"
  by (auto simp: attrs_ok_def dest!: set_mput)

lemma sanitize_attrs_ok:
  "attrs_ok out \<Longrightarrow> attrs_ok (sanitize_attrs kvs out) \<and> length (sanitize_attrs kvs out) \<le> length kvs + length out"
proof (induction kvs out rule: sanitize_attrs.induct)
  case (2 k v rest out)
  let ?key = "js_trim (clip (Str k) 40)" and ?val = "clip v 200"
  show ?case
  proof (cases "?key \<noteq> [] \<and> ?val \<noteq> [] \<and> ?key \<noteq> ''__proto__''")
    case True
    then have "attrs_ok (mput ?key ?val out)"
      by (intro attrs_ok_mput "2.prems") (auto intro: length_clip length_trim_clip)
    from "2.IH"(1) [OF refl refl True this] True length_mput [of ?key ?val out] show ?thesis
      by (simp add: Let_def)
  next
    case False
    from "2.IH"(2) [OF refl refl False "2.prems"] False show ?thesis
      by (auto simp: Let_def)
  qed
qed simp

definition element_bounded :: "ann_element \<Rightarrow> bool" where
  "element_bounded e \<longleftrightarrow> length (el_tag e) \<le> 40 \<and> length (el_role e) \<le> 40 \<and> length (el_name e) \<le> 200
     \<and> length (el_text e) \<le> 400 \<and> length (el_selector e) \<le> 600 \<and> length (el_selector_kind e) \<le> 20
     \<and> length (sel_css (el_selectors e)) \<le> 600 \<and> length (sel_xpath (el_selectors e)) \<le> 600
     \<and> length (sel_testid (el_selectors e)) \<le> 200 \<and> length (sel_aria (el_selectors e)) \<le> 200
     \<and> length (sel_text (el_selectors e)) \<le> 200
     \<and> attrs_ok (el_attrs e) \<and> length (el_attrs e) \<le> 12
     \<and> length (el_ancestors e) \<le> 6 \<and> (\<forall>a \<in> set (el_ancestors e). length a \<le> 120)"

lemma sanitizeElement_bounded: "element_bounded (sanitizeElement el)"
proof -
  let ?kvs = "take 12 (own_props (object_or_empty (getp ''attrs'' (object_or_empty el))))"
  have a: "attrs_ok (sanitize_attrs ?kvs []) \<and> length (sanitize_attrs ?kvs []) \<le> 12"
    using sanitize_attrs_ok [of "[]" ?kvs] by (auto simp: attrs_ok_def)
  show ?thesis
    using a by (auto simp: element_bounded_def sanitizeElement_def Let_def length_clip split: jsval.splits)
qed


section \<open>What a query returns\<close>

lemma newest_keep_last:
  "\<exists>n. newest limit xs = keep_last n xs \<and> (n \<ge> length xs \<or> n > 0)"
proof (cases "to_number limit")
  case (Fin q)
  show ?thesis
  proof (cases "q > 0 \<and> of_nat (length xs) > q")
    case True
    define k where "k = nat \<lfloor>of_nat (length xs) - q\<rfloor>"
    have "(of_nat k :: rat) \<le> of_nat (length xs) - q"
      using True by (simp add: k_def)
    with True have "(of_nat k :: rat) < of_nat (length xs)" by linarith
    then have k: "k < length xs" by simp
    have "newest limit xs = drop k xs"
      using Fin True by (simp add: newest_def k_def)
    then have "newest limit xs = keep_last (length xs - k) xs"
      using k by (simp add: keep_last_def)
    with k show ?thesis by (intro exI [of _ "length xs - k"]) simp
  next
    case False
    then show ?thesis using Fin
      by (intro exI [of _ "length xs"]) (auto simp: newest_def keep_last_def)
  qed
qed (auto intro!: exI [of _ "length xs"] simp: newest_def keep_last_def)

lemma newest_nat:
  assumes "to_number limit = Fin (of_nat n)" "n > 0"
  shows "newest limit xs = keep_last n xs"
proof -
  have "\<lfloor>of_nat (length xs) - (of_nat n :: rat)\<rfloor> = int (length xs) - int n"
    by (metis floor_of_int of_int_diff of_int_of_nat_eq)
  then show ?thesis
    using assms by (auto simp: newest_def keep_last_def nat_diff_distrib)
qed

lemma newest_unlimited: "\<not> is_finite (to_number limit) \<Longrightarrow> newest limit xs = xs"
  by (auto simp: newest_def is_finite_def split: jsnum.splits)

lemma set_newest: "set (newest limit xs) \<subseteq> set xs"
  using newest_keep_last [of limit xs] set_keep_last by metis

lemma filterAnnotations_subset: "set (filterAnnotations items f) \<subseteq> {it \<in> set items. matches f it}"
  using set_newest by (fastforce simp: filterAnnotations_def)

lemma sorted_filterAnnotations: "sorted_wrt (\<lambda>a b. ann_seq a \<le> ann_seq b) (filterAnnotations items f)"
proof -
  have "sorted_wrt (\<lambda>a b. ann_seq a \<le> ann_seq b) (sort_key ann_seq (filter (matches f) items))"
    using sorted_sort_key [of ann_seq "filter (matches f) items"] by (simp add: sorted_map)
  then show ?thesis
    using newest_keep_last [of "f_limit f" "sort_key ann_seq (filter (matches f) items)"] sorted_wrt_keep_last
    unfolding filterAnnotations_def by metis
qed

lemma sorted_sort_seq: "sorted_wrt (\<lambda>a b. ann_seq a \<le> ann_seq b) (sort_key ann_seq xs)"
  using sorted_sort_key [of ann_seq xs] by (simp add: sorted_map)

text \<open>
  A query returns matching records only, in creation order, and loses none but for its limit: with
  no numeric limit all matching records are there, and the records a limit drops are, in order, the ones
  before those returned.
\<close>

lemma query_returns_newest_matches:
  shows "set (filterAnnotations items f) \<subseteq> {it \<in> set items. matches f it}
    \<and> (is_finite (to_number (f_limit f)) \<or> mset (filterAnnotations items f) = mset (filter (matches f) items))
    \<and> (\<exists>dropped. mset (dropped @ filterAnnotations items f) = mset (filter (matches f) items)
          \<and> sorted_wrt (\<lambda>a b. ann_seq a \<le> ann_seq b) (dropped @ filterAnnotations items f))"
proof -
  let ?s = "sort_key ann_seq (filter (matches f) items)"
  obtain n where n: "filterAnnotations items f = keep_last n ?s"
    using newest_keep_last [of "f_limit f" ?s] by (auto simp: filterAnnotations_def)
  have "take (length ?s - n) ?s @ filterAnnotations items f = ?s"
    unfolding n by (rule keep_last_split)
  then have "mset (take (length ?s - n) ?s @ filterAnnotations items f) = mset (filter (matches f) items)"
    "sorted_wrt (\<lambda>a b. ann_seq a \<le> ann_seq b) (take (length ?s - n) ?s @ filterAnnotations items f)"
    by (simp_all only: sorted_sort_seq mset_sort)
  moreover have "is_finite (to_number (f_limit f)) \<or> mset (filterAnnotations items f) = mset (filter (matches f) items)"
    by (cases "is_finite (to_number (f_limit f))") (simp_all add: filterAnnotations_def newest_unlimited)
  ultimately show ?thesis
    using filterAnnotations_subset by blast
qed

section \<open>Pruning\<close>

lemma pruneItems_keep_last: "pruneItems mx items = keep_last mx (sort_key ann_seq items)"
  by (simp add: pruneItems_def keep_last_def Let_def)

lemma length_pruneItems: "length (pruneItems mx items) \<le> mx"
  by (simp add: pruneItems_keep_last)

lemma set_pruneItems: "set (pruneItems mx items) \<subseteq> set items"
  using set_keep_last [of mx "sort_key ann_seq items"] by (simp add: pruneItems_keep_last)

lemma pruneItems_sorted_id: "sorted_wrt (\<lambda>a b. ann_seq a < ann_seq b) items \<Longrightarrow> pruneItems mx items = keep_last mx items"
proof -
  assume "sorted_wrt (\<lambda>a b. ann_seq a < ann_seq b) items"
  then have "sorted (map ann_seq items)"
    by (simp add: sorted_map sorted_wrt_mono_rel [where P = "\<lambda>a b. ann_seq a < ann_seq b"])
  then show ?thesis by (simp add: pruneItems_keep_last sort_key_id_if_sorted)
qed

section \<open>Screenshots to keep\<close>

lemma map_of_bySeq:
  "map_of (foldl (\<lambda>m it. mput (ann_id it) (ann_seq it) m) m items) i \<noteq> None
    \<longleftrightarrow> i \<in> ann_id ` set items \<or> map_of m i \<noteq> None"
  by (induction items arbitrary: m) auto

lemma map_of_bySeq_distinct:
  "distinct (map ann_id items) \<Longrightarrow> it \<in> set items
    \<Longrightarrow> map_of (foldl (\<lambda>m it. mput (ann_id it) (ann_seq it) m) m items) (ann_id it) = Some (ann_seq it)"
proof (induction items arbitrary: m)
  case (Cons x xs)
  have other: "map_of (foldl (\<lambda>m it. mput (ann_id it) (ann_seq it) m) m xs) i = map_of m i"
    if "i \<notin> ann_id ` set xs" for i m
    using that by (induction xs arbitrary: m) auto
  show ?case
    using Cons by (cases "it = x") (auto simp: other)
qed simp

lemma length_shotIdsToKeep: "length (shotIdsToKeep items ids mx) \<le> mx"
  by (simp add: shotIdsToKeep_def Let_def)

lemma set_shotIdsToKeep: "set (shotIdsToKeep items ids mx) \<subseteq> set ids \<inter> ann_id ` set items"
  using map_of_bySeq [of "[]" items]
  by (auto simp: shotIdsToKeep_def Let_def dest!: in_set_dropD)

lemma shotIdsToKeep_all:
  assumes "length ids \<le> mx"
  shows "set (shotIdsToKeep items ids mx) = set ids \<inter> ann_id ` set items"
proof -
  have "length (filter P ids) \<le> mx" for P
    using assms length_filter_le [of P ids] by linarith
  then show ?thesis
    using map_of_bySeq [of "[]" items] by (auto simp: shotIdsToKeep_def Let_def)
qed

text \<open>
  The screenshots kept are at most the cap, all of annotations that still exist, and the newest: an
  image dropped for the cap belongs to an annotation no newer than any whose image is kept.
\<close>

lemma newest_shots_kept:
  assumes "distinct (map ann_id items)"
  shows "length (shotIdsToKeep items ids mx) \<le> mx
    \<and> set (shotIdsToKeep items ids mx) \<subseteq> set ids \<inter> ann_id ` set items
    \<and> (\<forall>a \<in> set items. \<forall>b \<in> set items.
         ann_id a \<in> set ids - set (shotIdsToKeep items ids mx) \<longrightarrow> ann_id b \<in> set (shotIdsToKeep items ids mx)
         \<longrightarrow> ann_seq a \<le> ann_seq b)"
proof -
  define m where "m = foldl (\<lambda>m it. mput (ann_id it) (ann_seq it) m) [] items"
  define s where "s = sort_key (\<lambda>i. the (map_of m i)) (filter (\<lambda>i. map_of m i \<noteq> None) ids)"
  have k: "shotIdsToKeep items ids mx = keep_last mx s"
    by (simp add: shotIdsToKeep_def Let_def m_def s_def keep_last_def)
  have m: "map_of m (ann_id it) = Some (ann_seq it)" if "it \<in> set items" for it
    unfolding m_def by (rule map_of_bySeq_distinct [OF assms that])
  have sorted: "sorted_wrt (\<lambda>i j. the (map_of m i) \<le> the (map_of m j)) s"
    using sorted_sort_key [of "\<lambda>i. the (map_of m i)"] by (simp add: s_def sorted_map)
  have "ann_seq a \<le> ann_seq b"
    if "a \<in> set items" "b \<in> set items" "ann_id a \<in> set ids" "ann_id a \<notin> set (keep_last mx s)"
      "ann_id b \<in> set (keep_last mx s)" for a b
  proof -
    have "ann_id a \<in> set s" using that m by (simp add: s_def)
    then have "ann_id a \<in> set (take (length s - mx) s)"
      using that(4) by (metis Un_iff keep_last_split set_append)
    from sorted_wrt_dropped_kept [OF sorted this that(5)] show ?thesis
      using m that by simp
  qed
  then show ?thesis
    using length_shotIdsToKeep [of items ids mx] set_shotIdsToKeep [of items ids mx] unfolding k by auto
qed

definition sample_record :: "nat \<Rightarrow> annotation" where
  "sample_record n = makeRecord (\<lambda>_. None) n (Obj [(''comment'', Str ''c''), (''url'', Str ''https://a.b/'')]) (num_of_int 7) (Str ''s'') ''t''"

lemma newest_shots_kept_witness:
  "length (shotIdsToKeep [sample_record 1, sample_record 2] [''a1'', ''a2'', ''a9''] 1) \<le> 1"
proof -
  have "distinct (map ann_id [sample_record 1, sample_record 2])"
    by code_simp
  from newest_shots_kept [OF this, where mx = 1 and ids = "[''a1'', ''a2'', ''a9'']"] show ?thesis
    by (elim conjE)
qed

section \<open>Counts\<close>

lemma page_counts:
  "map_of (foldl (\<lambda>m it. mput (page_key it) ((case map_of m (page_key it) of None \<Rightarrow> 0 | Some n \<Rightarrow> n) + 1) m) m items) u
     = (let c = length (filter (\<lambda>it. page_key it = u) items)
        in if c = 0 then map_of m u else Some ((case map_of m u of None \<Rightarrow> 0 | Some n \<Rightarrow> n) + c))"
proof (induction items arbitrary: m)
  case (Cons x xs)
  show ?case
    unfolding foldl_Cons Cons.IH by (auto simp: Let_def split: option.splits)
qed simp

text \<open>
  The summary adds up: open and resolved partition the records, and each page's count is the number
  of records on that page, with no page missing and none listed empty.
\<close>

lemma stats_add_up:
  "st_open (stats items) + st_resolved (stats items) = st_total (stats items)
   \<and> map_of (st_pages (stats items)) u =
       (let c = length (filter (\<lambda>it. page_key it = u) items) in if c = 0 then None else Some c)"
proof (rule conjI)
  show "st_open (stats items) + st_resolved (stats items) = st_total (stats items)"
    unfolding stats_def ann_stats.simps
    by (induction items) (simp_all only: filter.simps list.size if_split simp_thms, auto)
  show "map_of (st_pages (stats items)) u =
       (let c = length (filter (\<lambda>it. page_key it = u) items) in if c = 0 then None else Some c)"
    unfolding stats_def ann_stats.simps page_counts Let_def by (simp only: map_of.simps option.case add_0)
qed

text \<open>The wait requested is none or between a quarter of a second and four minutes.\<close>

lemma clampWait_bounds: "clampWait ms = 0 \<or> (250 \<le> clampWait ms \<and> clampWait ms \<le> MAX_WAIT_MS)"
  by (auto simp: clampWait_def MAX_WAIT_MS_def split: jsnum.splits)

text \<open>
  The compact wire form is the verbose one with entries left out: whatever the compact form says of a
  field other than \<^verbatim>\<open>element\<close>, and of the element's fields, the verbose form says too.
\<close>

lemma compact_wire_is_part_of_verbose:
  "prefix (wire_element False (ann_element it)) (wire_element True (ann_element it))
   \<and> filter (\<lambda>p. fst p \<noteq> ''element'') (toWire it True) = filter (\<lambda>p. fst p \<noteq> ''element'') (toWire it False)
       @ [(''viewport'', wire_viewport (ann_viewport it)), (''url_key'', Str (ann_url_key it)), (''top_frame'', Bool (ann_top_frame it))]
   \<and> map_of (toWire it v) ''element'' = Some (Obj (wire_element v (ann_element it)))"
proof (intro conjI)
  show "prefix (wire_element False (ann_element it)) (wire_element True (ann_element it))"
    by (simp add: wire_element_def)
  show "filter (\<lambda>p. fst p \<noteq> ''element'') (toWire it True) = filter (\<lambda>p. fst p \<noteq> ''element'') (toWire it False)
       @ [(''viewport'', wire_viewport (ann_viewport it)), (''url_key'', Str (ann_url_key it)), (''top_frame'', Bool (ann_top_frame it))]"
    by (simp add: toWire_def)
  show "map_of (toWire it v) ''element'' = Some (Obj (wire_element v (ann_element it)))"
    by (simp add: toWire_def)
qed

end
