(* ===== verification/Dialogs.thy ===== *)
theory Dialogs
  imports Sessions
begin

text \<open>
  \<^verbatim>\<open>src/tools/dialogs.js\<close>: native JavaScript dialogs are answered at once, by the tab's policy, and the
  last ones are remembered.  \<open>dlgPolicy\<close> and \<open>dlgRecent\<close> are the module variables \<^verbatim>\<open>policy\<close> and \<^verbatim>\<open>recent\<close>.
\<close>

section \<open>State and operations\<close>

record dlg_entry =
  de_type :: jsval
  de_message :: jsval
  de_url :: jsval
  de_defaultPrompt :: jsval

datatype dlg_action = Accept | Dismiss

record dlg_policy =
  dp_action :: dlg_action
  dp_promptText :: jsval

record 'w dlg_state = "'w sess_state" +
  dlgPolicy :: "(int \<times> dlg_policy) list"
  dlgRecent :: "(int \<times> dlg_entry list) list"

type_synonym ('w, 'm, 'a) dlg_prog = "(('w, 'm) dlg_state_scheme, 'a) jsprog"

definition recent_of :: "int \<Rightarrow> ('w, 'm) dlg_state_scheme \<Rightarrow> dlg_entry list" where
  "recent_of t st = (case map_of (dlgRecent st) t of None \<Rightarrow> [] | Some r \<Rightarrow> r)"

definition push_recent :: "'a \<Rightarrow> 'a list \<Rightarrow> 'a list" where
  "push_recent e r = (let r1 = r @ [e] in if length r1 > 20 then tl r1 else r1)"

definition policy_of :: "int \<Rightarrow> ('w, 'm) dlg_state_scheme \<Rightarrow> dlg_policy" where
  "policy_of t st = (case map_of (dlgPolicy st) t of None \<Rightarrow> \<lparr>dp_action = Dismiss, dp_promptText = Undef\<rparr> | Some p \<Rightarrow> p)"

definition dialog_answer :: "dlg_policy \<Rightarrow> jsval" where
  "dialog_answer p = Obj [(''accept'', Bool (dp_action p = Accept)), (''promptText'', dp_promptText p)]"

definition on_dialog :: "'w chrome \<Rightarrow> int option \<Rightarrow> dlg_entry \<Rightarrow> ('w, 'm, unit) dlg_prog" where
  "on_dialog C src e = (case src of
      None \<Rightarrow> ret ()
    | Some t \<Rightarrow>
        seqp (modifies (\<lambda>st. st\<lparr>dlgRecent := mput t (push_recent e (recent_of t st)) (dlgRecent st)\<rparr>))
          (bindp (reads (policy_of t)) (\<lambda>pol.
             catchp (seqp (cdp_send C (TabT t) ''Page.handleJavaScriptDialog'' (dialog_answer pol)) (ret ()))
               (\<lambda>_. ret ()))))"

definition entry_value :: "dlg_entry \<Rightarrow> jsval" where
  "entry_value e = Obj [(''type'', de_type e), (''message'', de_message e), (''url'', de_url e),
     (''defaultPrompt'', de_defaultPrompt e)]"

definition wanted_policy :: "jsval \<Rightarrow> dlg_policy" where
  "wanted_policy args = \<lparr>dp_action = (if getp ''action'' args = Str ''accept'' then Accept else Dismiss),
     dp_promptText = getp ''promptText'' args\<rparr>"

definition action_name :: "dlg_action \<Rightarrow> string" where
  "action_name a = (case a of Accept \<Rightarrow> ''accept'' | Dismiss \<Rightarrow> ''dismiss'')"

definition dialog :: "'w chrome \<Rightarrow> jsval \<Rightarrow> string \<Rightarrow> ('w, 'm, jsval) dlg_prog" where
  "dialog C args session = bindp (getActiveTab session) (\<lambda>t.
     if getp ''cmd'' args = Str ''list''
     then bindp (reads (recent_of t)) (\<lambda>r. ret (Obj [(''dialogs'', Arr (map entry_value r))]))
     else seqp (ensureDomain C (TabT t) ''Page'')
       (let p = wanted_policy args
        in seqp (modifies (\<lambda>st. st\<lparr>dlgPolicy := mput t p (dlgPolicy st)\<rparr>))
             (ret (Obj [(''success'', Bool True), (''policy'', Obj [(''action'', Str (action_name (dp_action p))),
                (''promptText'', or_null (dp_promptText p))])]))))"

section \<open>What the tables hold\<close>

interpretation dlglog: bounded_log "\<lambda>xs. xs" push_recent 20
proof unfold_locales
  fix s :: "'a list" and x
  assume "length s \<le> 20"
  then show "push_recent x s = keep_last 20 (s @ [x])"
    by (cases "length s = 20"; cases s) (simp_all add: push_recent_def keep_last_def)
qed


definition tables_are :: "(int \<Rightarrow> dlg_policy) \<Rightarrow> (int \<Rightarrow> dlg_entry list) \<Rightarrow> ('w, 'm) dlg_state_scheme \<Rightarrow> bool" where
  "tables_are p r st \<longleftrightarrow> (\<forall>t. policy_of t st = p t \<and> recent_of t st = r t)"

lemma tables_stable: "cdp_stable (tables_are p r)"
  by (simp add: cdp_stable_def tables_are_def policy_of_def recent_of_def)

lemma tables_of_run:
  assumes "keeps (tables_are (\<lambda>t. policy_of t st) (\<lambda>t. recent_of t st)) m"
  shows "policy_of t (snd (m st)) = policy_of t st" "recent_of t (snd (m st)) = recent_of t st"
  using keepsD [OF assms, of st] by (simp_all add: tables_are_def)


lemma keeps_getActiveTab_tables: "keeps (tables_are p r) (getActiveTab s)"
  by (auto intro!: keepsI simp: getActiveTab_def getSession_def prog_defs tables_are_def policy_of_def recent_of_def
      split: option.splits)

text \<open>The tab a call configures, with the policy it sets, when it succeeds.\<close>

definition configured :: "jsval \<Rightarrow> string \<Rightarrow> ('w, 'm) dlg_state_scheme \<Rightarrow> js_error + jsval \<Rightarrow> (int \<times> dlg_policy) list" where
  "configured args s st r =
     (if getp ''cmd'' args = Str ''list'' then []
      else case (fst (getActiveTab s st), r) of (Inr t, Inr _) \<Rightarrow> [(t, wanted_policy args)] | _ \<Rightarrow> [])"

text \<open>
  A run of the module: dialogs open on tabs and the tool is called, in any order; \<open>cs\<close> are the successful
  configurations so far and \<open>os\<close> the dialogs that opened.
\<close>

inductive dlg_run :: "'w chrome \<Rightarrow> (int \<times> dlg_policy) list \<Rightarrow> (int \<times> dlg_entry) list \<Rightarrow> 'w dlg_state \<Rightarrow> bool" for C where
  dlg_start: "dlgPolicy st = [] \<Longrightarrow> dlgRecent st = [] \<Longrightarrow> dlg_run C [] [] st"
| dlg_opening: "dlg_run C cs os st \<Longrightarrow> dlg_run C cs (os @ [(t, e)]) (snd (on_dialog C (Some t) e st))"
| dlg_call: "dlg_run C cs os st \<Longrightarrow> dialog C args s st = (r, st') \<Longrightarrow> dlg_run C (cs @ configured args s st r) os st'"

definition last_config :: "(int \<times> dlg_policy) list \<Rightarrow> int \<Rightarrow> dlg_policy" where
  "last_config cs t = (case last_opt (filter (\<lambda>(i, _). i = t) cs) of
      None \<Rightarrow> \<lparr>dp_action = Dismiss, dp_promptText = Undef\<rparr> | Some (_, p) \<Rightarrow> p)"

lemma last_config_snoc: "last_config (cs @ [(i, p)]) t = (if i = t then p else last_config cs t)"
  by (auto simp: last_config_def last_opt_def)

lemma on_dialog_tables:
  "policy_of t' (snd (on_dialog C (Some t) e st)) = policy_of t' st"
  "recent_of t' (snd (on_dialog C (Some t) e st)) = (if t' = t then push_recent e (recent_of t st) else recent_of t' st)"
proof -
  let ?st = "st\<lparr>dlgRecent := mput t (push_recent e (recent_of t st)) (dlgRecent st)\<rparr>"
  let ?m = "catchp (seqp (cdp_send C (TabT t) ''Page.handleJavaScriptDialog'' (dialog_answer (policy_of t ?st))) (ret ())) (\<lambda>_. ret ())"
  have run: "on_dialog C (Some t) e st = ?m ?st"
    by (simp add: on_dialog_def seqp_def bindp_modifies bindp_reads)
  have "keeps (tables_are (\<lambda>t. policy_of t ?st) (\<lambda>t. recent_of t ?st)) ?m"
    by (intro hoare_rules keeps_cdp [OF tables_stable])
  note k = tables_of_run [OF this]
  show "policy_of t' (snd (on_dialog C (Some t) e st)) = policy_of t' st"
    "recent_of t' (snd (on_dialog C (Some t) e st)) = (if t' = t then push_recent e (recent_of t st) else recent_of t' st)"
    unfolding run k by (simp_all add: policy_of_def recent_of_def)
qed

lemma dialog_tables:
  assumes "dialog C args s st = (r, st')"
  shows "recent_of t' st' = recent_of t' st"
    and "policy_of t' st' = (case configured args s st r of [] \<Rightarrow> policy_of t' st | (i, p) # _ \<Rightarrow> if i = t' then p else policy_of t' st)"
proof -
  obtain a st1 where g: "getActiveTab s st = (a, st1)" by (cases "getActiveTab s st")
  have e: "policy_of u st1 = policy_of u st" "recent_of u st1 = recent_of u st" for u
    using tables_of_run [OF keeps_getActiveTab_tables [of _ _ s], of u st] g by simp_all
  have both: "recent_of t' st' = recent_of t' st
    \<and> policy_of t' st' = (case configured args s st r of [] \<Rightarrow> policy_of t' st | (i, p) # _ \<Rightarrow> if i = t' then p else policy_of t' st)"
  proof (cases a)
    case (Inl x)
    with g assms have "r = Inl x" "st' = st1" by (simp_all add: dialog_def bindp_Inl)
    then show ?thesis using g Inl e by (simp add: configured_def)
  next
    case (Inr t)
    show ?thesis
    proof (cases "getp ''cmd'' args = Str ''list''")
      case True
      with g assms Inr have "st' = st1" by (simp add: dialog_def bindp_Inr bindp_reads ret_def)
      then show ?thesis using True e by (simp add: configured_def)
    next
      case False
      obtain b st2 where d: "ensureDomain C (TabT t) ''Page'' st1 = (b, st2)" by (cases "ensureDomain C (TabT t) ''Page'' st1")
      have e2: "policy_of u st2 = policy_of u st" "recent_of u st2 = recent_of u st" for u
        using tables_of_run [OF keeps_cdp(4) [OF tables_stable, of _ _ C "TabT t" "''Page''"], of u st1] d e by simp_all
      show ?thesis
      proof (cases b)
        case (Inl x)
        with False g assms Inr d have "r = Inl x" "st' = st2"
          by (simp_all add: dialog_def bindp_Inr seqp_def bindp_Inl)
        then show ?thesis using e2 g Inr by (simp add: configured_def)
      next
        case (Inr y)
        with False g assms \<open>a = Inr t\<close> d have "\<exists>v. r = Inr v" "st' = st2\<lparr>dlgPolicy := mput t (wanted_policy args) (dlgPolicy st2)\<rparr>"
          by (auto simp: dialog_def bindp_Inr seqp_def bindp_modifies Let_def ret_def)
        then show ?thesis using e2 g \<open>a = Inr t\<close> False by (auto simp: configured_def policy_of_def recent_of_def)
      qed
    qed
  qed
  then show "recent_of t' st' = recent_of t' st"
    and "policy_of t' st' = (case configured args s st r of [] \<Rightarrow> policy_of t' st | (i, p) # _ \<Rightarrow> if i = t' then p else policy_of t' st)"
    by blast+
qed

lemma configured_cases: "configured args s st r = [] \<or> (\<exists>i p. configured args s st r = [(i, p)])"
  by (auto simp: configured_def split: sum.splits)

text \<open>
  C15: After any run of dialogs and calls, each tab's dialogs are answered by its last successful
  configuration, and dismissed when there is none; and the tab remembers exactly its 20 newest dialogs.
  The event handler never fails, whatever the debugger answers.
\<close>

theorem dialogs_follow_last_configuration:
  assumes "dlg_run C cs os st"
  shows "policy_of t st = last_config cs t
    \<and> recent_of t st = keep_last 20 (map snd (filter (\<lambda>(i, _). i = t) os))
    \<and> fst (on_dialog C src e st) = Inr ()"
proof -
  from assms have "policy_of t st = last_config cs t
    \<and> recent_of t st = fold push_recent (map snd (filter (\<lambda>(i, _). i = t) os)) []" for t
  proof (induction arbitrary: t)
    case (dlg_start st)
    then show ?case by (simp add: policy_of_def recent_of_def last_config_def last_opt_def)
  next
    case (dlg_opening cs os st t' e)
    then show ?case by (auto simp: on_dialog_tables)
  next
    case (dlg_call cs os st args s r st')
    with dialog_tables [OF dlg_call(2)] configured_cases [of args s st r] show ?case
      by (elim disjE exE) (simp_all add: last_config_snoc)
  qed
  then have "policy_of t st = last_config cs t"
    "recent_of t st = keep_last 20 (map snd (filter (\<lambda>(i, _). i = t) os))"
    using dlglog.entries_run [of "[]"] by simp_all
  moreover have "fst (on_dialog C src e st) = Inr ()"
    by (cases src) (simp_all add: on_dialog_def ret_def seqp_def bindp_def modifies_def reads_def catchp_def split: sum.splits prod.splits)
  ultimately show ?thesis by simp
qed

definition idle_dlg :: "int \<Rightarrow> unit dlg_state" where
  "idle_dlg t = \<lparr>world = (), attached = [], enabledDomains = [], refStore = [],
     sessionMap = [(''default'', \<lparr>groupId = None, activeTabId = Some t, tabIds = [t]\<rparr>)], dlgPolicy = [], dlgRecent = []\<rparr>"

lemma dialogs_follow_last_configuration_witness:
  "dp_action (policy_of 7 (snd (dialog answering (Obj [(''action'', Str ''accept'')]) ''default'' (idle_dlg 7)))) = Accept"
proof -
  let ?d = "dialog answering (Obj [(''action'', Str ''accept'')]) ''default'' (idle_dlg 7)"
  have "dlg_run answering [] [] (idle_dlg 7)" by (rule dlg_start) (simp_all add: idle_dlg_def)
  then have "dlg_run answering ([] @ configured (Obj [(''action'', Str ''accept'')]) ''default'' (idle_dlg 7) (fst ?d)) [] (snd ?d)"
    by (rule dlg_call) simp
  from dialogs_follow_last_configuration [OF this, THEN conjunct1, of 7]
  have "policy_of 7 (snd ?d) = last_config (configured (Obj [(''action'', Str ''accept'')]) ''default'' (idle_dlg 7) (fst ?d)) 7"
    by simp
  moreover have "dp_action (last_config (configured (Obj [(''action'', Str ''accept'')]) ''default'' (idle_dlg 7) (fst ?d)) 7) = Accept"
    by code_simp
  ultimately show ?thesis by simp
qed

end
