(* ===== verification/Network.thy ===== *)
theory Network
  imports Dialogs
begin

text \<open>
  \<^verbatim>\<open>src/tools/network.js\<close>: the network capture of a tab.  \<open>netBuffers\<close> and \<open>capturing\<close> are the module
  variables \<^verbatim>\<open>buffers\<close> and \<^verbatim>\<open>capturing\<close>; the debugger's events arrive one at a time.
\<close>

section \<open>State and events\<close>

record net_entry =
  ne_requestId :: jsval
  ne_url :: string
  ne_method :: jsval
  ne_type :: jsval
  ne_status :: jsval
  ne_mimeType :: jsval

record 'w net_state = "'w dlg_state" +
  netBuffers :: "(int \<times> net_entry list) list"
  capturing :: "int list"

type_synonym ('w, 'm, 'a) net_prog = "(('w, 'm) net_state_scheme, 'a) jsprog"

definition MAX_ENTRIES :: nat where "MAX_ENTRIES = 500"

text \<open>The two protocol events that carry requests, and any other.\<close>

datatype net_event =
    RequestWillBeSent jsval string jsval jsval   \<comment> \<open>requestId, url, method, type\<close>
  | ResponseReceived jsval jsval jsval           \<comment> \<open>requestId, status, mimeType\<close>
  | OtherEvent

fun set_response :: "jsval \<Rightarrow> jsval \<Rightarrow> jsval \<Rightarrow> net_entry list \<Rightarrow> net_entry list" where
  "set_response i status mime [] = []"
| "set_response i status mime (e # es) =
     (if ne_requestId e = i then e\<lparr>ne_status := status, ne_mimeType := mime\<rparr> # es
      else e # set_response i status mime es)"

definition log_event :: "net_event \<Rightarrow> net_entry list \<Rightarrow> net_entry list" where
  "log_event e buf = (case e of
      RequestWillBeSent i url m ty \<Rightarrow>
        buf @ [\<lparr>ne_requestId = i, ne_url = url, ne_method = m, ne_type = or_null ty, ne_status = Null, ne_mimeType = Null\<rparr>]
    | ResponseReceived i status mime \<Rightarrow> set_response i status mime buf
    | OtherEvent \<Rightarrow> buf)"

definition buffer_of :: "int \<Rightarrow> ('w, 'm) net_state_scheme \<Rightarrow> net_entry list" where
  "buffer_of t st = (case map_of (netBuffers st) t of None \<Rightarrow> [] | Some b \<Rightarrow> b)"

definition net_onEvent :: "int option \<Rightarrow> net_event \<Rightarrow> ('w, 'm) net_state_scheme \<Rightarrow> ('w, 'm) net_state_scheme" where
  "net_onEvent source e st = (case source of
      None \<Rightarrow> st
    | Some t \<Rightarrow>
        if t \<notin> set (capturing st) then st
        else st\<lparr>netBuffers := mput t (keep_last MAX_ENTRIES (log_event e (buffer_of t st))) (netBuffers st)\<rparr>)"

section \<open>The tool\<close>

definition entry_json :: "net_entry \<Rightarrow> (string \<times> jsval) list" where
  "entry_json e = [(''requestId'', ne_requestId e), (''url'', Str (ne_url e)), (''method'', ne_method e),
     (''type'', ne_type e), (''status'', ne_status e), (''mimeType'', ne_mimeType e)]"

definition url_filter :: "jsval \<Rightarrow> net_entry list \<Rightarrow> net_entry list" where
  "url_filter f buf =
     (if truthy f then filter (\<lambda>e. str_has (js_lower (ne_url e)) (js_lower (to_string f))) buf else buf)"

definition net_start :: "'w chrome \<Rightarrow> int \<Rightarrow> ('w, 'm, jsval) net_prog" where
  "net_start C t = seqp (ensureDomain C (TabT t) ''Network'')
     (seqp (modifies (\<lambda>st. st\<lparr>capturing := sadd t (capturing st), netBuffers := mput t [] (netBuffers st)\<rparr>))
        (ret (Obj [(''success'', Bool True), (''capturing'', Bool True)])))"

definition net_stop :: "int \<Rightarrow> ('w, 'm, jsval) net_prog" where
  "net_stop t = seqp (modifies (\<lambda>st. st\<lparr>capturing := sdel t (capturing st)\<rparr>))
     (ret (Obj [(''success'', Bool True), (''capturing'', Bool False)]))"

definition net_list :: "jsval \<Rightarrow> int \<Rightarrow> ('w, 'm, jsval) net_prog" where
  "net_list f t = bindp (reads (buffer_of t)) (\<lambda>b0.
     let buf = url_filter f b0
     in ret (Obj [(''count'', jnat (length buf)), (''requests'', Arr (map (Obj \<circ> entry_json) (keep_last 200 buf)))]))"

text \<open>The response body as the tool returns it.\<close>

definition body_text :: "jsval \<Rightarrow> jsval" where
  "body_text body =
     (if truthy (getp ''base64Encoded'' body) then Str ''(binary, base64-encoded omitted)''
      else case getp ''body'' body of
        Str s \<Rightarrow> if length s > 20000 then Str (take 20000 s @ ELLIPSIS @ ''(truncated)'') else Str s
      | v \<Rightarrow> v)"

definition net_detail :: "'w chrome \<Rightarrow> jsval \<Rightarrow> int \<Rightarrow> ('w, 'm, jsval) net_prog" where
  "net_detail C i t =
     (if \<not> truthy i then throw DetailNeedsRequestId
      else bindp (cdp_send C (TabT t) ''Network.getResponseBody'' (Obj [(''requestId'', i)])) (\<lambda>body.
        bindp (reads (\<lambda>st. List.find (\<lambda>e. ne_requestId e = i) (buffer_of t st))) (\<lambda>meta.
          ret (Obj (spread (case meta of None \<Rightarrow> [] | Some e \<Rightarrow> entry_json e)
            [(''base64Encoded'', Bool (truthy (getp ''base64Encoded'' body))), (''body'', body_text body)])))))"

definition network :: "'w chrome \<Rightarrow> jsval \<Rightarrow> string \<Rightarrow> ('w, 'm, jsval) net_prog" where
  "network C args session = bindp (getActiveTab session) (\<lambda>t.
     let cmd = getp ''cmd'' args
     in if cmd = Str ''start'' then net_start C t
        else if cmd = Str ''stop'' then net_stop t
        else if cmd = Str ''list'' then net_list (getp ''filter'' args) t
        else if cmd = Str ''detail'' then net_detail C (getp ''requestId'' args) t
        else throw (UnknownNetworkCmd cmd))"

section \<open>What the buffer holds\<close>

text \<open>What a request was when it was sent: its id, URL, method and type.\<close>

definition sent_of :: "net_entry \<Rightarrow> jsval \<times> string \<times> jsval \<times> jsval" where
  "sent_of e = (ne_requestId e, ne_url e, ne_method e, ne_type e)"

fun requests_of :: "net_event list \<Rightarrow> (jsval \<times> string \<times> jsval \<times> jsval) list" where
  "requests_of [] = []"
| "requests_of (RequestWillBeSent i url m ty # es) = (i, url, m, or_null ty) # requests_of es"
| "requests_of (_ # es) = requests_of es"

lemma sent_set_response [simp]: "map sent_of (set_response i s m es) = map sent_of es"
  by (induction es) (simp_all add: sent_of_def)

lemma sent_keep_last: "map sent_of (keep_last n es) = keep_last n (map sent_of es)"
  by (simp add: keep_last_def drop_map)

text \<open>The capture of one tab is a bounded log of the requests sent.\<close>

definition push_sent :: "'a \<Rightarrow> 'a list \<Rightarrow> 'a list" where
  "push_sent x xs = keep_last MAX_ENTRIES (xs @ [x])"

interpretation netlog: bounded_log "\<lambda>xs. xs" push_sent MAX_ENTRIES
  by unfold_locales (simp add: push_sent_def)

lemma log_event_sent:
  "length buf \<le> MAX_ENTRIES \<Longrightarrow>
   map sent_of (keep_last MAX_ENTRIES (log_event e buf)) = fold push_sent (requests_of [e]) (map sent_of buf)"
  by (cases e) (simp_all add: log_event_def sent_keep_last push_sent_def sent_of_def keep_last_all)

lemma requests_of_Cons: "requests_of (e # es) = requests_of [e] @ requests_of es"
  by (cases e) simp_all

text \<open>The events of one tab among those of all, in order.\<close>

fun events_of :: "int \<Rightarrow> (int option \<times> net_event) list \<Rightarrow> net_event list" where
  "events_of t [] = []"
| "events_of t ((src, e) # es) = (if src = Some t then e # events_of t es else events_of t es)"

definition run_events :: "(int option \<times> net_event) list \<Rightarrow> ('w, 'm) net_state_scheme \<Rightarrow> ('w, 'm) net_state_scheme" where
  "run_events es st = fold (\<lambda>(src, e). net_onEvent src e) es st"

lemma net_onEvent_capturing [simp]: "capturing (net_onEvent src e st) = capturing st"
  by (simp add: net_onEvent_def split: option.splits)

lemma buffer_net_onEvent: "buffer_of t (net_onEvent src e st) =
   (if src = Some t \<and> t \<in> set (capturing st) then keep_last MAX_ENTRIES (log_event e (buffer_of t st)) else buffer_of t st)"
  by (auto simp: net_onEvent_def buffer_of_def split: option.splits)

lemma run_events_sent:
  assumes "t \<in> set (capturing st)" "length (buffer_of t st) \<le> MAX_ENTRIES"
  shows "map sent_of (buffer_of t (run_events es st))
      = fold push_sent (requests_of (events_of t es)) (map sent_of (buffer_of t st))
    \<and> length (buffer_of t (run_events es st)) \<le> MAX_ENTRIES"
  using assms
proof (induction es arbitrary: st)
  case Nil
  then show ?case by (simp add: run_events_def)
next
  case (Cons p es)
  obtain src e where p: "p = (src, e)" by (cases p)
  let ?st = "net_onEvent src e st"
  have len: "length (buffer_of t ?st) \<le> MAX_ENTRIES"
    using Cons.prems by (simp add: buffer_net_onEvent)
  have step: "map sent_of (buffer_of t ?st) = fold push_sent (requests_of (events_of t [p])) (map sent_of (buffer_of t st))"
    using Cons.prems log_event_sent [of "buffer_of t st" e] by (simp add: p buffer_net_onEvent)
  have "events_of t (p # es) = events_of t [p] @ events_of t es" by (simp add: p)
  moreover have "requests_of (a @ b) = requests_of a @ requests_of b" for a b
    by (induction a rule: requests_of.induct) simp_all
  ultimately show ?case
    using Cons.IH [of ?st] Cons.prems(1) len step by (simp add: run_events_def p)
qed

text \<open>
  C14: Whatever events arrive after \<^verbatim>\<open>network start\<close> succeeds, for this tab and others, in any order, the
  tab's buffer holds exactly the newest 500 requests sent on it since then, in the order they were sent;
  the listing returns at most the newest 200 of those that pass the filter.
\<close>

theorem capture_keeps_newest_requests:
  assumes "net_start C t st = (Inr v, st')"
  shows "map sent_of (buffer_of t (run_events es st')) = keep_last 500 (requests_of (events_of t es))
    \<and> (\<exists>reqs. net_list f t (run_events es st')
          = (Inr (Obj [(''count'', jnat (length reqs)), (''requests'', Arr (map (Obj \<circ> entry_json) (keep_last 200 reqs)))]),
             run_events es st')
        \<and> reqs = url_filter f (buffer_of t (run_events es st')) \<and> length reqs \<le> 500)"
proof -
  have cap: "t \<in> set (capturing st')" and buf: "buffer_of t st' = []"
    using assms by (auto simp: net_start_def seqp_def bindp_def modifies_def ret_def buffer_of_def
        split: prod.splits sum.splits)
  have r: "map sent_of (buffer_of t (run_events es st')) = fold push_sent (requests_of (events_of t es)) []"
    and len: "length (buffer_of t (run_events es st')) \<le> 500"
    using run_events_sent [OF cap, of es] buf by (simp_all add: MAX_ENTRIES_def)
  have "fold push_sent (requests_of (events_of t es)) [] = keep_last 500 (requests_of (events_of t es))"
    using netlog.entries_run [of "[]"] by (simp add: MAX_ENTRIES_def)
  moreover have "length (url_filter f (buffer_of t (run_events es st'))) \<le> 500"
    using len by (auto simp: url_filter_def intro: order_trans [OF length_filter_le])
  ultimately show ?thesis
    using r by (simp add: net_list_def bindp_def reads_def ret_def Let_def)
qed

definition idle_net :: "unit net_state" where
  "idle_net = \<lparr>world = (), attached = [], enabledDomains = [], refStore = [], sessionMap = [], dlgPolicy = [], dlgRecent = [], netBuffers = [], capturing = []\<rparr>"

lemma capture_keeps_newest_requests_witness:
  "map sent_of (buffer_of 7 (run_events [(Some 7, RequestWillBeSent (Str ''1'') ''https://a/'' (Str ''GET'') Undef), (Some 8, OtherEvent)]
     (snd (net_start answering 7 idle_net)))) = [(Str ''1'', ''https://a/'', Str ''GET'', Null)]"
proof -
  have "fst (net_start answering 7 idle_net) = Inr (Obj [(''success'', Bool True), (''capturing'', Bool True)])"
    by code_simp
  from capture_keeps_newest_requests [OF run_eq [OF this], where es = "[(Some 7, RequestWillBeSent (Str ''1'') ''https://a/'' (Str ''GET'') Undef), (Some 8, OtherEvent)]", THEN conjunct1]
  show ?thesis by (simp add: keep_last_def or_null_def js_or_def truthy_def)
qed

end
