(* ===== verification/AnnStore.thy ===== *)
theory AnnStore
  imports AnnModel Network
begin

text \<open>
  \<^verbatim>\<open>src/annotations/store.js\<close>: the annotation store of the service worker.  The module variables
  \<^verbatim>\<open>cache\<close>, \<^verbatim>\<open>shots\<close> and \<^verbatim>\<open>revision\<close> are the fields of \<open>ann_state\<close>; the two keys of
  \<^verbatim>\<open>chrome.storage.local\<close> are read and written through the parameter \<open>S\<close>, whose documented behaviour is
  the locale \<open>ann_storage\<close>.  A rejected read is \<open>None\<close>, an absent or malformed value the inner \<open>None\<close>.
\<close>

section \<open>State and storage\<close>

record ann_cache =
  c_seq :: nat
  c_items :: "annotation list"

type_synonym ann_shots = "(string \<times> string) list"

record 'w ann_state = "'w net_state" +
  ann_cache :: "ann_cache option"
  shots :: ann_shots
  revision :: nat

type_synonym ('w, 'm, 'a) ann_prog = "(('w, 'm) ann_state_scheme, 'a) jsprog"

record 'w ann_api =
  ann_get :: "'w \<Rightarrow> (ann_cache option \<times> ann_shots option) option"
  ann_set_items :: "ann_cache \<Rightarrow> 'w \<Rightarrow> bool \<times> 'w"
  ann_set_shots :: "ann_shots \<Rightarrow> 'w \<Rightarrow> bool \<times> 'w"

locale ann_storage =
  fixes S :: "'w ann_api"
  assumes items_written: "ann_set_items S c w = (True, w') \<Longrightarrow> ann_get S w' = map_option (\<lambda>(_, sh). (Some c, sh)) (ann_get S w)"
    and items_rejected: "ann_set_items S c w = (False, w') \<Longrightarrow> ann_get S w' = ann_get S w"
    and shots_written: "ann_set_shots S sh w = (True, w') \<Longrightarrow> ann_get S w' = map_option (\<lambda>(c, _). (c, Some sh)) (ann_get S w)"
    and shots_rejected: "ann_set_shots S sh w = (False, w') \<Longrightarrow> ann_get S w' = ann_get S w"

section \<open>Operations\<close>

definition loaded_cache :: "ann_cache option \<Rightarrow> ann_cache" where
  "loaded_cache raw = (case raw of
      None \<Rightarrow> \<lparr>c_seq = 0, c_items = []\<rparr>
    | Some c \<Rightarrow> \<lparr>c_seq = (if c_seq c = 0 then length (c_items c) else c_seq c), c_items = c_items c\<rparr>)"

definition load :: "'w ann_api \<Rightarrow> ('w, 'm, unit) ann_prog" where
  "load S = modifies (\<lambda>st. case ann_cache st of
      Some _ \<Rightarrow> st
    | None \<Rightarrow>
        (let got = (case ann_get S (world st) of None \<Rightarrow> (None, None) | Some p \<Rightarrow> p)
         in st\<lparr>ann_cache := Some (loaded_cache (fst got)),
               shots := (case snd got of None \<Rightarrow> [] | Some sh \<Rightarrow> sh)\<rparr>))"

definition the_cache :: "('w, 'm) ann_state_scheme \<Rightarrow> ann_cache" where
  "the_cache st = (case ann_cache st of None \<Rightarrow> \<lparr>c_seq = 0, c_items = []\<rparr> | Some c \<Rightarrow> c)"

definition items_of :: "('w, 'm) ann_state_scheme \<Rightarrow> annotation list" where
  "items_of st = c_items (the_cache st)"

definition set_items :: "annotation list \<Rightarrow> ('w, 'm) ann_state_scheme \<Rightarrow> ('w, 'm) ann_state_scheme" where
  "set_items its st = st\<lparr>ann_cache := Some ((the_cache st)\<lparr>c_items := its\<rparr>)\<rparr>"

definition persistItems :: "'w ann_api \<Rightarrow> ('w, 'm, unit) ann_prog" where
  "persistItems S = bindp (reads the_cache) (\<lambda>c. catchp (call_bool (ann_set_items S c)) (\<lambda>_. ret ()))"

definition oldest_half :: "ann_shots \<Rightarrow> ann_shots" where
  "oldest_half sh = (let ids = keys sh in filter (\<lambda>(i, _). i \<notin> set (take ((length ids + 1) div 2) ids)) sh)"

definition persistShots :: "'w ann_api \<Rightarrow> ('w, 'm, unit) ann_prog" where
  "persistShots S = bindp (reads shots) (\<lambda>sh.
     catchp (call_bool (ann_set_shots S sh))
       (\<lambda>_. seqp (modifies (\<lambda>st. st\<lparr>shots := oldest_half (shots st)\<rparr>))
          (bindp (reads shots) (\<lambda>sh. catchp (call_bool (ann_set_shots S sh)) (\<lambda>_. ret ())))))"

definition touch :: "('w, 'm, unit) ann_prog" where
  "touch = modifies (\<lambda>st. st\<lparr>revision := revision st + 1\<rparr>)"

definition list_anns :: "'w ann_api \<Rightarrow> ann_filter \<Rightarrow> ('w, 'm, annotation list) ann_prog" where
  "list_anns S f = seqp (load S) (reads (\<lambda>st. filterAnnotations (items_of st) f))"

definition summary :: "'w ann_api \<Rightarrow> ('w, 'm, ann_stats) ann_prog" where
  "summary S = seqp (load S) (reads (\<lambda>st. stats (items_of st)))"

definition maxSeq :: "'w ann_api \<Rightarrow> ('w, 'm, nat) ann_prog" where
  "maxSeq S = seqp (load S) (reads (\<lambda>st. c_seq (the_cache st)))"

definition next_seq :: "('w, 'm) ann_state_scheme \<Rightarrow> ('w, 'm) ann_state_scheme" where
  "next_seq st = st\<lparr>ann_cache := Some ((the_cache st)\<lparr>c_seq := c_seq (the_cache st) + 1\<rparr>)\<rparr>"

definition add :: "'w ann_api \<Rightarrow> (string \<Rightarrow> string option) \<Rightarrow> jsval \<Rightarrow> jsval \<Rightarrow> jsval \<Rightarrow> string
    \<Rightarrow> ('w, 'm, annotation) ann_prog" where
  "add S K input tabId session now =
     seqp (load S)
       (seqp (modifies next_seq)
         (bindp (reads (\<lambda>st. makeRecord K (c_seq (the_cache st)) input tabId session now)) (\<lambda>record.
            if ann_comment record = [] then throw EmptyComment
            else seqp (modifies (\<lambda>st. set_items (pruneItems MAX_ANNOTATIONS (items_of st @ [record])) st))
                   (seqp touch (seqp (persistItems S) (ret record))))))"

definition get_ann :: "'w ann_api \<Rightarrow> jsval \<Rightarrow> ('w, 'm, annotation option) ann_prog" where
  "get_ann S i = seqp (load S) (reads (\<lambda>st. List.find (\<lambda>it. ann_id it = to_string i) (items_of st)))"

record ann_changes =
  ch_status :: jsval
  ch_comment :: jsval
  ch_note :: jsval

definition apply_changes :: "ann_changes \<Rightarrow> string \<Rightarrow> annotation \<Rightarrow> annotation" where
  "apply_changes ch now it =
     (let it1 = (if truthy (ch_status ch) then it\<lparr>ann_status := ch_status ch\<rparr> else it);
          it2 = (if \<not> nullish (ch_comment ch) then it1\<lparr>ann_comment := sanitizeComment (ch_comment ch)\<rparr> else it1);
          it3 = (if \<not> nullish (ch_note ch) then it2\<lparr>ann_note := sanitizeNote (ch_note ch)\<rparr> else it2)
      in it3\<lparr>ann_updated_at := now\<rparr>)"

text \<open>The records a query returned are the stored objects; they are identified by their ids.\<close>

definition change_targets :: "string list \<Rightarrow> (annotation \<Rightarrow> annotation) \<Rightarrow> annotation list \<Rightarrow> annotation list" where
  "change_targets ids f its = map (\<lambda>it. if ann_id it \<in> set ids then f it else it) its"

definition patch :: "'w ann_api \<Rightarrow> ann_filter \<Rightarrow> ann_changes \<Rightarrow> string \<Rightarrow> ('w, 'm, annotation list) ann_prog" where
  "patch S f ch now =
     seqp (load S)
       (bindp (reads (\<lambda>st. filterAnnotations (items_of st) f)) (\<lambda>targets.
          seqp (modifies (\<lambda>st. set_items (change_targets (map ann_id targets) (apply_changes ch now) (items_of st)) st))
            (seqp (if targets \<noteq> [] then seqp touch (persistItems S) else ret ())
               (ret (map (apply_changes ch now) targets)))))"

definition shot_of :: "ann_shots \<Rightarrow> string \<Rightarrow> string option" where
  "shot_of sh i = (case map_of sh i of None \<Rightarrow> None | Some d \<Rightarrow> if d = [] then None else Some d)"

definition drop_records :: "'w ann_api \<Rightarrow> annotation list \<Rightarrow> annotation list \<Rightarrow> ann_shots \<Rightarrow> ('w, 'm, nat \<times> nat) ann_prog" where
  "drop_records S targets its sh =
     (let kill = map ann_id targets;
          kept = filter (\<lambda>it. ann_id it \<notin> set kill) its;
          shotsDropped = (\<exists>i \<in> set kill. shot_of sh i \<noteq> None)
      in seqp (modifies (\<lambda>st. (set_items kept st)\<lparr>shots :=
            filter (\<lambda>(i, d). \<not> (i \<in> set kill \<and> d \<noteq> [])) sh\<rparr>))
           (seqp touch (seqp (persistItems S)
             (seqp (if shotsDropped then persistShots S else ret ())
                (ret (length targets, length kept))))))"

definition remove_anns :: "'w ann_api \<Rightarrow> ann_filter \<Rightarrow> ('w, 'm, nat \<times> nat) ann_prog" where
  "remove_anns S f =
     seqp (load S)
       (bindp (reads (\<lambda>st. (filterAnnotations (items_of st) f, items_of st, shots st))) (\<lambda>(targets, its, sh).
          if targets = [] then ret (0, length its) else drop_records S targets its sh))"

definition getShot :: "'w ann_api \<Rightarrow> jsval \<Rightarrow> ('w, 'm, string option) ann_prog" where
  "getShot S i = seqp (load S) (reads (\<lambda>st. shot_of (shots st) (to_string i)))"

fun flag_first :: "string \<Rightarrow> bool \<Rightarrow> annotation list \<Rightarrow> annotation list" where
  "flag_first i b [] = []"
| "flag_first i b (it # its) =
     (if ann_id it = i then it\<lparr>ann_has_screenshot := b\<rparr> # its else it # flag_first i b its)"

definition drop_flags :: "ann_shots \<Rightarrow> annotation list \<Rightarrow> annotation list" where
  "drop_flags sh its = map (\<lambda>it. if ann_has_screenshot it \<and> shot_of sh (ann_id it) = None
      then it\<lparr>ann_has_screenshot := False\<rparr> else it) its"

definition keep_shots :: "string \<Rightarrow> string \<Rightarrow> ('w, 'm) ann_state_scheme \<Rightarrow> ('w, 'm) ann_state_scheme" where
  "keep_shots i dataUrl st =
     (let sh = mput i dataUrl (shots st);
          keep = shotIdsToKeep (items_of st) (keys sh) MAX_SHOTS;
          sh' = filter (\<lambda>(k, _). k \<in> set keep) sh
      in (set_items (drop_flags sh' (flag_first i (shot_of sh' i \<noteq> None) (items_of st))) st)\<lparr>shots := sh'\<rparr>)"

definition setShot :: "'w ann_api \<Rightarrow> jsval \<Rightarrow> string \<Rightarrow> ('w, 'm, bool) ann_prog" where
  "setShot S i dataUrl =
     seqp (load S)
       (if dataUrl = [] then ret False
        else seqp (modifies (keep_shots (to_string i) dataUrl))
          (seqp touch (seqp (persistShots S) (seqp (persistItems S)
            (reads (\<lambda>st. shot_of (shots st) (to_string i) \<noteq> None))))))"

section \<open>Waiting for a new record\<close>

text \<open>
  \<^verbatim>\<open>waitForNew\<close>: the loop that polls the store.  Between two polls the store changes under other
  handlers, so the items and the clock seen at the \<open>i\<close>-th poll are arguments; \<open>fuel\<close> bounds the polls.
\<close>

fun waitForNew :: "nat \<Rightarrow> (nat \<Rightarrow> annotation list) \<Rightarrow> (nat \<Rightarrow> rat) \<Rightarrow> ann_filter \<Rightarrow> rat \<Rightarrow> nat
    \<Rightarrow> annotation list option" where
  "waitForNew 0 items clock f deadline i = None"
| "waitForNew (Suc fuel) items clock f deadline i =
     (let found = filterAnnotations (items i) f in
      if found \<noteq> [] then Some found
      else if deadline - clock i \<le> 0 then Some []
      else waitForNew fuel items clock f deadline (Suc i))"

end
