(* ===== verification/AnnMode.thy ===== *)
theory AnnMode
  imports AnnStore
begin

text \<open>
  \<^verbatim>\<open>src/annotations/mode.js\<close>: annotation mode per tab.  The module variables \<^verbatim>\<open>active\<close>, \<^verbatim>\<open>frames\<close> and
  \<^verbatim>\<open>restored\<close> are the fields of \<open>mode_state\<close>; the page (script injection, messages to its frames, the
  capture of the visible tab, the image pipeline, the tab in front) is the parameter \<open>P\<close>.  Each exported function runs to
  completion between events.
\<close>

section \<open>State and the page\<close>

text \<open>A region of the captured bitmap and the size it is drawn at.\<close>

record crop =
  crop_x :: rat
  crop_y :: rat
  crop_w :: rat
  crop_h :: rat
  out_w :: int
  out_h :: int

datatype page_msg = SetMode bool | Sync "annotation list" | Locate annotation bool bool

record 'w page_api =
  page_inject :: "int \<Rightarrow> 'w \<Rightarrow> bool \<times> 'w"
  page_broadcast :: "int \<Rightarrow> page_msg \<Rightarrow> 'w \<Rightarrow> 'w"
  page_send :: "int \<Rightarrow> int \<Rightarrow> page_msg \<Rightarrow> 'w \<Rightarrow> jsval \<times> 'w"
  page_capture :: "int \<Rightarrow> 'w \<Rightarrow> (nat \<times> nat \<times> string) option option"
  page_encode :: "string \<Rightarrow> crop \<Rightarrow> string"
  page_front :: "'w \<Rightarrow> tab list option"

record 'w mode_state = "'w ann_state" +
  modeActive :: "int list"
  modeFrames :: "(int \<times> (int \<times> string) list) list"
  modeRestored :: bool

type_synonym ('w, 'm, 'a) mode_prog = "(('w, 'm) mode_state_scheme, 'a) jsprog"

definition KEY_MODES :: string where "KEY_MODES = ''owb_ann_modes''"

section \<open>The set of annotated tabs\<close>

text \<open>\<^verbatim>\<open>chrome.tabs.get\<close> rejects what is not an integer.\<close>

definition tab_number :: "jsval \<Rightarrow> int option" where
  "tab_number v = (case v of Num (Fin q) \<Rightarrow> if is_int_rat q then Some \<lfloor>q\<rfloor> else None | _ \<Rightarrow> None)"

definition saved_modes :: "'w chrome \<Rightarrow> 'w \<Rightarrow> jsval list" where
  "saved_modes C w = (case storage_get C w KEY_MODES of Some (Arr vs) \<Rightarrow> vs | _ \<Rightarrow> [])"

definition live_saved :: "'w chrome \<Rightarrow> 'w \<Rightarrow> int list" where
  "live_saved C w = [t. v \<leftarrow> saved_modes C w, t \<leftarrow> (case tab_number v of None \<Rightarrow> [] | Some t \<Rightarrow> [t]), tabs_get C w t \<noteq> None]"

definition restore :: "'w chrome \<Rightarrow> ('w, 'm, unit) mode_prog" where
  "restore C = modifies (\<lambda>st. if modeRestored st then st
     else st\<lparr>modeRestored := True, modeActive := sadds (live_saved C (world st)) (modeActive st)\<rparr>)"

definition persistModes :: "'w chrome \<Rightarrow> ('w, 'm, unit) mode_prog" where
  "persistModes C = bindp (reads modeActive) (\<lambda>ts.
     catchp (call_bool (storage_set C [(KEY_MODES, Arr (map jint ts))])) (\<lambda>_. ret ()))"

definition isActive :: "'w chrome \<Rightarrow> int \<Rightarrow> ('w, 'm, bool) mode_prog" where
  "isActive C t = seqp (restore C) (reads (\<lambda>st. t \<in> set (modeActive st)))"

definition activeTabs :: "'w chrome \<Rightarrow> ('w, 'm, (int \<times> tab) list) mode_prog" where
  "activeTabs C = seqp (restore C)
     (\<lambda>st. let alive = filter (\<lambda>t. tabs_get C (world st) t \<noteq> None) (modeActive st)
       in (Inr (map (\<lambda>t. (t, the (tabs_get C (world st) t))) alive), st\<lparr>modeActive := alive\<rparr>))"

text \<open>The two patterns of \<^verbatim>\<open>assertAnnotatable\<close>, matched without regard to case.\<close>

definition internal_prefixes :: "string list" where
  "internal_prefixes = [''chrome:'', ''edge:'', ''about:'', ''devtools:'', ''chrome-extension:'', ''view-source:'',
     ''https://chromewebstore.google.com'']"

definition assertAnnotatable :: "tab \<Rightarrow> ('w, 'm, unit) mode_prog" where
  "assertAnnotatable tb =
     (let url = (if tab_url tb \<noteq> [] then tab_url tb else tab_pendingUrl tb)
      in if list_ex (\<lambda>p. prefix p (js_lower url)) internal_prefixes then throw (BrowserInternalPage url) else ret ())"

definition inject :: "'w page_api \<Rightarrow> int \<Rightarrow> ('w, 'm, unit) mode_prog" where
  "inject P t = call_bool (page_inject P t)"

definition broadcast :: "'w page_api \<Rightarrow> int \<Rightarrow> page_msg \<Rightarrow> ('w, 'm, unit) mode_prog" where
  "broadcast P t m = modifies (\<lambda>st. st\<lparr>world := page_broadcast P t m (world st)\<rparr>)"

definition sendToFrame :: "'w page_api \<Rightarrow> int \<Rightarrow> int \<Rightarrow> page_msg \<Rightarrow> ('w, 'm, jsval) mode_prog" where
  "sendToFrame P t fr m = (\<lambda>st. case page_send P t fr m (world st) of (r, w) \<Rightarrow> (Inr r, st\<lparr>world := w\<rparr>))"

section \<open>Frames and pins\<close>

definition frames_of :: "int \<Rightarrow> ('w, 'm) mode_state_scheme \<Rightarrow> (int \<times> string) list" where
  "frames_of t st = (case map_of (modeFrames st) t of None \<Rightarrow> [] | Some m \<Rightarrow> m)"

definition rememberFrame :: "int \<Rightarrow> int \<Rightarrow> string \<Rightarrow> ('w, 'm, unit) mode_prog" where
  "rememberFrame t fr url = modifies (\<lambda>st. st\<lparr>modeFrames := mput t (mput fr url (frames_of t st)) (modeFrames st)\<rparr>)"

definition annotationsForUrl :: "'w ann_api \<Rightarrow> (string \<Rightarrow> string option) \<Rightarrow> string \<Rightarrow> ('w, 'm, annotation list) mode_prog" where
  "annotationsForUrl S K url = bindp (list_anns S (no_filter\<lparr>f_status := Str ''all''\<rparr>)) (\<lambda>items.
     ret (filter (\<lambda>it. ann_url_key it = urlKey K (Str url)) items))"

definition sync :: "'w ann_api \<Rightarrow> 'w page_api \<Rightarrow> (string \<Rightarrow> string option) \<Rightarrow> int \<Rightarrow> ('w, 'm, unit) mode_prog" where
  "sync S P K t = bindp (reads (frames_of t)) (\<lambda>m.
     for_each m (\<lambda>(fr, url). bindp (annotationsForUrl S K url) (\<lambda>anns.
       seqp (sendToFrame P t fr (Sync anns)) (ret ()))))"

definition syncAll :: "'w chrome \<Rightarrow> 'w ann_api \<Rightarrow> 'w page_api \<Rightarrow> (string \<Rightarrow> string option) \<Rightarrow> ('w, 'm, unit) mode_prog" where
  "syncAll C S P K = seqp (restore C) (bindp (reads modeActive) (\<lambda>ts. for_each ts (sync S P K)))"

section \<open>Starting and stopping\<close>

definition show_overlay :: "'w ann_api \<Rightarrow> 'w page_api \<Rightarrow> (string \<Rightarrow> string option) \<Rightarrow> int \<Rightarrow> ('w, 'm, unit) mode_prog" where
  "show_overlay S P K t = seqp (inject P t) (seqp (broadcast P t (SetMode True)) (sync S P K t))"

definition mode_start :: "'w chrome \<Rightarrow> 'w ann_api \<Rightarrow> 'w page_api \<Rightarrow> (string \<Rightarrow> string option) \<Rightarrow> int \<Rightarrow> ('w, 'm, tab) mode_prog" where
  "mode_start C S P K t = seqp (restore C) (bindp (query_opt (\<lambda>w. tabs_get C w t)) (\<lambda>tb.
     seqp (assertAnnotatable tb)
       (seqp (modifies (\<lambda>st. st\<lparr>modeActive := sadd t (modeActive st)\<rparr>))
         (seqp (persistModes C) (seqp (show_overlay S P K t) (ret tb))))))"

definition mode_stop :: "'w chrome \<Rightarrow> 'w page_api \<Rightarrow> int \<Rightarrow> ('w, 'm, bool) mode_prog" where
  "mode_stop C P t = seqp (restore C) (bindp (reads (\<lambda>st. t \<in> set (modeActive st))) (\<lambda>was.
     seqp (modifies (\<lambda>st. st\<lparr>modeActive := sdel t (modeActive st), modeFrames := mdel t (modeFrames st)\<rparr>))
       (seqp (persistModes C) (seqp (broadcast P t (SetMode False)) (ret was)))))"

definition mode_stopAll :: "'w chrome \<Rightarrow> 'w page_api \<Rightarrow> ('w, 'm, nat) mode_prog" where
  "mode_stopAll C P = seqp (restore C) (bindp (reads modeActive) (\<lambda>ids.
     seqp (for_each ids (\<lambda>t. seqp (mode_stop C P t) (ret ()))) (ret (length ids))))"

definition mode_tabRemoved :: "'w chrome \<Rightarrow> int \<Rightarrow> ('w, 'm, unit) mode_prog" where
  "mode_tabRemoved C t =
     seqp (modifies (\<lambda>st. st\<lparr>modeActive := sdel t (modeActive st), modeFrames := mdel t (modeFrames st)\<rparr>)) (persistModes C)"

definition handleTabUpdated :: "'w chrome \<Rightarrow> 'w ann_api \<Rightarrow> 'w page_api \<Rightarrow> (string \<Rightarrow> string option) \<Rightarrow> int \<Rightarrow> string \<Rightarrow> ('w, 'm, unit) mode_prog" where
  "handleTabUpdated C S P K t status =
     (if status \<noteq> ''complete'' then ret ()
      else seqp (restore C) (bindp (reads (\<lambda>st. t \<in> set (modeActive st))) (\<lambda>on.
        if \<not> on then ret ()
        else seqp (modifies (\<lambda>st. st\<lparr>modeFrames := mdel t (modeFrames st)\<rparr>))
               (catchp (show_overlay S P K t) (\<lambda>_. ret ())))))"

section \<open>Screenshots\<close>

definition SHOT_PADDING :: rat where "SHOT_PADDING = 24"
definition SHOT_MAX_EDGE :: rat where "SHOT_MAX_EDGE = 1280"

text \<open>A coordinate that is not a finite number counts as NaN; adding a number to a string concatenates.\<close>

definition coord :: "jsval \<Rightarrow> rat option" where
  "coord v = (case to_number v of Fin q \<Rightarrow> Some q | _ \<Rightarrow> None)"

definition padded_edge :: "jsval \<Rightarrow> rat option" where
  "padded_edge v = (case v of
      Str s \<Rightarrow> coord (Str (s @ ''48'')) | Arr _ \<Rightarrow> coord (Str (to_string v @ ''48'')) | Obj _ \<Rightarrow> None
    | _ \<Rightarrow> map_option (\<lambda>q. q + SHOT_PADDING * 2) (coord v))"

definition whole :: "nat \<Rightarrow> nat \<Rightarrow> rat \<times> rat \<times> rat \<times> rat" where
  "whole bw bh = (0, 0, of_nat bw, of_nat bh)"

definition cut :: "nat \<Rightarrow> nat \<Rightarrow> rat \<Rightarrow> rat \<Rightarrow> rat \<Rightarrow> rat \<Rightarrow> rat \<times> rat \<times> rat \<times> rat" where
  "cut bw bh x y w h =
     (let sx = max 0 x; sy = max 0 y; sw = min (of_nat bw - sx) w; sh = min (of_nat bh - sy) h
      in if sw > 8 \<and> sh > 8 then (sx, sy, sw, sh) else whole bw bh)"

definition region :: "nat \<Rightarrow> nat \<Rightarrow> jsval \<Rightarrow> rat \<times> rat \<times> rat \<times> rat" where
  "region bw bh input =
     (let vp = js_or (getp ''viewport'' input) (Obj []); r = getp ''rect'' (getp ''element'' input)
      in if truthy r \<and> getp ''top_frame'' input \<noteq> Bool False \<and> num_gt (to_number (getp ''w'' vp)) (Fin 0)
         then (case (coord (getp ''w'' vp), coord (getp ''x'' r), coord (getp ''y'' r), padded_edge (getp ''w'' r), padded_edge (getp ''h'' r)) of
             (Some vw, Some x, Some y, Some w, Some h) \<Rightarrow>
               (let scale = of_nat bw / vw
                in cut bw bh ((x - SHOT_PADDING) * scale) ((y - SHOT_PADDING) * scale) (w * scale) (h * scale))
           | _ \<Rightarrow> whole bw bh)
         else whole bw bh)"

definition shot_crop :: "nat \<Rightarrow> nat \<Rightarrow> jsval \<Rightarrow> crop" where
  "shot_crop bw bh input = (case region bw bh input of (sx, sy, sw, sh) \<Rightarrow>
     let shrink = min 1 (SHOT_MAX_EDGE / max sw sh)
     in \<lparr>crop_x = sx, crop_y = sy, crop_w = sw, crop_h = sh,
         out_w = max 1 (js_round (sw * shrink)), out_h = max 1 (js_round (sh * shrink))\<rparr>)"

definition captureElement :: "'w chrome \<Rightarrow> 'w page_api \<Rightarrow> int \<Rightarrow> jsval \<Rightarrow> ('w, 'm, string option) mode_prog" where
  "captureElement C P t input = bindp (query_opt (\<lambda>w. tabs_get C w t)) (\<lambda>tb.
     if \<not> tab_active tb then ret None
     else bindp (query_opt (page_capture P (tab_windowId tb))) (\<lambda>shot. case shot of
        None \<Rightarrow> ret None
      | Some (bw, bh, png) \<Rightarrow> ret (Some (page_encode P png (shot_crop bw bh input)))))"

section \<open>Messages of the page\<close>

definition addFromPage :: "'w chrome \<Rightarrow> 'w ann_api \<Rightarrow> 'w page_api \<Rightarrow> (string \<Rightarrow> string option) \<Rightarrow> string \<Rightarrow> int \<Rightarrow> jsval
    \<Rightarrow> ('w, 'm, annotation option) mode_prog" where
  "addFromPage C S P K now t input =
     bindp (reads (sessionForTab t)) (\<lambda>session.
     bindp (add S K input (jint t) (Str session) now) (\<lambda>record.
       seqp (if truthy input \<and> getp ''capture'' input \<noteq> Bool False
             then catchp (bindp (captureElement C P t input) (\<lambda>shot. case shot of
                 None \<Rightarrow> ret () | Some s \<Rightarrow> if s = [] then ret () else seqp (setShot S (Str (ann_id record)) s) (ret ())))
               (\<lambda>_. ret ())
             else ret ())
         (get_ann S (Str (ann_id record)))))"

fun locate_in :: "'w page_api \<Rightarrow> int \<Rightarrow> page_msg \<Rightarrow> int list \<Rightarrow> jsval \<Rightarrow> ('w, 'm, jsval) mode_prog" where
  "locate_in P t m [] fallback = ret fallback"
| "locate_in P t m (fr # frs) fallback = bindp (sendToFrame P t fr m) (\<lambda>res.
     let here = Obj (spread (own_props res) [(''frameId'', jint fr)])
     in if truthy res \<and> truthy (getp ''found'' res) then ret here
        else locate_in P t m frs (if truthy res then here else fallback))"

text \<open>Between the injection and the question the worker sleeps; \<open>env\<close> is what other events do then.\<close>

definition mode_locate :: "'w page_api \<Rightarrow> (('w, 'm) mode_state_scheme \<Rightarrow> ('w, 'm) mode_state_scheme) \<Rightarrow> int \<Rightarrow> annotation \<Rightarrow> jsval \<Rightarrow> jsval
    \<Rightarrow> ('w, 'm, jsval) mode_prog" where
  "mode_locate P env t ann scroll flash = seqp (inject P t) (seqp (modifies env)
     (bindp (reads (frames_of t)) (\<lambda>m.
        locate_in P t (Locate ann (scroll \<noteq> Bool False) (flash \<noteq> Bool False)) (if m = [] then [0] else keys m)
          (Obj [(''found'', Bool False), (''reason'', Str ''no frame answered'')]))))"

record sender =
  snd_tab :: "int option"
  snd_frame :: "int option"
  snd_url :: string

datatype page_reply =
    Ready bool "annotation list"
  | Added "string option"
  | Done
  | PageError string

definition one_id :: "jsval \<Rightarrow> ann_filter" where
  "one_id i = no_filter\<lparr>f_ids := Arr [i], f_status := Str ''all''\<rparr>"

definition update_changes :: "jsval \<Rightarrow> ann_changes" where
  "update_changes msg =
     \<lparr>ch_status = (if truthy (getp ''status'' msg) then getp ''status'' msg else Undef),
      ch_comment = (if nullish (getp ''comment'' msg) then Undef else getp ''comment'' msg), ch_note = Undef\<rparr>"

definition if_tab :: "int option \<Rightarrow> (int \<Rightarrow> ('w, 'm, unit) mode_prog) \<Rightarrow> ('w, 'm, unit) mode_prog" where
  "if_tab t f = (case t of None \<Rightarrow> ret () | Some t \<Rightarrow> f t)"

definition page_ready :: "'w chrome \<Rightarrow> 'w ann_api \<Rightarrow> (string \<Rightarrow> string option) \<Rightarrow> int \<Rightarrow> int \<Rightarrow> string \<Rightarrow> ('w, 'm, page_reply) mode_prog" where
  "page_ready C S K t fr url = seqp (rememberFrame t fr url) (bindp (isActive C t) (\<lambda>on.
     if on then bindp (annotationsForUrl S K url) (\<lambda>anns. ret (Ready True anns)) else ret (Ready False [])))"

definition handlePageMessage :: "'w chrome \<Rightarrow> 'w ann_api \<Rightarrow> 'w page_api \<Rightarrow> (string \<Rightarrow> string option) \<Rightarrow> string \<Rightarrow> jsval \<Rightarrow> sender
    \<Rightarrow> ('w, 'm, page_reply) mode_prog" where
  "handlePageMessage C S P K now msg from =
     (let ty = getp ''type'' msg; fr = (case snd_frame from of None \<Rightarrow> 0 | Some f \<Rightarrow> f);
          url = to_string (js_or (getp ''url'' msg) (Str (snd_url from)))
      in if ty = Str ''OWB_ANN_READY'' then
           (case snd_tab from of None \<Rightarrow> ret (Ready False []) | Some t \<Rightarrow> page_ready C S K t fr url)
         else if ty = Str ''OWB_ANN_ADD'' then
           (case snd_tab from of None \<Rightarrow> ret (PageError ''no tab'')
            | Some t \<Rightarrow> bindp (addFromPage C S P K now t (getp ''input'' msg)) (\<lambda>record.
                seqp (sync S P K t) (ret (Added (map_option ann_id record)))))
         else if ty = Str ''OWB_ANN_UPDATE'' then
           seqp (patch S (one_id (getp ''id'' msg)) (update_changes msg) now)
             (seqp (if_tab (snd_tab from) (sync S P K)) (ret Done))
         else if ty = Str ''OWB_ANN_DELETE'' then
           seqp (remove_anns S (one_id (getp ''id'' msg))) (seqp (if_tab (snd_tab from) (sync S P K)) (ret Done))
         else if ty = Str ''OWB_ANN_STOP'' then
           seqp (if_tab (snd_tab from) (\<lambda>t. seqp (mode_stop C P t) (ret ()))) (ret Done)
         else ret (PageError (''unknown annotation message '' @ to_string ty)))"

end
