(* ===== verification/Annotate.thy ===== *)
theory Annotate
  imports AnnMode
begin

text \<open>
  \<^verbatim>\<open>src/tools/annotate.js\<close>: the two annotation tools, \<^verbatim>\<open>annotate\<close> on a tab and \<^verbatim>\<open>annotations\<close> on the store.
  The record \<open>ann_env\<close> bundles what they run against: the browser, the store's storage, the page, URL
  parsing and the time stamp.  A long poll sees an arbitrary sequence of stores and clock readings.
\<close>

section \<open>Environment\<close>

record 'w ann_env =
  env_C :: "'w chrome"
  env_S :: "'w ann_api"
  env_P :: "'w page_api"
  env_K :: "string \<Rightarrow> string option"
  env_now :: string

text \<open>The polls of one call: fuel, the clock when it starts, the stores and clock seen, and the state when the wait ends.\<close>

record 's poll =
  poll_fuel :: nat
  poll_start :: rat
  poll_items :: "nat \<Rightarrow> annotation list"
  poll_clock :: "nat \<Rightarrow> rat"
  poll_after :: "'s \<Rightarrow> 's"

definition DEFAULT_WAIT_MS :: rat where "DEFAULT_WAIT_MS = 60000"

section \<open>Choosing a tab\<close>

definition number_tab :: "jsval \<Rightarrow> int option" where
  "number_tab v = tab_number (Num (to_number v))"

definition tabAlive :: "'w chrome \<Rightarrow> 'w \<Rightarrow> jsval \<Rightarrow> int option" where
  "tabAlive C w v = (if nullish v then None
     else case number_tab v of None \<Rightarrow> None | Some t \<Rightarrow> if tabs_get C w t = None then None else Some t)"

definition front_tab :: "'w page_api \<Rightarrow> ('w, 'm, int) mode_prog" where
  "front_tab P = bindp (query_opt (page_front P)) (\<lambda>ts. case ts of
      [] \<Rightarrow> throw NoTabToAnnotate | tb # _ \<Rightarrow> ret (tab_id tb))"

definition resolveTab :: "'w ann_env \<Rightarrow> jsval \<Rightarrow> string \<Rightarrow> ('w, 'm, int) mode_prog" where
  "resolveTab A args session =
     (let tid = getp ''tabId'' args
      in if \<not> nullish tid
         then bindp (reads (\<lambda>st. tabAlive (env_C A) (world st) tid)) (\<lambda>t. case t of
             None \<Rightarrow> throw (TabNotOpen tid) | Some t \<Rightarrow> ret t)
         else if getp ''target'' args \<noteq> Str ''active''
         then catchp (getActiveTab session) (\<lambda>_. front_tab (env_P A))
         else front_tab (env_P A))"

definition stateOf :: "'w ann_env \<Rightarrow> int \<Rightarrow> ('w, 'm, (string \<times> jsval) list) mode_prog" where
  "stateOf A t = bindp (query_opt (\<lambda>w. tabs_get (env_C A) w t)) (\<lambda>tb.
     bindp (annotationsForUrl (env_S A) (env_K A) (tab_url tb)) (\<lambda>existing.
       ret [(''tabId'', jint t), (''url'', Str (tab_url tb)), (''title'', Str (tab_title tb)),
            (''annotations_on_page'', jnat (length existing))]))"

section \<open>The annotate tool\<close>

definition stats_json :: "ann_stats \<Rightarrow> (string \<times> jsval) list" where
  "stats_json s = [(''total'', jnat (st_total s)), (''open'', jnat (st_open s)), (''resolved'', jnat (st_resolved s)),
     (''with_screenshot'', jnat (st_with_screenshot s)),
     (''pages'', Arr (map (\<lambda>(u, n). Obj [(''url'', Str u), (''count'', jnat n)]) (st_pages s)))]"

definition active_json :: "(int \<times> tab) list \<Rightarrow> jsval" where
  "active_json ts = Arr (map (\<lambda>(t, tb). Obj [(''tabId'', jint t), (''url'', Str (tab_url tb)), (''title'', Str (tab_title tb))]) ts)"

definition urlKeyOf :: "(string \<Rightarrow> string option) \<Rightarrow> jsval \<Rightarrow> string" where
  "urlKeyOf K url = (case K (to_string url) of Some s \<Rightarrow> s | None \<Rightarrow> to_string (js_or url (Str [])))"

definition wanted_id :: "jsval \<Rightarrow> jsval" where
  "wanted_id args = js_or (getp ''id'' args)
     (case getp ''ids'' args of Arr (v # _) \<Rightarrow> v | Arr [] \<Rightarrow> Undef | _ \<Rightarrow> Null)"

definition locate_tab :: "'w ann_env \<Rightarrow> jsval \<Rightarrow> string \<Rightarrow> annotation \<Rightarrow> ('w, 'm, int) mode_prog" where
  "locate_tab A args session ann =
     (let tid = getp ''tabId'' args
      in if \<not> nullish tid then (case number_tab tid of None \<Rightarrow> throw (ApiError []) | Some t \<Rightarrow> ret t)
         else bindp (reads (\<lambda>st. tabAlive (env_C A) (world st) (case ann_tabId ann of None \<Rightarrow> Null | Some n \<Rightarrow> Num n)))
           (\<lambda>t. case t of Some t \<Rightarrow> ret t | None \<Rightarrow> resolveTab A args session))"

definition located :: "(string \<Rightarrow> string option) \<Rightarrow> annotation \<Rightarrow> int \<Rightarrow> tab \<Rightarrow> jsval \<Rightarrow> jsval" where
  "located K ann t tb res = Obj
     [(''success'', Bool True), (''id'', Str (ann_id ann)), (''tabId'', jint t), (''found'', Bool (truthy (getp ''found'' res))),
      (''strategy'', js_or (getp ''strategy'' res) (Str ''none'')), (''matches'', js_or (getp ''matches'' res) (jint 0)),
      (''ambiguous'', Bool (truthy (getp ''ambiguous'' res))), (''visible'', Bool (truthy (getp ''visible'' res))),
      (''rect'', or_null (getp ''rect'' res)), (''selector_used'', js_or (getp ''selector'' res) (Str [])),
      (''selector_recorded'', Str (el_selector (ann_element ann))), (''page_url'', Str (tab_url tb)),
      (''recorded_url'', Str (ann_url ann)),
      (''same_page'', Bool (ann_url_key ann = (if truthy (getp ''url'' res) then urlKeyOf K (getp ''url'' res) else [])))]"

definition find_annotation :: "'w ann_api \<Rightarrow> jsval \<Rightarrow> js_error \<Rightarrow> ('w, 'm, annotation) mode_prog" where
  "find_annotation S i missing = (if \<not> truthy i then throw missing
     else bindp (get_ann S i) (\<lambda>ann. case ann of None \<Rightarrow> throw (NoAnnotation i) | Some a \<Rightarrow> ret a))"

definition annotate_locate :: "'w ann_env \<Rightarrow> (('w, 'm) mode_state_scheme \<Rightarrow> ('w, 'm) mode_state_scheme) \<Rightarrow> jsval \<Rightarrow> string
    \<Rightarrow> ('w, 'm, jsval) mode_prog" where
  "annotate_locate A env args session =
     bindp (find_annotation (env_S A) (wanted_id args) LocateNeedsId) (\<lambda>ann.
     bindp (locate_tab A args session ann) (\<lambda>t.
     bindp (query_opt (\<lambda>w. tabs_get (env_C A) w t)) (\<lambda>tb.
     bindp (mode_locate (env_P A) env t ann (getp ''scroll'' args) (getp ''flash'' args)) (\<lambda>res.
       ret (located (env_K A) ann t tb res)))))"

text \<open>The Command-key sign of the hint is outside the alphabet of \<^typ>\<open>string\<close> and is spelled out.\<close>

definition START_HINT :: string where
  "START_HINT = ''Annotation mode is on: click any element on the page, type the note, Cmd/Ctrl+Enter to save. ''
     @ ''Esc or the Done button ends it. Read the notes with `annotations`.''"

definition annotate_on :: "'w ann_env \<Rightarrow> int \<Rightarrow> ('w, 'm, jsval) mode_prog" where
  "annotate_on A t = seqp (mode_start (env_C A) (env_S A) (env_P A) (env_K A) t) (bindp (stateOf A t) (\<lambda>s.
     ret (Obj ([(''success'', Bool True), (''mode'', Str ''on'')] @ s @ [(''hint'', Str START_HINT)]))))"

definition annotate_off :: "'w ann_env \<Rightarrow> int \<Rightarrow> ('w, 'm, jsval) mode_prog" where
  "annotate_off A t = seqp (mode_stop (env_C A) (env_P A) t) (bindp (stateOf A t) (\<lambda>s.
     ret (Obj ([(''success'', Bool True), (''mode'', Str ''off'')] @ s))))"

definition annotate_status :: "'w ann_env \<Rightarrow> ('w, 'm, jsval) mode_prog" where
  "annotate_status A = bindp (activeTabs (env_C A)) (\<lambda>ts. bindp (summary (env_S A)) (\<lambda>sm.
     ret (Obj ([(''success'', Bool True), (''active'', active_json ts), (''annotating'', Bool (ts \<noteq> []))] @ stats_json sm))))"

definition annotate :: "'w ann_env \<Rightarrow> (('w, 'm) mode_state_scheme \<Rightarrow> ('w, 'm) mode_state_scheme) \<Rightarrow> jsval \<Rightarrow> string
    \<Rightarrow> ('w, 'm, jsval) mode_prog" where
  "annotate A env args session =
     (let op = js_lower (to_string (js_or (getp ''mode'' args) (Str ''start'')))
      in if op = ''stop'' \<and> truthy (getp ''all'' args)
         then bindp (mode_stopAll (env_C A) (env_P A)) (\<lambda>n.
           ret (Obj [(''success'', Bool True), (''mode'', Str ''off''), (''stopped'', jnat n)]))
         else if op = ''status'' then annotate_status A
         else if op = ''locate'' then annotate_locate A env args session
         else bindp (resolveTab A args session) (\<lambda>t. bindp (isActive (env_C A) t) (\<lambda>on.
           if op = ''start'' then annotate_on A t
           else if op = ''stop'' then annotate_off A t
           else if op = ''toggle'' then (if on then annotate_off A t else annotate_on A t)
           else throw (UnknownAnnotateMode op))))"

section \<open>The annotations tool\<close>

definition normalizeStatus :: "jsval \<Rightarrow> string \<Rightarrow> string" where
  "normalizeStatus v fallback =
     (let s = js_lower (to_string (js_or v (Str []))) in if s \<in> {''open'', ''resolved'', ''all''} then s else fallback)"

definition idsOf :: "jsval \<Rightarrow> jsval" where
  "idsOf args = (case getp ''ids'' args of
      Arr (v # vs) \<Rightarrow> Arr (v # vs)
    | _ \<Rightarrow> if truthy (getp ''id'' args) then Arr [getp ''id'' args] else Null)"

definition buildFilter :: "jsval \<Rightarrow> string \<Rightarrow> ann_filter" where
  "buildFilter args defaultStatus =
     \<lparr>f_status = Str (normalizeStatus (getp ''status'' args) defaultStatus), f_ids = idsOf args, f_url = getp ''url'' args,
      f_tabId = getp ''tabId'' args, f_since = getp ''since'' args, f_limit = getp ''limit'' args\<rparr>"

definition statusLine :: "'w ann_env \<Rightarrow> ('w, 'm, (string \<times> jsval) list) mode_prog" where
  "statusLine A = bindp (summary (env_S A)) (\<lambda>sm. bindp (activeTabs (env_C A)) (\<lambda>ts.
     ret [(''total'', jnat (st_total sm)), (''open'', jnat (st_open sm)), (''resolved'', jnat (st_resolved sm)),
          (''annotating'', Arr (map (jint \<circ> fst) ts))]))"

definition wait_of :: "jsval \<Rightarrow> rat" where
  "wait_of v = clampWait (if nullish v then Num (Fin 0) else if v = Bool True then Num (Fin DEFAULT_WAIT_MS) else v)"

definition poll_for :: "'w ann_env \<Rightarrow> ('w, 'm) mode_state_scheme poll \<Rightarrow> ann_filter \<Rightarrow> rat
    \<Rightarrow> ('w, 'm, annotation list option) mode_prog" where
  "poll_for A p f wait =
     (if wait > 0
      then seqp (modifies (poll_after p))
        (ret (waitForNew (poll_fuel p) (poll_items p) (poll_clock p) f (poll_start p + wait) 0))
      else bindp (list_anns (env_S A) f) (\<lambda>found. ret (Some found)))"

definition list_reply :: "'w ann_env \<Rightarrow> bool \<Rightarrow> rat \<Rightarrow> annotation list \<Rightarrow> ('w, 'm, jsval) mode_prog" where
  "list_reply A verbose wait found =
     bindp (maxSeq (env_S A)) (\<lambda>cursor. bindp (statusLine A) (\<lambda>line.
       ret (Obj ([(''success'', Bool True), (''count'', jnat (length found)),
          (''annotations'', Arr (map (\<lambda>it. Obj (toWire it verbose)) found)), (''cursor'', jnat cursor),
          (''waited_ms'', if wait = 0 then Undef else Num (Fin wait)),
          (''timed_out'', if wait > 0 \<and> found = [] then Bool True else Undef)] @ line))))"

definition listOp :: "'w ann_env \<Rightarrow> ('w, 'm) mode_state_scheme poll \<Rightarrow> jsval \<Rightarrow> ('w, 'm, jsval option) mode_prog" where
  "listOp A p args =
     (let wait = wait_of (getp ''wait_ms'' args)
      in bindp (poll_for A p (buildFilter args ''open'') wait) (\<lambda>found. case found of
          None \<Rightarrow> ret None
        | Some its \<Rightarrow> bindp (list_reply A (truthy (getp ''verbose'' args)) wait its) (\<lambda>r. ret (Some r))))"

definition clearOp :: "'w ann_env \<Rightarrow> jsval \<Rightarrow> ('w, 'm, jsval) mode_prog" where
  "clearOp A args = bindp (remove_anns (env_S A) (buildFilter args ''all'')) (\<lambda>(removed, remaining).
     seqp (syncAll (env_C A) (env_S A) (env_P A) (env_K A))
       (ret (Obj [(''success'', Bool True), (''cleared'', jnat removed), (''remaining'', jnat remaining)])))"

definition hasTargeting :: "jsval \<Rightarrow> bool" where
  "hasTargeting args \<longleftrightarrow> idsOf args \<noteq> Null \<or> truthy (getp ''url'' args) \<or> \<not> nullish (getp ''tabId'' args)
     \<or> \<not> nullish (getp ''since'' args)"

definition patch_changes :: "jsval \<Rightarrow> string option \<Rightarrow> ann_changes" where
  "patch_changes args status =
     \<lparr>ch_status = (case status of None \<Rightarrow> Undef | Some s \<Rightarrow> Str s),
      ch_comment = (if nullish (getp ''comment'' args) then Undef else getp ''comment'' args),
      ch_note = (if nullish (getp ''note'' args) then Undef else getp ''note'' args)\<rparr>"

definition patchOp :: "'w ann_env \<Rightarrow> jsval \<Rightarrow> string option \<Rightarrow> ('w, 'm, jsval) mode_prog" where
  "patchOp A args status =
     (if \<not> hasTargeting args \<and> \<not> truthy (getp ''all'' args) then throw NeedsTargeting
      else if status = None \<and> nullish (getp ''note'' args) \<and> nullish (getp ''comment'' args) then throw NothingToChange
      else bindp (patch (env_S A) (buildFilter args ''all'') (patch_changes args status) (env_now A)) (\<lambda>updated.
        seqp (syncAll (env_C A) (env_S A) (env_P A) (env_K A))
          (ret (Obj [(''success'', Bool True), (''updated'', jnat (length updated)),
             (''annotations'', Arr (map (\<lambda>it. Obj (toWire it False)) updated))]))))"

text \<open>\<^verbatim>\<open>String(shot).replace(/^data:[^,]*,/, "")\<close>.\<close>

definition strip_data_url :: "string \<Rightarrow> string" where
  "strip_data_url s = (if prefix ''data:'' s \<and> CHR '','' \<in> set s then tl (dropWhile (\<lambda>c. c \<noteq> CHR '','') s) else s)"

definition screenshotOp :: "'w ann_env \<Rightarrow> jsval \<Rightarrow> ('w, 'm, jsval) mode_prog" where
  "screenshotOp A args =
     bindp (find_annotation (env_S A) (wanted_id args) ScreenshotNeedsId) (\<lambda>ann.
     bindp (getShot (env_S A) (wanted_id args)) (\<lambda>shot. case shot of
        None \<Rightarrow> throw (NoScreenshot (wanted_id args))
      | Some s \<Rightarrow> ret (Obj [(''success'', Bool True), (''ann_id'', Str (ann_id ann)), (''format'', Str ''jpeg''),
          (''file_name'', Str (''annotation_'' @ ann_id ann)), (''data'', Str (strip_data_url s))])))"

definition statsOp :: "'w ann_env \<Rightarrow> ('w, 'm, jsval) mode_prog" where
  "statsOp A = bindp (summary (env_S A)) (\<lambda>sm. bindp (activeTabs (env_C A)) (\<lambda>ts.
     ret (Obj ([(''success'', Bool True)] @ stats_json sm @ [(''annotating'', active_json ts)]))))"

definition get_args :: "jsval \<Rightarrow> jsval" where
  "get_args args = Obj (spread (own_props args)
     [(''status'', Str ''all''), (''verbose'', Bool (getp ''verbose'' args \<noteq> Bool False))])"

definition returning :: "('s, 'e, 'a) prog \<Rightarrow> ('s, 'e, 'a option) prog" where
  "returning m = bindp m (\<lambda>x. ret (Some x))"

definition annotations :: "'w ann_env \<Rightarrow> ('w, 'm) mode_state_scheme poll \<Rightarrow> jsval \<Rightarrow> ('w, 'm, jsval option) mode_prog" where
  "annotations A p args =
     (let op = js_lower (to_string (js_or (getp ''op'' args) (Str ''list'')))
      in if op = ''list'' then listOp A p args
         else if op = ''get'' then listOp A p (get_args args)
         else if op = ''clear'' \<or> op = ''delete'' then returning (clearOp A args)
         else if op = ''resolve'' then returning (patchOp A args (Some ''resolved''))
         else if op = ''reopen'' then returning (patchOp A args (Some ''open''))
         else if op = ''note'' then returning (patchOp A args None)
         else if op = ''screenshot'' then returning (screenshotOp A args)
         else if op = ''stats'' then returning (statsOp A)
         else throw (UnknownAnnotationsOp op))"

end
