(* ===== verification/AnnModeProps.thy ===== *)
theory AnnModeProps
  imports Annotate
begin

text \<open>
  Annotation mode and its tools: the screenshot region stays inside the capture, the mode survives a
  restart of the service worker, the event that makes a fresh worker forget it, and which changes the
  tool refuses.
\<close>

section \<open>Screenshots\<close>

definition inside :: "nat \<Rightarrow> nat \<Rightarrow> rat \<times> rat \<times> rat \<times> rat \<Rightarrow> bool" where
  "inside bw bh r \<longleftrightarrow> (case r of (sx, sy, sw, sh) \<Rightarrow>
     0 \<le> sx \<and> 0 \<le> sy \<and> sx + sw \<le> of_nat bw \<and> sy + sh \<le> of_nat bh \<and> 0 < sw \<and> 0 < sh)"

lemma inside_whole: "0 < bw \<Longrightarrow> 0 < bh \<Longrightarrow> inside bw bh (whole bw bh)"
  by (simp add: inside_def whole_def)

lemma inside_region: "0 < bw \<Longrightarrow> 0 < bh \<Longrightarrow> inside bw bh (region bw bh input)"
proof -
  assume b: "0 < bw" "0 < bh"
  have "inside bw bh (cut bw bh x y w h)" for x y w h
    using inside_whole [OF b] by (auto simp: cut_def inside_def Let_def min_def split: if_splits)
  then show ?thesis
    using inside_whole [OF b] by (simp add: region_def Let_def split: option.splits)
qed

lemma out_bounds:
  fixes e m :: rat
  assumes "0 < e" "e \<le> m"
  shows "1 \<le> max 1 (js_round (e * min 1 (SHOT_MAX_EDGE / m))) \<and> max 1 (js_round (e * min 1 (SHOT_MAX_EDGE / m))) \<le> 1280"
proof -
  have "e * min 1 (SHOT_MAX_EDGE / m) \<le> e * (SHOT_MAX_EDGE / m)"
    using assms by (intro mult_left_mono) simp_all
  also have "\<dots> = SHOT_MAX_EDGE * (e / m)" by simp
  also have "\<dots> \<le> SHOT_MAX_EDGE * 1"
    using assms by (intro mult_left_mono) (simp_all add: SHOT_MAX_EDGE_def)
  finally have "e * min 1 (SHOT_MAX_EDGE / m) + 1 / 2 < 1281" by (simp add: SHOT_MAX_EDGE_def)
  then have "js_round (e * min 1 (SHOT_MAX_EDGE / m)) < 1281"
    unfolding js_round_def by (simp add: floor_less_iff)
  then show ?thesis by simp
qed

text \<open>
  Whatever rectangle, viewport and scale a page reports, the region cut out of the captured bitmap is
  not empty and lies inside it, and the image drawn from it is at least one and at most 1280 pixels on
  each side.
\<close>

lemma crop_inside_capture:
  assumes "0 < bw" "0 < bh"
  shows "let c = shot_crop bw bh input
    in 0 \<le> crop_x c \<and> 0 \<le> crop_y c \<and> 0 < crop_w c \<and> 0 < crop_h c
     \<and> crop_x c + crop_w c \<le> of_nat bw \<and> crop_y c + crop_h c \<le> of_nat bh
     \<and> 1 \<le> out_w c \<and> out_w c \<le> 1280 \<and> 1 \<le> out_h c \<and> out_h c \<le> 1280"
proof -
  obtain sx sy sw sh where r: "region bw bh input = (sx, sy, sw, sh)" by (cases "region bw bh input")
  with inside_region [OF assms, of input]
  have i: "0 \<le> sx" "0 \<le> sy" "sx + sw \<le> of_nat bw" "sy + sh \<le> of_nat bh" "0 < sw" "0 < sh"
    by (simp_all add: inside_def)
  have w: "sw \<le> max sw sh" "sh \<le> max sw sh" by simp_all
  from i out_bounds [OF i(5) w(1)] out_bounds [OF i(6) w(2)] show ?thesis
    unfolding shot_crop_def r Let_def prod.case by simp
qed

lemma crop_inside_capture_witness:
  "out_w (shot_crop 4000 3000 (Obj [])) \<le> 1280 \<and> crop_w (shot_crop 4000 3000 (Obj [])) = 4000"
  using crop_inside_capture [of 4000 3000 "Obj []"]
  by (simp add: Let_def shot_crop_def region_def whole_def getp_def own_props_def truthy_def)

section \<open>Restarting the service worker\<close>

text \<open>What is done to a page does not touch the extension's storage or the set of open tabs.\<close>

definition mode_view :: "'w chrome \<Rightarrow> ('w, 'm) mode_state_scheme
    \<Rightarrow> (string \<Rightarrow> jsval option) \<times> (int \<Rightarrow> tab option) \<times> int list \<times> bool" where
  "mode_view C st = (storage_get C (world st), tabs_get C (world st), modeActive st, modeRestored st)"

locale quiet_page =
  fixes C :: "'w chrome" and P :: "'w page_api"
  assumes inject_storage: "storage_get C (snd (page_inject P t w)) k = storage_get C w k"
    and inject_tabs: "tabs_get C (snd (page_inject P t w)) u = tabs_get C w u"
    and broadcast_storage: "storage_get C (page_broadcast P t m w) k = storage_get C w k"
    and broadcast_tabs: "tabs_get C (page_broadcast P t m w) u = tabs_get C w u"
    and send_storage: "storage_get C (snd (page_send P t fr m w)) k = storage_get C w k"
    and send_tabs: "tabs_get C (snd (page_send P t fr m w)) u = tabs_get C w u"
begin

lemma inject_view: "mode_view C (st\<lparr>world := snd (page_inject P t (world st))\<rparr>) = mode_view C st"
  by (simp add: mode_view_def fun_eq_iff inject_storage inject_tabs)

lemma broadcast_view: "mode_view C (st\<lparr>world := page_broadcast P t m (world st)\<rparr>) = mode_view C st"
  by (simp add: mode_view_def fun_eq_iff broadcast_storage broadcast_tabs)

lemma send_view: "mode_view C (st\<lparr>world := snd (page_send P t fr m (world st))\<rparr>) = mode_view C st"
  by (simp add: mode_view_def fun_eq_iff send_storage send_tabs)

lemma keeps_page:
  "keeps (\<lambda>st. mode_view C st = v) (inject P t)" "keeps (\<lambda>st. mode_view C st = v) (broadcast P t m)"
  "keeps (\<lambda>st. mode_view C st = v) (sendToFrame P t fr m)"
  using inject_view broadcast_view send_view
  by (auto intro!: keepsI simp: inject_def call_bool_def broadcast_def modifies_def sendToFrame_def split_beta)

lemma keeps_sync: "keeps (\<lambda>st. mode_view C st = v) (sync S P K t)"
proof -
  have "keeps (\<lambda>st. mode_view C st = v) (annotationsForUrl S K url)" for url
    unfolding annotationsForUrl_def list_anns_def load_def
    by (intro hoare_rules) (simp_all add: mode_view_def Let_def split: option.splits)
  then show ?thesis unfolding sync_def by (intro hoare_rules) (auto intro!: hoare_rules keeps_page split: prod.splits)
qed

lemma keeps_overlay: "keeps (\<lambda>st. mode_view C st = v) (show_overlay S P K t)"
  unfolding show_overlay_def by (intro hoare_rules keeps_page keeps_sync)

end

definition restart_worker :: "('w, 'm) mode_state_scheme \<Rightarrow> ('w, 'm) mode_state_scheme" where
  "restart_worker st = st\<lparr>attached := [], enabledDomains := [], refStore := [], sessionMap := [], ann_cache := None, shots := [],
     revision := 0, modeActive := [], modeFrames := [], modeRestored := False\<rparr>"

lemma tab_number_jint [simp]: "tab_number (jint i) = Some i"
  by (simp add: tab_number_def is_int_rat_def)

lemma live_saved_ints: "saved_modes C w = map jint ts \<Longrightarrow> live_saved C w = filter (\<lambda>t. tabs_get C w t \<noteq> None) ts"
proof -
  assume s: "saved_modes C w = map jint ts"
  show ?thesis unfolding live_saved_def s by (induction ts) simp_all
qed

lemma isActive_result: "fst (isActive C t st) =
    Inr (t \<in> set (modeActive st) \<or> \<not> modeRestored st \<and> t \<in> set (live_saved C (world st)))"
  by (auto simp: isActive_def restore_def prog_defs)

lemma isActive_restart: "fst (isActive C t (restart_worker st)) = Inr (t \<in> set (live_saved C (world st)))"
  by (simp add: isActive_result restart_worker_def)

lemma persist_modes:
  assumes "browser C" "\<And>kvs w. fst (storage_set C kvs w)"
  shows "\<exists>w. persistModes C st = (Inr (), st\<lparr>world := w\<rparr>) \<and> saved_modes C w = map jint (modeActive st)
    \<and> tabs_get C w = tabs_get C (world st)"
proof -
  note storage_keeps_tabs = browser.storage_keeps_tabs [OF assms(1)]
  note set_get = browser_storage.set_get [OF browser.axioms(2) [OF assms(1)]]
  let ?kv = "(KEY_MODES, Arr (map jint (modeActive st)))"
  obtain w where w: "storage_set C [?kv] (world st) = (True, w)"
    using assms(2) [of "[?kv]" "world st"] by (cases "storage_set C [?kv] (world st)") simp
  have "tabs_get C w u = tabs_get C (world st) u" for u
    using storage_keeps_tabs [of "[?kv]" "world st" u] w by simp
  moreover have "saved_modes C w = map jint (modeActive st)"
    using set_get [OF w] by (simp add: saved_modes_def)
  ultimately show ?thesis using w
    by (auto simp: persistModes_def bindp_def reads_def catchp_def call_bool_def)
qed


lemma view_of_run:
  assumes "keeps (\<lambda>s. mode_view C s = mode_view C st) m" "m st = (r, st')"
  shows "storage_get C (world st') = storage_get C (world st)" "tabs_get C (world st') = tabs_get C (world st)"
    "modeActive st' = modeActive st" "modeRestored st' = modeRestored st"
  using keepsD [OF assms(1), of st] assms(2) by (simp_all add: mode_view_def)

lemma saved_modes_cong: "storage_get C w = storage_get C w' \<Longrightarrow> saved_modes C w = saved_modes C w'"
  by (simp add: saved_modes_def)

text \<open>What the restored set is.\<close>

definition restored_set :: "'w chrome \<Rightarrow> ('w, 'm) mode_state_scheme \<Rightarrow> int list" where
  "restored_set C st = (if modeRestored st then modeActive st else sadds (live_saved C (world st)) (modeActive st))"

lemma restore_run: "restore C st = (Inr (), st\<lparr>modeRestored := True, modeActive := restored_set C st\<rparr>)"
  by (simp add: restore_def modifies_def restored_set_def)

lemma mode_start_run:
  assumes "browser C" "quiet_page C P" "\<And>kvs w. fst (storage_set C kvs w)"
    and "mode_start C S P K t st = (Inr tb, st')"
  shows "saved_modes C (world st') = map jint (sadd t (restored_set C st)) \<and> tabs_get C (world st') = tabs_get C (world st)
    \<and> modeActive st' = sadd t (restored_set C st) \<and> modeRestored st' \<and> tabs_get C (world st) t = Some tb"
proof -
  let ?s1 = "st\<lparr>modeRestored := True, modeActive := restored_set C st\<rparr>"
  let ?s2 = "st\<lparr>modeRestored := True, modeActive := sadd t (restored_set C st)\<rparr>"
  have tb: "tabs_get C (world st) t = Some tb" "assertAnnotatable tb ?s1 = (Inr (), ?s1)"
    and run: "seqp (persistModes C) (seqp (show_overlay S P K t) (ret tb)) ?s2 = (Inr tb, st')"
    using assms(4)
    by (auto simp: mode_start_def seqp_def bindp_def restore_run query_opt_def modifies_def assertAnnotatable_def Let_def
        ret_def throw_def split: option.splits if_splits sum.splits prod.splits)
  obtain w where p: "persistModes C ?s2 = (Inr (), ?s2\<lparr>world := w\<rparr>)"
    "saved_modes C w = map jint (sadd t (restored_set C st))" "tabs_get C w = tabs_get C (world st)"
    using persist_modes [OF assms(1,3), of ?s2] by auto
  from run have o: "show_overlay S P K t (?s2\<lparr>world := w\<rparr>) = (Inr (), st')"
    by (auto simp: seqp_def bindp_def p(1) ret_def split: sum.splits prod.splits)
  note v = view_of_run [OF quiet_page.keeps_overlay [OF assms(2)] o]
  show ?thesis using v p(2,3) tb(1) saved_modes_cong [OF v(1)] by simp
qed

lemma mode_stop_run:
  assumes "browser C" "quiet_page C P" "\<And>kvs w. fst (storage_set C kvs w)"
    and "mode_stop C P t st = (Inr b, st')"
  shows "saved_modes C (world st') = map jint (sdel t (restored_set C st)) \<and> tabs_get C (world st') = tabs_get C (world st)
    \<and> modeActive st' = sdel t (restored_set C st) \<and> b = (t \<in> set (restored_set C st)) \<and> frames_of t st' = []"
proof -
  let ?s2 = "st\<lparr>modeRestored := True, modeActive := sdel t (restored_set C st), modeFrames := mdel t (modeFrames st)\<rparr>"
  obtain w where p: "persistModes C ?s2 = (Inr (), ?s2\<lparr>world := w\<rparr>)"
    "saved_modes C w = map jint (sdel t (restored_set C st))" "tabs_get C w = tabs_get C (world st)"
    using persist_modes [OF assms(1,3), of ?s2] by auto
  have st': "st' = ?s2\<lparr>world := page_broadcast P t (SetMode False) w\<rparr>" "b = (t \<in> set (restored_set C st))"
    using assms(4) p(1)
    by (auto simp: mode_stop_def seqp_def bindp_def restore_run reads_def modifies_def broadcast_def ret_def)
  have w: "storage_get C (page_broadcast P t (SetMode False) w) = storage_get C w"
    "tabs_get C (page_broadcast P t (SetMode False) w) = tabs_get C w"
    by (auto simp: quiet_page.broadcast_storage [OF assms(2)] quiet_page.broadcast_tabs [OF assms(2)])
  show ?thesis using p(2,3) st'(2) w(2) saved_modes_cong [OF w(1)] by (simp add: st'(1) frames_of_def)
qed

text \<open>
  C8: Annotation mode survives a restart of the service worker when storage takes its writes: after a
  start the restarted worker finds the tab in the mode, and every other open tab exactly as it was; after
  a stop it finds the tab out of it, and every other open tab as it was.
\<close>

theorem mode_survives_restart:
  assumes "browser C" "quiet_page C P" "\<And>kvs w. fst (storage_set C kvs w)"
  shows "(\<forall>S K tb st'. mode_start C S P K t st = (Inr tb, st') \<longrightarrow>
       (\<forall>u. tabs_get C (world st) u \<noteq> None \<longrightarrow>
          fst (isActive C u (restart_worker st')) = (if u = t then Inr True else fst (isActive C u st))))
    \<and> (\<forall>b st'. mode_stop C P t st = (Inr b, st') \<longrightarrow>
       (\<forall>u. tabs_get C (world st) u \<noteq> None \<longrightarrow>
          fst (isActive C u (restart_worker st')) = (if u = t then Inr False else fst (isActive C u st))))"
proof -
  have r: "fst (isActive C u st) = Inr (u \<in> set (restored_set C st))" for u
    by (auto simp: isActive_result restored_set_def)
  have "fst (isActive C u (restart_worker st')) = (if u = t then Inr True else fst (isActive C u st))"
    if "mode_start C S P K t st = (Inr tb, st')" "tabs_get C (world st) u \<noteq> None" for S K tb st' u
    using mode_start_run [OF assms(1-3) that(1)] that(2) unfolding isActive_restart r
    by (auto simp: live_saved_ints)
  moreover have "fst (isActive C u (restart_worker st')) = (if u = t then Inr False else fst (isActive C u st))"
    if "mode_stop C P t st = (Inr b, st')" "tabs_get C (world st) u \<noteq> None" for b st' u
    using mode_stop_run [OF assms(1-3) that(1)] that(2) unfolding isActive_restart r
    by (auto simp: live_saved_ints)
  ultimately show ?thesis by blast
qed

text \<open>
  C20: A fresh worker forgets the mode when it is woken by the closing of any other tab.  The handler of
  that event does not read the stored set first, so it persists the empty one: a tab that was in the mode,
  and that the worker would otherwise have restored, is out of it from then on.
\<close>

theorem tab_close_on_fresh_worker_erases_modes:
  assumes "browser C" "\<And>kvs w. fst (storage_set C kvs w)"
    and "modeActive st = []" "\<not> modeRestored st" "jint t \<in> set (saved_modes C (world st))" "tabs_get C (world st) t \<noteq> None"
  shows "fst (isActive C t st) = Inr True \<and> saved_modes C (world (snd (mode_tabRemoved C u st))) = []
    \<and> fst (isActive C t (snd (mode_tabRemoved C u st))) = Inr False"
proof -
  have "t \<in> set (live_saved C (world st))"
    using assms(5,6) by (force simp: live_saved_def)
  then have a: "fst (isActive C t st) = Inr True" by (simp add: isActive_result assms(3,4))
  let ?s = "st\<lparr>modeActive := [], modeFrames := mdel u (modeFrames st)\<rparr>"
  obtain w where w: "persistModes C ?s = (Inr (), ?s\<lparr>world := w\<rparr>)" "saved_modes C w = map jint []"
    using persist_modes [OF assms(1,2), of ?s] by auto
  have run: "mode_tabRemoved C u st = (Inr (), ?s\<lparr>world := w\<rparr>)"
    using w(1) by (simp add: mode_tabRemoved_def seqp_def bindp_modifies assms(3) sdel_def)
  have "live_saved C w = []" using live_saved_ints [OF w(2)] by simp
  then have "fst (isActive C t (?s\<lparr>world := w\<rparr>)) = Inr False" by (simp add: isActive_result)
  with a w(2) show ?thesis by (simp add: run)
qed

section \<open>The mock browser\<close>

text \<open>The mock of the test suite has no page scripts: injection succeeds, messages are not answered.\<close>

definition mock_page :: "mock page_api" where
  "mock_page = \<lparr>page_inject = (\<lambda>_ m. (True, m)), page_broadcast = (\<lambda>_ _ m. m), page_send = (\<lambda>_ _ _ m. (Null, m)),
     page_capture = (\<lambda>_ _. None), page_encode = (\<lambda>_ _. []), page_front = mock_query\<rparr>"

interpretation mocked_page: quiet_page mock_chrome mock_page
  by unfold_locales (simp_all add: mock_page_def)

lemma mock_accepts: "fst (storage_set mock_chrome kvs w)"
  by (simp add: mock_chrome_def mock_storage_set_def)

definition mode_start_state :: "jsval list \<Rightarrow> mock mode_state" where
  "mode_start_state saved = \<lparr>world = (initial_mock [])\<lparr>m_storage := [(KEY_MODES, Arr saved)]\<rparr>, attached = [], enabledDomains = [],
     refStore = [], sessionMap = [], dlgPolicy = [], dlgRecent = [], netBuffers = [], capturing = [], ann_cache = None, shots = [], revision = 0, modeActive = [], modeFrames = [], modeRestored = False\<rparr>"

lemma mode_survives_restart_witness:
  "\<exists>st'. mode_stop mock_chrome mock_page 7 (mode_start_state [jint 7]) = (Inr True, st')
     \<and> fst (isActive mock_chrome 7 (restart_worker st')) = Inr False"
proof -
  have "fst (mode_stop mock_chrome mock_page 7 (mode_start_state [jint 7])) = Inr True" by code_simp
  note run = run_eq [OF this]
  have "tabs_get mock_chrome (world (mode_start_state [jint 7])) 7 \<noteq> None" by code_simp
  with mode_survives_restart [OF mocked.browser_axioms mocked_page.quiet_page_axioms mock_accepts, of 7 "mode_start_state [jint 7]", THEN conjunct2] run
  have "fst (isActive mock_chrome 7 (restart_worker (snd (mode_stop mock_chrome mock_page 7 (mode_start_state [jint 7]))))) = Inr False"
    by (metis (no_types))
  with run show ?thesis by blast
qed

lemma tab_close_on_fresh_worker_erases_modes_witness:
  "fst (isActive mock_chrome 7 (mode_start_state [jint 7])) = Inr True
   \<and> fst (isActive mock_chrome 7 (snd (mode_tabRemoved mock_chrome 99 (mode_start_state [jint 7])))) = Inr False"
proof -
  have "modeActive (mode_start_state [jint 7]) = []" "\<not> modeRestored (mode_start_state [jint 7])"
    "jint 7 \<in> set (saved_modes mock_chrome (world (mode_start_state [jint 7])))"
    by (simp_all add: mode_start_state_def saved_modes_def mock_chrome_def mock_storage_get_def)
  moreover have "tabs_get mock_chrome (world (mode_start_state [jint 7])) 7 \<noteq> None" by code_simp
  ultimately show ?thesis
    using tab_close_on_fresh_worker_erases_modes [OF mocked.browser_axioms mock_accepts, of "mode_start_state [jint 7]" 7 99]
    by blast
qed

section \<open>What the tool refuses\<close>

definition changing_ops :: "string list" where
  "changing_ops = [''resolve'', ''reopen'', ''note'']"



end
