(* ===== verification/Cookies.thy ===== *)
theory Cookies
  imports Sessions
begin

text \<open>
  \<^verbatim>\<open>src/tools/cookies.js\<close>: the cookies of the active tab or of the whole profile, filtered by domain, sorted
  and shaped.  \<open>L a b\<close> stands for \<^verbatim>\<open>a.localeCompare(b)\<close>, which depends on the browser's locale.
\<close>

section \<open>Domains\<close>

definition strip_dot :: "string \<Rightarrow> string" where
  "strip_dot s = (case strip_char (CHR ''.'') s of None \<Rightarrow> s | Some t \<Rightarrow> t)"

definition matchesDomain :: "jsval \<Rightarrow> jsval \<Rightarrow> bool" where
  "matchesDomain cookieDomain want =
     (let c = strip_dot (js_lower (to_string (js_or cookieDomain (Str []))));
          w = strip_dot (js_lower (to_string want))
      in c = w \<or> ends_with c (CHR ''.'' # w))"

section \<open>One cookie\<close>

definition cookie_shape :: "jsval \<Rightarrow> (string \<times> jsval) list" where
  "cookie_shape c =
     (let e = getp ''expires'' c;
          persistent = (case e of Num n \<Rightarrow> num_gt n (Fin 0) | _ \<Rightarrow> False)
      in [(''name'', getp ''name'' c), (''value'', getp ''value'' c), (''domain'', getp ''domain'' c),
          (''path'', getp ''path'' c), (''expires'', if persistent then e else Null), (''session'', Bool (\<not> persistent)),
          (''httpOnly'', Bool (truthy (getp ''httpOnly'' c))), (''secure'', Bool (truthy (getp ''secure'' c))),
          (''sameSite'', or_null (getp ''sameSite'' c))])"

section \<open>Order\<close>

fun insert_by :: "('a \<Rightarrow> 'a \<Rightarrow> int) \<Rightarrow> 'a \<Rightarrow> 'a list \<Rightarrow> 'a list" where
  "insert_by cmp x [] = [x]"
| "insert_by cmp x (y # ys) = (if cmp x y \<le> 0 then x # y # ys else y # insert_by cmp x ys)"

text \<open>\<^verbatim>\<open>Array.prototype.sort\<close>, which is stable.\<close>

definition sort_by :: "('a \<Rightarrow> 'a \<Rightarrow> int) \<Rightarrow> 'a list \<Rightarrow> 'a list" where
  "sort_by cmp xs = foldr (insert_by cmp) xs []"

definition text_of :: "string \<Rightarrow> jsval \<Rightarrow> string" where
  "text_of k c = to_string (js_or (getp k c) (Str []))"

definition cookie_cmp :: "(string \<Rightarrow> string \<Rightarrow> int) \<Rightarrow> jsval \<Rightarrow> jsval \<Rightarrow> int" where
  "cookie_cmp L a b =
     (let d = L (text_of ''domain'' a) (text_of ''domain'' b)
      in if d \<noteq> 0 then d else L (text_of ''name'' a) (text_of ''name'' b))"

lemma mset_insert_by [simp]: "mset (insert_by cmp x xs) = add_mset x (mset xs)"
  by (induction xs) simp_all

lemma mset_sort_by [simp]: "mset (sort_by cmp xs) = mset xs"
  by (induction xs) (simp_all add: sort_by_def)

lemma set_sort_by [simp]: "set (sort_by cmp xs) = set xs"
  by (metis mset_sort_by set_mset_mset)

lemma sorted_insert_by:
  assumes "\<And>a b. cmp a b \<le> 0 \<or> cmp b a \<le> 0" "\<And>a b c. cmp a b \<le> 0 \<Longrightarrow> cmp b c \<le> 0 \<Longrightarrow> cmp a c \<le> 0"
  shows "sorted_wrt (\<lambda>a b. cmp a b \<le> 0) xs \<Longrightarrow> sorted_wrt (\<lambda>a b. cmp a b \<le> 0) (insert_by cmp x xs)"
proof (induction xs)
  case (Cons y ys)
  have "set (insert_by cmp x ys) = insert x (set ys)" by (metis mset_insert_by set_mset_add_mset_insert set_mset_mset)
  moreover have "cmp x y \<le> 0 \<or> cmp y x \<le> 0" by (rule assms(1))
  ultimately show ?case using Cons assms(2) [of x y] by auto
qed simp

lemma sorted_sort_by:
  assumes "\<And>a b. cmp a b \<le> 0 \<or> cmp b a \<le> 0" "\<And>a b c. cmp a b \<le> 0 \<Longrightarrow> cmp b c \<le> 0 \<Longrightarrow> cmp a c \<le> 0"
  shows "sorted_wrt (\<lambda>a b. cmp a b \<le> 0) (sort_by cmp xs)"
  by (induction xs) (simp_all add: sort_by_def sorted_insert_by [OF assms])

section \<open>The tool\<close>

definition cookie_list :: "jsval \<Rightarrow> jsval list" where
  "cookie_list res = (case getp ''cookies'' res of Arr cs \<Rightarrow> cs | _ \<Rightarrow> [])"

definition url_params :: "jsval \<Rightarrow> jsval" where
  "url_params urls = Obj (if truthy urls then [(''urls'', case urls of Arr us \<Rightarrow> Arr us | u \<Rightarrow> Arr [Str (to_string u)])] else [])"

definition fetch_cookies :: "'w chrome \<Rightarrow> jsval \<Rightarrow> int \<Rightarrow> ('w, 'm, jsval list) sess_prog" where
  "fetch_cookies C args t =
     (let cmd = js_or (getp ''cmd'' args) (Str ''get'')
      in if cmd = Str ''all'' then bindp (cdp_send C (TabT t) ''Network.getAllCookies'' Undef) (\<lambda>r. ret (cookie_list r))
         else if cmd = Str ''get''
         then bindp (cdp_send C (TabT t) ''Network.getCookies'' (url_params (getp ''urls'' args))) (\<lambda>r. ret (cookie_list r))
         else throw (UnknownCookiesCmd cmd))"

definition wanted_cookies :: "(string \<Rightarrow> string \<Rightarrow> int) \<Rightarrow> jsval \<Rightarrow> jsval list \<Rightarrow> jsval list" where
  "wanted_cookies L domain cs =
     sort_by (cookie_cmp L) (if truthy domain then filter (\<lambda>c. matchesDomain (getp ''domain'' c) domain) cs else cs)"

definition cookie_header :: "jsval list \<Rightarrow> string" where
  "cookie_header cs = join_with ''; '' (map (\<lambda>c. to_string (getp ''name'' c) @ ''='' @ to_string (getp ''value'' c)) cs)"

definition cookies :: "'w chrome \<Rightarrow> (string \<Rightarrow> string \<Rightarrow> int) \<Rightarrow> jsval \<Rightarrow> string \<Rightarrow> ('w, 'm, jsval) sess_prog" where
  "cookies C L args session = bindp (getActiveTab session) (\<lambda>t.
     seqp (ensureDomain C (TabT t) ''Network'')
       (bindp (fetch_cookies C args t) (\<lambda>l.
          let cs = wanted_cookies L (getp ''domain'' args) l
          in ret (Obj [(''count'', jnat (length cs)), (''cookies'', Arr (map (Obj \<circ> cookie_shape) cs)),
                       (''header'', Str (cookie_header cs))]))))"

section \<open>What is returned\<close>

lemma strip_dot_cases: "strip_dot s = s \<or> s = CHR ''.'' # strip_dot s"
  by (cases s) (auto simp: strip_dot_def strip_char_def)

text \<open>
  A domain filter keeps exactly the cookies of the named domain and of the domains below it, on a
  label boundary, whatever the case and the leading dots; nothing is lost or repeated, and the result is
  ordered by domain and then name, whenever the browser's collation is a total preorder.
\<close>

lemma cookies_of_domain:
  assumes total: "\<And>a b. L a b \<le> 0 \<or> L b a \<le> 0"
    and trans: "\<And>a b c. L a b \<le> 0 \<Longrightarrow> L b c \<le> 0 \<Longrightarrow> L a c \<le> 0"
    and antisym: "\<And>a b. (L a b < 0) = (L b a > 0)"
    and domain: "domain \<noteq> []"
  defines "w \<equiv> strip_dot (js_lower domain)"
  shows "mset (wanted_cookies L (Str domain) cs)
      = {# c \<in># mset cs. let d = strip_dot (js_lower (text_of ''domain'' c)) in d = w \<or> (\<exists>p. d = p @ ''.'' @ w) #}
    \<and> sorted_wrt (\<lambda>a b. L (text_of ''domain'' a) (text_of ''domain'' b) \<le> 0) (wanted_cookies L (Str domain) cs)
    \<and> sorted_wrt (\<lambda>a b. text_of ''domain'' a = text_of ''domain'' b \<longrightarrow> L (text_of ''name'' a) (text_of ''name'' b) \<le> 0)
        (wanted_cookies L (Str domain) cs)"
proof -
  have m: "matchesDomain (getp ''domain'' c) (Str domain)
      \<longleftrightarrow> (let d = strip_dot (js_lower (text_of ''domain'' c)) in d = w \<or> (\<exists>p. d = p @ ''.'' @ w))" for c
    by (auto simp: matchesDomain_def Let_def text_of_def w_def ends_with_suffix suffix_def)
  have refl: "L a a = 0" for a using antisym [of a a] total [of a a] by linarith
  have cmp: "cookie_cmp L a b \<le> 0 \<longleftrightarrow> L (text_of ''domain'' a) (text_of ''domain'' b) < 0
      \<or> L (text_of ''domain'' a) (text_of ''domain'' b) = 0 \<and> L (text_of ''name'' a) (text_of ''name'' b) \<le> 0" for a b
    by (auto simp: cookie_cmp_def Let_def)
  have lt: "L a b < 0 \<Longrightarrow> L b c \<le> 0 \<Longrightarrow> L a c < 0" "L a b \<le> 0 \<Longrightarrow> L b c < 0 \<Longrightarrow> L a c < 0" for a b c
    using trans [of a b c] trans [of c a b] trans [of b c a] antisym [of a b] antisym [of b c] antisym [of a c]
      total [of a c] total [of c a] total[of a b] by (smt (verit))+
  have "cookie_cmp L a b \<le> 0 \<or> cookie_cmp L b a \<le> 0" for a b
    using total antisym unfolding cmp by (smt (verit))
  moreover have "cookie_cmp L a b \<le> 0 \<Longrightarrow> cookie_cmp L b c \<le> 0 \<Longrightarrow> cookie_cmp L a c \<le> 0" for a b c
    unfolding cmp using lt trans by (smt (verit))
  ultimately have s: "sorted_wrt (\<lambda>a b. cookie_cmp L a b \<le> 0) (wanted_cookies L (Str domain) cs)"
    unfolding wanted_cookies_def by (rule sorted_sort_by)
  have "mset (wanted_cookies L (Str domain) cs) = filter_mset (\<lambda>c. matchesDomain (getp ''domain'' c) (Str domain)) (mset cs)"
    using domain by (simp add: wanted_cookies_def truthy_def)
  moreover have "sorted_wrt (\<lambda>a b. L (text_of ''domain'' a) (text_of ''domain'' b) \<le> 0) (wanted_cookies L (Str domain) cs)"
    by (rule sorted_wrt_mono_rel [OF _ s]) (auto simp: cmp)
  moreover have "sorted_wrt (\<lambda>a b. text_of ''domain'' a = text_of ''domain'' b \<longrightarrow> L (text_of ''name'' a) (text_of ''name'' b) \<le> 0)
      (wanted_cookies L (Str domain) cs)"
    by (rule sorted_wrt_mono_rel [OF _ s]) (auto simp: cmp refl)
  ultimately show ?thesis by (simp add: m)
qed

lemma cookies_of_domain_witness:
  "mset (wanted_cookies (\<lambda>a b. int (length a) - int (length b)) (Str ''b.c'') [Obj [(''domain'', Str ''.A.b.C'')], Obj [(''domain'', Str ''ab.c'')]])
     = {# Obj [(''domain'', Str ''.A.b.C'')] #}"
proof -
  let ?L = "\<lambda>a b :: string. int (length a) - int (length b)"
  let ?cs = "[Obj [(''domain'', Str ''.A.b.C'')], Obj [(''domain'', Str ''ab.c'')]]"
  have d: "strip_dot (js_lower (text_of ''domain'' (Obj [(''domain'', Str ''.A.b.C'')]))) = ''a'' @ ''.'' @ ''b.c''"
    "strip_dot (js_lower (text_of ''domain'' (Obj [(''domain'', Str ''ab.c'')]))) = ''ab.c''"
    "strip_dot (js_lower ''b.c'') = ''b.c''"
    by code_simp+
  have n: "\<not> (\<exists>p. ''ab.c'' = p @ ''.'' @ ''b.c'')"
  proof
    assume "\<exists>p. ''ab.c'' = p @ ''.'' @ ''b.c''"
    then obtain p where p: "''ab.c'' = p @ ''.'' @ ''b.c''" ..
    then have "length ''ab.c'' = length (p @ ''.'' @ ''b.c'')" by (rule arg_cong)
    then have "p = []" by simp
    with p show False by simp
  qed
  have "mset (wanted_cookies ?L (Str ''b.c'') ?cs)
      = {# c \<in># mset ?cs. let d = strip_dot (js_lower (text_of ''domain'' c))
           in d = strip_dot (js_lower ''b.c'') \<or> (\<exists>p. d = p @ ''.'' @ strip_dot (js_lower ''b.c'')) #}"
    by (rule cookies_of_domain [of ?L, THEN conjunct1]) auto
  also have "\<dots> = {# Obj [(''domain'', Str ''.A.b.C'')] #}"
    using d n by (simp add: Let_def)
  finally show ?thesis .
qed

end
