(* ===== verification/Snapshot.thy ===== *)
theory Snapshot
  imports Sessions
begin

text \<open>
  \<^verbatim>\<open>src/tools/snapshot.js\<close>: the accessibility tree as an indented outline whose nodes carry \<^verbatim>\<open>@e\<close>
  references.  The nodes are the values the protocol returns; the recursive \<^verbatim>\<open>walk\<close> takes fuel, since nothing
  in the code stops it on a cyclic child relation, and \<open>None\<close> is fuel that ran out.
\<close>

section \<open>Text of a node\<close>

definition INTERACTIVE :: "string list" where
  "INTERACTIVE = [''button'', ''link'', ''textbox'', ''searchbox'', ''checkbox'', ''radio'', ''combobox'',
     ''listbox'', ''menuitem'', ''menuitemcheckbox'', ''menuitemradio'', ''tab'', ''switch'',
     ''slider'', ''spinbutton'', ''option'', ''textarea'', ''treeitem'']"

definition SKIP_ROLES :: "string list" where
  "SKIP_ROLES = [''none'', ''generic'', ''presentation'', ''InlineTextBox'']"

definition MAX_NODES :: nat where "MAX_NODES = 4000"

definition valOf :: "jsval \<Rightarrow> jsval" where
  "valOf f = (if truthy f \<and> getp ''value'' f \<noteq> Undef then getp ''value'' f else Str [])"

definition label :: "nat \<Rightarrow> jsval \<Rightarrow> string" where
  "label n f = take n (collapse (js_trim (to_string (js_or (valOf f) (Str [])))))"

definition ax_role :: "jsval \<Rightarrow> string" where
  "ax_role node = to_string (js_or (valOf (getp ''role'' node)) (Str []))"

definition ax_name :: "jsval \<Rightarrow> string" where
  "ax_name node = label 120 (getp ''name'' node)"

definition ax_value :: "jsval \<Rightarrow> string" where
  "ax_value node = label 80 (getp ''value'' node)"

definition shown :: "jsval \<Rightarrow> bool" where
  "shown node \<longleftrightarrow> \<not> (truthy (getp ''ignored'' node) \<or> ax_role node \<in> set SKIP_ROLES)
     \<and> (ax_name node \<noteq> [] \<or> ax_value node \<noteq> [] \<or> ax_role node \<in> set INTERACTIVE)"

text \<open>Backend node ids are integers.\<close>

definition backend_id :: "jsval \<Rightarrow> int option" where
  "backend_id node = (case getp ''backendDOMNodeId'' node of Num (Fin q) \<Rightarrow> Some \<lfloor>q\<rfloor> | _ \<Rightarrow> None)"

definition referenced :: "jsval \<Rightarrow> int option" where
  "referenced node = (if ax_role node \<in> set INTERACTIVE \<or> ax_name node \<noteq> [] then backend_id node else None)"

definition indent :: "nat \<Rightarrow> string" where
  "indent d = concat (replicate d ''  '')"

definition line_of :: "jsval \<Rightarrow> nat \<Rightarrow> string \<Rightarrow> string" where
  "line_of node depth ref =
     indent depth @ ''- '' @ (if ax_role node = [] then ''node'' else ax_role node)
     @ (if ax_name node \<noteq> [] then '' \"'' @ ax_name node @ ''\"'' else [])
     @ (if ax_value node \<noteq> [] then '' value=\"'' @ ax_value node @ ''\"'' else []) @ ref"

section \<open>The walk\<close>

record snap =
  snap_lines :: "string list"
  refMap :: ref_table
  refCounter :: nat
  emitted :: nat
  truncated :: bool

definition snap0 :: snap where
  "snap0 = \<lparr>snap_lines = [], refMap = [], refCounter = 0, emitted = 0, truncated = False\<rparr>"

definition emit :: "jsval \<Rightarrow> nat \<Rightarrow> snap \<Rightarrow> snap" where
  "emit node depth s = (case referenced node of
      None \<Rightarrow> s\<lparr>snap_lines := snap_lines s @ [line_of node depth []], emitted := emitted s + 1\<rparr>
    | Some b \<Rightarrow>
        (let n = refCounter s + 1
         in s\<lparr>refCounter := n, refMap := mput (show_nat n) b (refMap s),
              snap_lines := snap_lines s @ [line_of node depth ('' @e'' @ show_nat n)], emitted := emitted s + 1\<rparr>))"

definition child_ids :: "jsval \<Rightarrow> jsval list" where
  "child_ids node = (case getp ''childIds'' node of Arr cs \<Rightarrow> cs | _ \<Rightarrow> [])"

fun walk :: "nat \<Rightarrow> (jsval \<times> jsval) list \<Rightarrow> jsval \<Rightarrow> nat \<Rightarrow> snap \<Rightarrow> snap option"
  and walk_children :: "nat \<Rightarrow> (jsval \<times> jsval) list \<Rightarrow> jsval list \<Rightarrow> nat \<Rightarrow> snap \<Rightarrow> snap option" where
  "walk 0 byId node depth s = None"
| "walk (Suc k) byId node depth s =
     (if emitted s \<ge> MAX_NODES then Some (s\<lparr>truncated := True\<rparr>)
      else if shown node then walk_children k byId (child_ids node) (depth + 1) (emit node depth s)
      else walk_children k byId (child_ids node) depth s)"
| "walk_children k byId [] depth s = Some s"
| "walk_children k byId (c # cs) depth s =
     (case (case map_of byId c of None \<Rightarrow> Some s | Some child \<Rightarrow> walk k byId child depth s) of
        None \<Rightarrow> None | Some s' \<Rightarrow> walk_children k byId cs depth s')"

definition by_id :: "jsval list \<Rightarrow> (jsval \<times> jsval) list" where
  "by_id nodes = foldl (\<lambda>m n. mput (getp ''nodeId'' n) n m) [] nodes"

definition ax_roots :: "jsval list \<Rightarrow> jsval list" where
  "ax_roots nodes = filter (\<lambda>n. \<not> truthy (getp ''parentId'' n) \<or> map_of (by_id nodes) (getp ''parentId'' n) = None) nodes"

definition walk_all :: "nat \<Rightarrow> jsval list \<Rightarrow> snap option" where
  "walk_all k nodes = foldl (\<lambda>s r. case s of None \<Rightarrow> None | Some s \<Rightarrow> walk k (by_id nodes) r 0 s) (Some snap0) (ax_roots nodes)"

definition tree_text :: "snap \<Rightarrow> string" where
  "tree_text s = join_with [CHR 0x0A] (snap_lines s)
     @ (if truncated s then CHR 0x0A # ELLIPSIS @ '' (truncated at 4000 nodes)'' else [])"

section \<open>The tool\<close>

definition snap_target :: "jsval \<Rightarrow> int \<Rightarrow> debuggee \<times> refkey" where
  "snap_target frame t = (if truthy frame then (TargetT (to_string frame), FrameKey (to_string frame)) else (TabT t, TabKey t))"

definition snap_reply :: "'w chrome \<Rightarrow> nat \<Rightarrow> jsval \<Rightarrow> int \<Rightarrow> refkey \<Rightarrow> jsval \<Rightarrow> ('w, 'm, jsval option) sess_prog" where
  "snap_reply C k frame t refKey r = (case getp ''nodes'' r of
      Arr nodes \<Rightarrow>
        (case walk_all k nodes of
           None \<Rightarrow> ret None
         | Some s \<Rightarrow> seqp (modifies (\<lambda>st. st\<lparr>refStore := setRefs refKey (refMap s) (refStore st)\<rparr>))
             (bindp (query_opt (\<lambda>w. tabs_get C w t)) (\<lambda>tb.
                ret (Some (Obj [(''url'', Str (tab_url tb)), (''title'', Str (tab_title tb)), (''frame'', or_null frame),
                  (''refCount'', jnat (refCounter s)), (''tree'', Str (tree_text s))])))))
    | _ \<Rightarrow> throw (TypeError ''nodes is not iterable''))"

definition snapshot :: "'w chrome \<Rightarrow> nat \<Rightarrow> jsval \<Rightarrow> string \<Rightarrow> ('w, 'm, jsval option) sess_prog" where
  "snapshot C k args session = bindp (getActiveTab session) (\<lambda>t.
     let frame = getp ''frame'' args; (target, refKey) = snap_target frame t
     in seqp (ensureDomain C target ''DOM'') (seqp (ensureDomain C target ''Accessibility'')
       (bindp (cdp_send C target ''Accessibility.getFullAXTree'' (Obj [])) (snap_reply C k frame t refKey))))"

section \<open>References\<close>

text \<open>The references are numbered from 1, and each stands for the node printed on its line.\<close>

definition named :: "jsval set \<Rightarrow> string list \<Rightarrow> ref_table \<Rightarrow> bool" where
  "named N ls m \<longleftrightarrow> (\<forall>n b. map_of m (show_nat n) = Some b \<longrightarrow>
     (\<exists>node \<in> N. \<exists>depth. line_of node depth ('' @e'' @ show_nat n) \<in> set ls \<and> referenced node = Some b))"

definition snap_ok :: "jsval set \<Rightarrow> snap \<Rightarrow> bool" where
  "snap_ok N s \<longleftrightarrow> keys (refMap s) = map show_nat [1..<Suc (refCounter s)]
     \<and> refCounter s \<le> emitted s \<and> emitted s = length (snap_lines s) \<and> emitted s \<le> MAX_NODES
     \<and> named N (snap_lines s) (refMap s)"

lemma snap_ok_start: "snap_ok N snap0"
  by (simp add: snap_ok_def snap0_def named_def)

lemma snap_ok_truncated: "snap_ok N s \<Longrightarrow> snap_ok N (s\<lparr>truncated := b\<rparr>)"
  by (simp add: snap_ok_def)

lemma named_more: "named N ls m \<Longrightarrow> named N (ls @ [l]) m"
  unfolding named_def by (metis UnI1 set_append)

lemma named_put:
  assumes "named N ls m" "node \<in> N" "referenced node = Some b"
  shows "named N (ls @ [line_of node depth ('' @e'' @ show_nat n)]) (mput (show_nat n) b m)"
  unfolding named_def
proof (intro allI impI)
  fix k c
  assume k: "map_of (mput (show_nat n) b m) (show_nat k) = Some c"
  show "\<exists>x \<in> N. \<exists>d. line_of x d ('' @e'' @ show_nat k) \<in> set (ls @ [line_of node depth ('' @e'' @ show_nat n)]) \<and> referenced x = Some c"
  proof (cases "k = n")
    case True
    with k assms(2,3) show ?thesis by (intro bexI [of _ node] exI [of _ depth]) simp_all
  next
    case False
    with k have "map_of m (show_nat k) = Some c" by simp
    with named_more [OF assms(1)] show ?thesis unfolding named_def by blast
  qed
qed

lemma fresh_ref: "keys m = map show_nat [1..<Suc n] \<Longrightarrow> show_nat (Suc n) \<notin> fst ` set m"
proof
  assume k: "keys m = map show_nat [1..<Suc n]" and "show_nat (Suc n) \<in> fst ` set m"
  then have "show_nat (Suc n) \<in> set (map show_nat [1..<Suc n])" by (metis list.set_map)
  then show False by auto
qed

lemma snap_ok_emit:
  assumes "snap_ok N s" "node \<in> N" "emitted s < MAX_NODES"
  shows "snap_ok N (emit node depth s)"
proof (cases "referenced node")
  case None
  with assms show ?thesis by (simp add: snap_ok_def emit_def named_more)
next
  case (Some b)
  have "keys (mput (show_nat (Suc (refCounter s))) b (refMap s)) = map show_nat [1..<Suc (Suc (refCounter s))]"
  proof -
    have k: "keys (refMap s) = map show_nat [1..<Suc (refCounter s)]"
      using assms(1) unfolding snap_ok_def by (elim conjE)
    show ?thesis unfolding keys_mput_absent [OF fresh_ref [OF k]] k by simp
  qed
  moreover have "named N (snap_lines s @ [line_of node depth ('' @e'' @ show_nat (Suc (refCounter s)))])
      (mput (show_nat (Suc (refCounter s))) b (refMap s))"
    using assms Some by (intro named_put) (simp_all add: snap_ok_def)
  ultimately show ?thesis
    using assms Some by (simp add: snap_ok_def emit_def Let_def del: upt_Suc)
qed

lemma walk_ok:
  "walk k m node depth s = Some s' \<Longrightarrow> snap_ok N s \<Longrightarrow> node \<in> N \<Longrightarrow> snd ` set m \<subseteq> N \<Longrightarrow> snap_ok N s'"
  "walk_children k m cs depth s = Some s' \<Longrightarrow> snap_ok N s \<Longrightarrow> snd ` set m \<subseteq> N \<Longrightarrow> snap_ok N s'"
proof (induction k m node depth s and k m cs depth s arbitrary: s' and s' rule: walk_walk_children.induct)
  case (2 k m node depth s)
  show ?case
  proof (cases "emitted s \<ge> MAX_NODES")
    case True
    with 2 show ?thesis by (auto simp: snap_ok_truncated)
  next
    case False
    show ?thesis
    proof (cases "shown node")
      case True
      with False 2(1) 2(3-) snap_ok_emit [of N s node depth] show ?thesis by simp
    next
      case shown: False
      with False 2(2) 2(3-) show ?thesis by simp
    qed
  qed
next
  case (4 k m c cs depth s)
  show ?case
  proof (cases "map_of m c")
    case None
    with 4 show ?thesis by simp
  next
    case (Some child)
    with 4(5) have "child \<in> N" by (metis map_of_SomeD image_eqI snd_conv subsetD)
    with Some 4 show ?thesis by (auto split: option.splits)
  qed
qed simp_all

lemma subset_Un_trans: "A \<subseteq> B \<union> C \<Longrightarrow> C \<subseteq> D \<Longrightarrow> A \<subseteq> B \<union> D"
  by blast

lemma by_id_values: "snd ` set (by_id nodes) \<subseteq> set nodes"
proof -
  have p: "snd ` set (mput k v m) \<subseteq> insert v (snd ` set m)" for k v and m :: "(jsval \<times> jsval) list"
    by (induction k v m rule: mput.induct) auto
  have "snd ` set (foldl (\<lambda>m n. mput (getp ''nodeId'' n) n m) m nodes) \<subseteq> set nodes \<union> snd ` set m" for m
  proof (induction nodes arbitrary: m)
    case (Cons n ns)
    from Cons [of "mput (getp ''nodeId'' n) n m"] p [of "getp ''nodeId'' n" n m]
    have "snd ` set (foldl (\<lambda>m n. mput (getp ''nodeId'' n) n m) (mput (getp ''nodeId'' n) n m) ns)
        \<subseteq> set ns \<union> insert n (snd ` set m)" by (rule subset_Un_trans)
    then show ?case by simp
  qed simp
  from this [of "[]"] show ?thesis by (simp add: by_id_def)
qed

lemma walk_all_ok: "walk_all k nodes = Some s \<Longrightarrow> snap_ok (set nodes) s"
proof -
  let ?f = "\<lambda>s r. case s of None \<Rightarrow> None | Some s \<Rightarrow> walk k (by_id nodes) r 0 s"
  have none: "foldl ?f None rs = None" for rs by (induction rs) simp_all
  have "foldl ?f (Some a) rs = Some s \<Longrightarrow> snap_ok (set nodes) a \<Longrightarrow> set rs \<subseteq> set nodes \<Longrightarrow> snap_ok (set nodes) s" for a rs
  proof (induction rs arbitrary: a)
    case (Cons r rs)
    then obtain b where b: "walk k (by_id nodes) r 0 a = Some b"
      by (cases "walk k (by_id nodes) r 0 a") (simp_all add: none)
    then have "snap_ok (set nodes) b"
      using Cons.prems by (intro walk_ok(1) [OF b] by_id_values) simp_all
    with Cons.IH [of b] Cons.prems b show ?case by simp
  qed simp
  then show "walk_all k nodes = Some s \<Longrightarrow> snap_ok (set nodes) s"
    by (simp add: walk_all_def ax_roots_def snap_ok_start)
qed

lemma snap_reply_Inr:
  assumes "snap_reply C k frame t key r st = (Inr (Some v), st')"
  shows "\<exists>nodes s. getp ''nodes'' r = Arr nodes \<and> walk_all k nodes = Some s
    \<and> refStore st' = setRefs key (refMap s) (refStore st)
    \<and> getp ''refCount'' v = jnat (refCounter s) \<and> getp ''tree'' v = Str (tree_text s)"
  using assms
  by (auto simp: snap_reply_def seqp_def modifies_def throw_def ret_def query_opt_def bindp_def getp_def own_props_def
      split: jsval.splits option.splits)

lemma refs_stable: "cdp_stable (\<lambda>st :: ('w, 'm) sess_state_scheme. refStore st = rs)"
  by (simp add: cdp_stable_def)

lemma keeps_getActiveTab_refs: "keeps (\<lambda>st. refStore st = rs) (getActiveTab s)"
  by (auto intro!: keepsI simp: getActiveTab_def getSession_def prog_defs split: option.splits)

lemma printed_refs:
  assumes "snapshot C k args session st = (Inr (Some v), st')"
  shows "\<exists>key s nodes. walk_all k nodes = Some s
    \<and> getp ''refCount'' v = jnat (refCounter s) \<and> getp ''tree'' v = Str (tree_text s)
    \<and> refCounter s \<le> length (snap_lines s) \<and> length (snap_lines s) \<le> 4000
    \<and> (\<forall>n. (getBackendId (refStore st') key (''@e'' @ show_nat n) \<noteq> None) = (1 \<le> n \<and> n \<le> refCounter s))
    \<and> (\<forall>n b. getBackendId (refStore st') key (''@e'' @ show_nat n) = Some b \<longrightarrow>
         (\<exists>node \<in> set nodes. \<exists>depth. referenced node = Some b
            \<and> line_of node depth ('' @e'' @ show_nat n) \<in> set (snap_lines s)))
    \<and> (\<forall>key' r. key' \<noteq> key \<longrightarrow> getBackendId (refStore st') key' r = getBackendId (refStore st) key' r)"
proof -
  let ?m = "\<lambda>t. snap_target (getp ''frame'' args) t"
  obtain t st1 where g: "getActiveTab session st = (Inr t, st1)"
    using assms unfolding snapshot_def by (rule bindp_Inr_cases)
  obtain target key where tk: "snap_target (getp ''frame'' args) t = (target, key)" by (cases "?m t")
  from assms have "seqp (ensureDomain C target ''DOM'') (seqp (ensureDomain C target ''Accessibility'')
       (bindp (cdp_send C target ''Accessibility.getFullAXTree'' (Obj [])) (snap_reply C k (getp ''frame'' args) t key))) st1
     = (Inr (Some v), st')"
    unfolding snapshot_def bindp_Inr [where m = "getActiveTab session", OF g] Let_def tk prod.case .
  then obtain st2 st3 st4 r where
    d: "ensureDomain C target ''DOM'' st1 = (Inr (), st2)" "ensureDomain C target ''Accessibility'' st2 = (Inr (), st3)"
    "cdp_send C target ''Accessibility.getFullAXTree'' (Obj []) st3 = (Inr r, st4)"
    and rep: "snap_reply C k (getp ''frame'' args) t key r st4 = (Inr (Some v), st')"
    by (auto elim!: seqp_Inr_cases bindp_Inr_cases)
  have rs: "refStore st4 = refStore st"
    using keepsD [OF keeps_getActiveTab_refs [of "refStore st" session], of st]
      keepsD [OF keeps_cdp(4) [OF refs_stable, of "refStore st" C target "''DOM''"], of st1]
      keepsD [OF keeps_cdp(4) [OF refs_stable, of "refStore st" C target "''Accessibility''"], of st2]
      keepsD [OF keeps_cdp(5) [OF refs_stable, of "refStore st" C target "''Accessibility.getFullAXTree''" "Obj []"], of st3]
      g d by simp
  from snap_reply_Inr [OF rep] obtain nodes s where n: "getp ''nodes'' r = Arr nodes" "walk_all k nodes = Some s"
    and st': "refStore st' = setRefs key (refMap s) (refStore st4)"
    and v: "getp ''refCount'' v = jnat (refCounter s)" "getp ''tree'' v = Str (tree_text s)" by blast
  note ok = walk_all_ok [OF n(2)]
  have "map_of (refMap s) (show_nat n) \<noteq> None \<longleftrightarrow> show_nat n \<in> set (keys (refMap s))" for n
    by (metis map_of_eq_None_iff list.set_map)
  moreover have "keys (refMap s) = map show_nat [1..<Suc (refCounter s)]"
    using ok unfolding snap_ok_def by (elim conjE)
  ultimately have "(map_of (refMap s) (show_nat n) \<noteq> None) = (1 \<le> n \<and> n \<le> refCounter s)" for n
    by (auto simp del: upt_Suc)
  then have refs: "(getBackendId (refStore st') key (''@e'' @ show_nat n) \<noteq> None) = (1 \<le> n \<and> n \<le> refCounter s)" for n
    unfolding st' getBackendId_setRefs strip_ref_at by (simp del: not_None_eq)
  have lines: "\<exists>node \<in> set nodes. \<exists>depth. referenced node = Some b
      \<and> line_of node depth ('' @e'' @ show_nat n) \<in> set (snap_lines s)"
    if "getBackendId (refStore st') key (''@e'' @ show_nat n) = Some b" for n b
  proof -
    from that have "map_of (refMap s) (show_nat n) = Some b"
      by (simp only: st' getBackendId_setRefs strip_ref_at if_True simp_thms)
    moreover have "named (set nodes) (snap_lines s) (refMap s)"
      using ok unfolding snap_ok_def by (elim conjE)
    ultimately show ?thesis unfolding named_def by blast
  qed
  have "refCounter s \<le> length (snap_lines s)" "length (snap_lines s) \<le> 4000"
    using ok by (simp_all add: snap_ok_def MAX_NODES_def)
  moreover have "getBackendId (refStore st') key' r = getBackendId (refStore st) key' r" if "key' \<noteq> key" for key' r
    using that by (simp add: st' rs getBackendId_setRefs)
  ultimately show ?thesis using n(2) v refs lines by blast
qed


section \<open>Termination\<close>

lemma walk_more_fuel:
  "walk k m node depth s = Some s' \<Longrightarrow> k \<le> k' \<Longrightarrow> walk k' m node depth s = Some s'"
  "walk_children k m cs depth s = Some s' \<Longrightarrow> k \<le> k' \<Longrightarrow> walk_children k' m cs depth s = Some s'"
proof (induction k m node depth s and k m cs depth s arbitrary: k' s' and k' s' rule: walk_walk_children.induct)
  case (2 k m node depth s)
  then obtain j where "k' = Suc j" "k \<le> j" by (cases k') simp_all
  show ?case
  proof (cases "emitted s \<ge> MAX_NODES")
    case True
    with 2(3) \<open>k' = Suc j\<close> show ?thesis by simp
  next
    case nolimit: False
    show ?thesis
    proof (cases "shown node")
      case True
      with nolimit 2(3) have "walk_children k m (child_ids node) (depth + 1) (emit node depth s) = Some s'" by simp
      from 2(1) [OF nolimit True this \<open>k \<le> j\<close>] show ?thesis using nolimit True \<open>k' = Suc j\<close> by simp
    next
      case False
      with nolimit 2(3) have "walk_children k m (child_ids node) depth s = Some s'" by simp
      from 2(2) [OF nolimit False this \<open>k \<le> j\<close>] show ?thesis using nolimit False \<open>k' = Suc j\<close> by simp
    qed
  qed
next
  case (4 k m c cs depth s)
  show ?case
  proof (cases "map_of m c")
    case None
    then have c: "(case map_of m c of None \<Rightarrow> Some s | Some child \<Rightarrow> walk k m child depth s) = Some s" by simp
    have "walk_children k m cs depth s = Some s'" using 4(3) by (simp add: c)
    from 4(2) [OF c this 4(4)] None show ?thesis by simp
  next
    case (Some child)
    with 4(3) obtain t where t: "walk k m child depth s = Some t" by (auto split: option.splits)
    have c: "(case map_of m c of None \<Rightarrow> Some s | Some child \<Rightarrow> walk k m child depth s) = Some t"
      using Some t by simp
    have rest: "walk_children k m cs depth t = Some s'" using 4(3) by (simp add: c)
    have "walk k' m child depth s = Some t" by (rule 4(1) [OF Some t 4(4)])
    moreover have "walk_children k' m cs depth t = Some s'" by (rule 4(2) [OF c rest 4(4)])
    ultimately show ?thesis using Some by simp
  qed
qed simp_all

lemma walk_total:
  assumes acyclic: "\<And>n c c'. n \<in> N \<Longrightarrow> c \<in> set (child_ids n) \<Longrightarrow> map_of m c = Some c' \<Longrightarrow> rank c' < (rank n :: nat)"
    and vals: "snd ` set m \<subseteq> N"
  shows "node \<in> N \<Longrightarrow> rank node < k \<Longrightarrow> \<exists>s'. walk k m node depth s = Some s'"
proof (induction k arbitrary: node depth s)
  case (Suc k)
  have children: "(\<And>c c'. c \<in> set cs \<Longrightarrow> map_of m c = Some c' \<Longrightarrow> rank c' < k) \<Longrightarrow> \<exists>s'. walk_children k m cs d s = Some s'"
    for cs d s
  proof (induction cs arbitrary: s)
    case (Cons c cs)
    show ?case
    proof (cases "map_of m c")
      case None
      moreover have "\<exists>s'. walk_children k m cs d s = Some s'"
        by (rule Cons.IH) (auto intro: Cons.prems)
      ultimately show ?thesis by simp
    next
      case (Some x)
      then have "x \<in> N" using vals by (metis image_subset_iff map_of_SomeD snd_conv)
      moreover have "rank x < k" by (rule Cons.prems [OF _ Some]) simp
      ultimately obtain t where "walk k m x d s = Some t" using Suc.IH by blast
      moreover have "\<exists>s'. walk_children k m cs d t = Some s'"
        by (rule Cons.IH) (auto intro: Cons.prems)
      ultimately show ?thesis using Some by simp
    qed
  qed simp
  have "rank c' < k" if "c \<in> set (child_ids node)" "map_of m c = Some c'" for c c'
    using acyclic [OF Suc.prems(1) that] Suc.prems(2) by simp
  then show ?case using children by simp
qed simp

text \<open>
  C31: On nodes whose child relation has no cycle the walk ends: with fuel above the height of the tree
  it returns, and the result does not depend on how much more is given.
\<close>

theorem snapshot_walk_terminates:
  assumes "\<And>n c c'. n \<in> set nodes \<Longrightarrow> c \<in> set (child_ids n) \<Longrightarrow> map_of (by_id nodes) c = Some c' \<Longrightarrow> rank c' < (rank n :: nat)"
    and "\<And>n. n \<in> set nodes \<Longrightarrow> rank n < K"
  shows "\<exists>s. walk_all K nodes = Some s \<and> (\<forall>k \<ge> K. walk_all k nodes = Some s)"
proof -
  let ?f = "\<lambda>k s r. case s of None \<Rightarrow> None | Some s \<Rightarrow> walk k (by_id nodes) r 0 s"
  have "\<exists>s. \<forall>k \<ge> K. foldl (?f k) (Some a) rs = Some s" if "set rs \<subseteq> set nodes" for rs a
    using that
  proof (induction rs arbitrary: a)
    case (Cons r rs)
    have "r \<in> set nodes" using Cons.prems by simp
    moreover from this have "rank r < K" by (rule assms(2))
    ultimately have "\<exists>s'. walk K (by_id nodes) r 0 a = Some s'"
      by (rule walk_total [where N = "set nodes" and rank = rank, OF assms(1) by_id_values, rotated 3])
    then obtain b where b: "walk K (by_id nodes) r 0 a = Some b" by blast
    obtain s where "\<forall>k \<ge> K. foldl (?f k) (Some b) rs = Some s"
      using Cons.IH [of b] Cons.prems by auto
    with walk_more_fuel(1) [OF b] show ?case by auto
  qed simp
  from this [of "ax_roots nodes" snap0] show ?thesis
    by (auto simp: walk_all_def ax_roots_def)
qed

section \<open>An instance\<close>

definition leaf :: "string \<Rightarrow> string \<Rightarrow> jsval" where
  "leaf i role = Obj [(''nodeId'', Str i), (''parentId'', Str ''1''), (''role'', Obj [(''value'', Str role)]),
     (''backendDOMNodeId'', jint 42)]"

definition small_tree :: "jsval list" where
  "small_tree = [Obj [(''nodeId'', Str ''1''), (''role'', Obj [(''value'', Str ''form'')]), (''childIds'', Arr [Str ''2''])], leaf ''2'' ''button'']"

definition tree_world :: "unit chrome" where
  "tree_world = answering\<lparr>dbg_send := (\<lambda>_ m _ w. (Inr (if m = ''Accessibility.getFullAXTree'' then Obj [(''nodes'', Arr small_tree)] else Undef), w)),
     tabs_get := (\<lambda>_ t. Some \<lparr>tab_id = t, tab_url = ''u'', tab_pendingUrl = [], tab_title = [], tab_status = [],
       tab_groupId = - 1, tab_active = False, tab_index = 0, tab_windowId = 0\<rparr>)\<rparr>"

definition snap_state :: "unit sess_state" where
  "snap_state = \<lparr>world = (), attached = [], enabledDomains = [], refStore = [],
     sessionMap = [(''default'', \<lparr>groupId = None, activeTabId = Some 7, tabIds = [7]\<rparr>)]\<rparr>"


lemma snapshot_walk_terminates_witness: "\<exists>s. \<forall>k \<ge> 2. walk_all k small_tree = Some s"
proof -
  let ?rank = "\<lambda>n. if n = leaf ''2'' ''button'' then 0 else Suc 0"
  have kids: "child_ids (leaf i r) = []" for i r by (simp add: leaf_def child_ids_def getp_def own_props_def)
  have "?rank c' < ?rank n" if "n \<in> set small_tree" "c \<in> set (child_ids n)" "map_of (by_id small_tree) c = Some c'" for n c c'
    using that by (auto simp: small_tree_def kids child_ids_def getp_def own_props_def by_id_def leaf_def split: if_splits)
  moreover have "?rank n < 2" for n by simp
  ultimately have "\<exists>s. walk_all 2 small_tree = Some s \<and> (\<forall>k \<ge> 2. walk_all k small_tree = Some s)"
    by (rule snapshot_walk_terminates [of small_tree ?rank 2])
  then show ?thesis by blast
qed

end
