(* ===== verification/Interact.thy ===== *)
theory Interact
  imports Snapshot
begin

text \<open>
  \<^verbatim>\<open>src/tools/interact.js\<close>: element actions over the debugger.  A selector is an \<^verbatim>\<open>@e\<close> reference of the last
  snapshot or CSS.  The functions a tool hands to the page are named by \<open>page_fn\<close> in the commands sent, and
  what they return is the debugger's answer; the two that have logic of their own, filling and selecting, are
  \<open>fill_page\<close> and \<open>select_page\<close>.  The debugger's answers are objects, as its protocol promises.
\<close>

section \<open>Selectors\<close>

text \<open>The pattern \<^verbatim>\<open>/^@?e(\d+)$/i\<close> on the trimmed selector: its digits.\<close>

definition parse_ref :: "string \<Rightarrow> string option" where
  "parse_ref s =
     (let t = js_trim s; u = (case strip_char (CHR ''@'') t of Some r \<Rightarrow> r | None \<Rightarrow> t)
      in if u \<noteq> [] \<and> lower_char (hd u) = CHR ''e'' \<and> tl u \<noteq> [] \<and> list_all is_digit (tl u) then Some (tl u) else None)"

text \<open>\<^verbatim>\<open>JSON.stringify\<close>.\<close>

definition hex_char :: "nat \<Rightarrow> char" where
  "hex_char n = (if n < 10 then char_of (48 + n) else char_of (87 + n))"

definition json_char :: "char \<Rightarrow> string" where
  "json_char c =
     (if c = CHR 0x22 then [CHR 0x5C, CHR 0x22]
      else if c = CHR 0x5C then [CHR 0x5C, CHR 0x5C]
      else if code_of c = 8 then [CHR 0x5C, CHR ''b''] else if code_of c = 12 then [CHR 0x5C, CHR ''f'']
      else if code_of c = 10 then [CHR 0x5C, CHR ''n''] else if code_of c = 13 then [CHR 0x5C, CHR ''r'']
      else if code_of c = 9 then [CHR 0x5C, CHR ''t'']
      else if code_of c < 32 then [CHR 0x5C, CHR ''u'', CHR ''0'', CHR ''0'', hex_char (code_of c div 16), hex_char (code_of c mod 16)]
      else [c])"

definition json_string :: "string \<Rightarrow> string" where
  "json_string s = CHR 0x22 # concat (map json_char s) @ [CHR 0x22]"

fun json_text :: "jsval \<Rightarrow> string" where
  "json_text Undef = ''undefined''"
| "json_text Null = ''null''"
| "json_text (Bool b) = (if b then ''true'' else ''false'')"
| "json_text (Num n) = (if is_finite n then num_to_string n else ''null'')"
| "json_text (Str s) = json_string s"
| "json_text (Arr vs) = ''['' @ join_with '','' (map (\<lambda>v. if v = Undef then ''null'' else json_text v) vs) @ '']''"
| "json_text (Obj kvs) = ''{'' @ join_with '','' (map (\<lambda>(k, v). json_string k @ '':'' @ json_text v) (filter (\<lambda>(k, v). v \<noteq> Undef) kvs)) @ ''}''"

section \<open>Resolving elements\<close>

definition targetOf :: "string \<Rightarrow> jsval \<Rightarrow> ('w, 'm, debuggee \<times> refkey) sess_prog" where
  "targetOf session args = bindp (getActiveTab session) (\<lambda>t. ret (snap_target (getp ''frame'' args) t))"

definition resolve_ref :: "'w chrome \<Rightarrow> debuggee \<Rightarrow> jsval \<Rightarrow> int option \<Rightarrow> ('w, 'm, jsval) sess_prog" where
  "resolve_ref C target selector b = (case b of
      None \<Rightarrow> throw (UnknownRef selector)
    | Some b \<Rightarrow> bindp (cdp_send C target ''DOM.resolveNode'' (Obj [(''backendNodeId'', jint b)])) (\<lambda>res.
        let oid = getp ''objectId'' (getp ''object'' res) in if truthy oid then ret oid else throw (CouldNotResolve selector)))"

definition resolve_css :: "'w chrome \<Rightarrow> debuggee \<Rightarrow> jsval \<Rightarrow> ('w, 'm, jsval) sess_prog" where
  "resolve_css C target selector = seqp (ensureDomain C target ''Runtime'')
     (bindp (cdp_send C target ''Runtime.evaluate'' (Obj
         [(''expression'', Str (''document.querySelector('' @ json_text selector @ '')'')), (''returnByValue'', Bool False)])) (\<lambda>res.
        let r = getp ''result'' res
        in if truthy (getp ''exceptionDetails'' res) then throw (InvalidSelector selector)
           else if getp ''subtype'' r = Str ''null'' \<or> \<not> truthy (getp ''objectId'' r) then throw (NoElementMatches selector)
           else ret (getp ''objectId'' r)))"

definition resolveObjectId :: "'w chrome \<Rightarrow> debuggee \<Rightarrow> jsval \<Rightarrow> refkey \<Rightarrow> ('w, 'm, jsval) sess_prog" where
  "resolveObjectId C target selector refKey =
     (if \<not> truthy selector then throw SelectorRequired
      else case parse_ref (to_string selector) of
          Some n \<Rightarrow> bindp (reads (\<lambda>st. getBackendId (refStore st) refKey n)) (resolve_ref C target selector)
        | None \<Rightarrow> resolve_css C target selector)"

datatype page_fn = ScrollIntoView | ClickIt | DescribeIt | FocusIt | FillIt | SelectIt

definition fn_name :: "page_fn \<Rightarrow> string" where
  "fn_name f = (case f of ScrollIntoView \<Rightarrow> ''scrollIntoView'' | ClickIt \<Rightarrow> ''click'' | DescribeIt \<Rightarrow> ''describe''
     | FocusIt \<Rightarrow> ''focus'' | FillIt \<Rightarrow> ''fill'' | SelectIt \<Rightarrow> ''select'')"

definition callOn :: "'w chrome \<Rightarrow> debuggee \<Rightarrow> jsval \<Rightarrow> page_fn \<Rightarrow> jsval list \<Rightarrow> ('w, 'm, jsval) sess_prog" where
  "callOn C target oid f as = bindp (cdp_send C target ''Runtime.callFunctionOn'' (Obj
       [(''objectId'', oid), (''functionDeclaration'', Str (fn_name f)), (''arguments'', Arr (map (\<lambda>v. Obj [(''value'', v)]) as)),
        (''returnByValue'', Bool True), (''awaitPromise'', Bool True)])) (\<lambda>res.
     let d = getp ''exceptionDetails'' res
     in if truthy d then throw (PageThrew (to_string (js_or (js_or (getp ''description'' (getp ''exception'' d)) (getp ''text'' d)) (Str ''call failed''))))
        else ret (getp ''value'' (getp ''result'' res)))"

section \<open>Points\<close>

type_synonym point = "jsnum \<times> jsnum"

text \<open>A quad of the protocol: four corners, eight numbers.\<close>

fun finite_num :: "jsval \<Rightarrow> rat option" where
  "finite_num (Num (Fin q)) = Some q"
| "finite_num _ = None"

definition quad_of :: "jsval \<Rightarrow> rat list option" where
  "quad_of box = (case getp ''content'' (getp ''model'' box) of
      Arr vs \<Rightarrow> if length vs = 8 \<and> list_all (\<lambda>v. finite_num v \<noteq> None) vs then Some (map (\<lambda>v. the (finite_num v)) vs) else None
    | _ \<Rightarrow> None)"

definition centerOf :: "jsval \<Rightarrow> ('w, 'm, point) sess_prog" where
  "centerOf box = (case quad_of box of
      None \<Rightarrow> throw (TypeError ''content'')
    | Some q \<Rightarrow> ret (Fin ((q ! 0 + q ! 2 + q ! 4 + q ! 6) / 4), Fin ((q ! 1 + q ! 3 + q ! 5 + q ! 7) / 4)))"

definition boxCenter :: "'w chrome \<Rightarrow> debuggee \<Rightarrow> jsval \<Rightarrow> ('w, 'm, point) sess_prog" where
  "boxCenter C target oid = bindp (cdp_send C target ''DOM.getBoxModel'' (Obj [(''objectId'', oid)])) centerOf"

definition pointFor :: "'w chrome \<Rightarrow> debuggee \<Rightarrow> refkey \<Rightarrow> jsval \<Rightarrow> jsval \<Rightarrow> jsval \<Rightarrow> ('w, 'm, point) sess_prog" where
  "pointFor C target refKey selector x y =
     (if truthy selector
      then bindp (resolveObjectId C target selector refKey) (\<lambda>oid.
        seqp (callOn C target oid ScrollIntoView []) (boxCenter C target oid))
      else if nullish x \<or> nullish y then throw NeedsPoint
      else ret (to_number x, to_number y))"

definition mouse :: "'w chrome \<Rightarrow> debuggee \<Rightarrow> (string \<times> jsval) list \<Rightarrow> ('w, 'm, jsval) sess_prog" where
  "mouse C target ps = cdp_send C target ''Input.dispatchMouseEvent'' (Obj ps)"

definition moved :: "point \<Rightarrow> (string \<times> jsval) list" where
  "moved p = [(''type'', Str ''mouseMoved''), (''x'', Num (fst p)), (''y'', Num (snd p))]"

definition button_at :: "string \<Rightarrow> point \<Rightarrow> (string \<times> jsval) list" where
  "button_at ty p = [(''type'', Str ty), (''x'', Num (fst p)), (''y'', Num (snd p)), (''button'', Str ''left''),
     (''buttons'', jint 1), (''clickCount'', jint 1)]"

section \<open>Actions\<close>

definition press_mouse :: "'w chrome \<Rightarrow> debuggee \<Rightarrow> point \<Rightarrow> ('w, 'm, unit) sess_prog" where
  "press_mouse C target p = seqp (mouse C target (button_at ''mousePressed'' p))
     (seqp (mouse C target (button_at ''mouseReleased'' p)) (ret ()))"

definition mouse_click :: "'w chrome \<Rightarrow> debuggee \<Rightarrow> jsval \<Rightarrow> ('w, 'm, unit) sess_prog" where
  "mouse_click C target oid = bindp (boxCenter C target oid) (\<lambda>p.
     seqp (attach C target) (seqp (mouse C target (moved p)) (press_mouse C target p)))"

definition click :: "'w chrome \<Rightarrow> jsval \<Rightarrow> string \<Rightarrow> ('w, 'm, jsval) sess_prog" where
  "click C args session = bindp (targetOf session args) (\<lambda>(target, refKey).
     bindp (resolveObjectId C target (getp ''selector'' args) refKey) (\<lambda>oid.
     seqp (callOn C target oid ScrollIntoView [])
       (bindp (catchp (seqp (mouse_click C target oid) (ret True)) (\<lambda>_. ret False)) (\<lambda>dispatched.
        seqp (if dispatched then ret () else seqp (callOn C target oid ClickIt []) (ret ()))
          (bindp (callOn C target oid DescribeIt []) (\<lambda>info.
             ret (Obj (spread [(''success'', Bool True), (''method'', Str (if dispatched then ''mouse'' else ''synthetic''))] (own_props info)))))))))"

definition fill :: "'w chrome \<Rightarrow> jsval \<Rightarrow> string \<Rightarrow> ('w, 'm, jsval) sess_prog" where
  "fill C args session = bindp (targetOf session args) (\<lambda>(target, refKey).
     bindp (resolveObjectId C target (getp ''selector'' args) refKey) (\<lambda>oid.
     let v = getp ''value'' args
     in bindp (callOn C target oid FillIt [Str (if nullish v then [] else to_string v)]) (\<lambda>r.
          ret (Obj (spread [(''success'', Bool True)] (own_props r))))))"

definition hover :: "'w chrome \<Rightarrow> jsval \<Rightarrow> string \<Rightarrow> ('w, 'm, jsval) sess_prog" where
  "hover C args session = bindp (targetOf session args) (\<lambda>(target, refKey).
     bindp (pointFor C target refKey (getp ''selector'' args) (getp ''x'' args) (getp ''y'' args)) (\<lambda>pt.
     seqp (attach C target) (seqp (mouse C target (moved pt)) (ret (Obj [(''success'', Bool True)])))))"

definition or_zero :: "jsval \<Rightarrow> jsnum" where
  "or_zero v = (let n = to_number v in if n = NaN then Fin 0 else n)"

definition scroll_by :: "jsnum \<Rightarrow> jsnum \<Rightarrow> string" where
  "scroll_by dx dy = ''window.scrollBy('' @ num_to_string dx @ '', '' @ num_to_string dy @ '')''"

definition scroll :: "'w chrome \<Rightarrow> jsval \<Rightarrow> string \<Rightarrow> ('w, 'm, jsval) sess_prog" where
  "scroll C args session = bindp (targetOf session args) (\<lambda>(target, refKey).
     seqp (ensureDomain C target ''Runtime'')
       (if truthy (getp ''selector'' args)
        then bindp (resolveObjectId C target (getp ''selector'' args) refKey) (\<lambda>oid.
          seqp (callOn C target oid ScrollIntoView []) (ret (Obj [(''success'', Bool True), (''mode'', Str ''element'')])))
        else (let dx = or_zero (getp ''x'' args); dy = or_zero (getp ''y'' args)
              in seqp (cdp_send C target ''Runtime.evaluate'' (Obj [(''expression'', Str (scroll_by dx dy))]))
                   (ret (Obj [(''success'', Bool True), (''mode'', Str ''window''), (''x'', Num dx), (''y'', Num dy)])))))"

section \<open>Keys\<close>

definition key_entry :: "string \<Rightarrow> int \<Rightarrow> string \<times> (string \<times> jsval) list" where
  "key_entry k code = (k, [(''key'', Str k), (''code'', Str k), (''windowsVirtualKeyCode'', jint code)])"

definition KEYS :: "(string \<times> (string \<times> jsval) list) list" where
  "KEYS = (''Enter'', snd (key_entry ''Enter'' 13) @ [(''text'', Str [CHR 0x0D])]) #
     [key_entry ''Tab'' 9, key_entry ''Escape'' 27, key_entry ''Backspace'' 8, key_entry ''Delete'' 46,
      key_entry ''ArrowUp'' 38, key_entry ''ArrowDown'' 40, key_entry ''ArrowLeft'' 37, key_entry ''ArrowRight'' 39,
      key_entry ''PageDown'' 34, key_entry ''PageUp'' 33, key_entry ''Home'' 36, key_entry ''End'' 35]"

text \<open>Names the table inherits from \<^verbatim>\<open>Object.prototype\<close> find an object without own properties.\<close>

definition object_names :: "string list" where
  "object_names = [''constructor'', ''toString'', ''isPrototypeOf'', ''hasOwnProperty'', ''propertyIsEnumerable'', ''valueOf'',
     ''toLocaleString'', ''__defineGetter__'', ''__defineSetter__'', ''__lookupGetter__'', ''__lookupSetter__'', ''__proto__'']"

definition has_length_1 :: "jsval \<Rightarrow> bool" where
  "has_length_1 v = (case v of Str s \<Rightarrow> length s = 1 | Arr vs \<Rightarrow> length vs = 1 | Obj kvs \<Rightarrow> getp ''length'' v = jint 1 | _ \<Rightarrow> False)"

definition key_spec :: "jsval \<Rightarrow> (string \<times> jsval) list" where
  "key_spec key = (case map_of KEYS (to_string key) of
      Some spec \<Rightarrow> spec
    | None \<Rightarrow> if to_string key \<in> set object_names then []
              else [(''key'', key), (''text'', if has_length_1 key then key else Undef)])"

definition key_event :: "'w chrome \<Rightarrow> debuggee \<Rightarrow> string \<Rightarrow> (string \<times> jsval) list \<Rightarrow> ('w, 'm, unit) sess_prog" where
  "key_event C target ty ps = seqp (cdp_send C target ''Input.dispatchKeyEvent'' (Obj ((''type'', Str ty) # ps))) (ret ())"

definition focus_first :: "'w chrome \<Rightarrow> debuggee \<Rightarrow> refkey \<Rightarrow> jsval \<Rightarrow> ('w, 'm, unit) sess_prog" where
  "focus_first C target refKey selector =
     (if truthy selector
      then bindp (resolveObjectId C target selector refKey) (\<lambda>oid. seqp (callOn C target oid FocusIt []) (ret ()))
      else ret ())"

definition press_key :: "'w chrome \<Rightarrow> jsval \<Rightarrow> string \<Rightarrow> ('w, 'm, jsval) sess_prog" where
  "press_key C args session = bindp (targetOf session args) (\<lambda>(target, refKey).
     let key = getp ''key'' args; spec = key_spec key
     in if \<not> truthy key then throw PressKeyNeedsKey
        else seqp (focus_first C target refKey (getp ''selector'' args)) (seqp (attach C target)
          (seqp (key_event C target ''keyDown'' spec)
            (seqp (if truthy (getp ''text'' (Obj spec)) then key_event C target ''char'' [(''text'', getp ''text'' (Obj spec))] else ret ())
              (seqp (key_event C target ''keyUp'' spec) (ret (Obj [(''success'', Bool True), (''key'', key)])))))))"

section \<open>Selecting, uploading\<close>

text \<open>
  The functions \<^verbatim>\<open>fill\<close> and \<^verbatim>\<open>select_option\<close> run in the page, on the element as they see it: an option is its
  value, label and text, \<open>e_content\<close> is the text of an editable element, \<open>e_value\<close> the value last assigned.  The
  value setter of an input throws when it is called on anything but an input.
\<close>

record element =
  e_tag :: string
  e_editable :: bool
  e_content :: string
  e_value :: string
  e_options :: "(string \<times> string \<times> string) list"
  e_focused :: bool
  e_events :: "string list"

definition changed_to :: "string \<Rightarrow> element \<Rightarrow> element" where
  "changed_to v el = el\<lparr>e_value := v, e_events := e_events el @ [''input'', ''change'']\<rparr>"

definition fill_page :: "string \<Rightarrow> element \<Rightarrow> (string + jsval) \<times> element" where
  "fill_page v el =
     (let el1 = el\<lparr>e_focused := True\<rparr>; tag = js_lower (e_tag el);
          answer = (\<lambda>mode. Inr (Obj [(''mode'', Str mode), (''tag'', Str tag)]))
      in if e_editable el then (answer ''contenteditable'', el1\<lparr>e_content := v\<rparr>)
         else if tag \<in> {''input'', ''textarea''} then (answer ''value'', changed_to v el1)
         else (Inl ''Illegal invocation'', el1))"

definition option_matches :: "string \<Rightarrow> string \<times> string \<times> string \<Rightarrow> bool" where
  "option_matches want o1 = (case o1 of (v, l, t) \<Rightarrow> v = want \<or> l = want \<or> js_trim t = want)"

definition select_page :: "string \<Rightarrow> element \<Rightarrow> (string + jsval) \<times> element" where
  "select_page want el =
     (if js_lower (e_tag el) \<noteq> ''select'' then (Inl ''not a <select>'', el)
      else case List.find (option_matches want) (e_options el) of
          None \<Rightarrow> (Inl (''no option matching '' @ want), el)
        | Some (v, l, t) \<Rightarrow> (Inr (Obj [(''value'', Str v)]), changed_to v el))"

definition wanted_option :: "jsval \<Rightarrow> string" where
  "wanted_option args = to_string (if nullish (getp ''value'' args) then js_or (getp ''label'' args) (Str []) else getp ''value'' args)"

definition select_option :: "'w chrome \<Rightarrow> jsval \<Rightarrow> string \<Rightarrow> ('w, 'm, jsval) sess_prog" where
  "select_option C args session = bindp (targetOf session args) (\<lambda>(target, refKey).
     bindp (resolveObjectId C target (getp ''selector'' args) refKey) (\<lambda>oid.
     bindp (callOn C target oid SelectIt [Str (wanted_option args)]) (\<lambda>r.
       ret (Obj (spread [(''success'', Bool True)] (own_props r))))))"

definition upload :: "'w chrome \<Rightarrow> jsval \<Rightarrow> string \<Rightarrow> ('w, 'm, jsval) sess_prog" where
  "upload C args session = bindp (targetOf session args) (\<lambda>(target, refKey).
     case getp ''files'' args of
       Arr (f # fs) \<Rightarrow> bindp (resolveObjectId C target (getp ''selector'' args) refKey) (\<lambda>oid.
         seqp (cdp_send C target ''DOM.setFileInputFiles'' (Obj [(''objectId'', oid), (''files'', Arr (f # fs))]))
           (ret (Obj [(''success'', Bool True), (''fileCount'', jnat (length (f # fs)))])))
     | _ \<Rightarrow> throw UploadNeedsFiles)"

section \<open>Dragging and tapping\<close>

text \<open>\<^verbatim>\<open>a + ((b - a) * i) / 6\<close> on numbers.\<close>

definition lerp :: "jsnum \<Rightarrow> jsnum \<Rightarrow> nat \<Rightarrow> jsnum" where
  "lerp a b i = (case (a, b) of
      (Fin p, Fin q) \<Rightarrow> Fin (p + ((q - p) * of_nat i) / 6)
    | (Fin _, PosInf) \<Rightarrow> PosInf | (Fin _, NegInf) \<Rightarrow> NegInf | _ \<Rightarrow> NaN)"

definition drag_step :: "point \<Rightarrow> point \<Rightarrow> nat \<Rightarrow> (string \<times> jsval) list" where
  "drag_step a b i = moved (lerp (fst a) (fst b) i, lerp (snd a) (snd b) i) @ [(''button'', Str ''left''), (''buttons'', jint 1)]"

definition drag_events :: "point \<Rightarrow> point \<Rightarrow> (string \<times> jsval) list list" where
  "drag_events a b = [moved a, button_at ''mousePressed'' a] @ map (drag_step a b) [1, 2, 3, 4, 5, 6] @ [button_at ''mouseReleased'' b]"

definition point_json :: "point \<Rightarrow> jsval" where
  "point_json p = Obj [(''x'', Num (fst p)), (''y'', Num (snd p))]"

definition drag :: "'w chrome \<Rightarrow> jsval \<Rightarrow> string \<Rightarrow> ('w, 'm, jsval) sess_prog" where
  "drag C args session = bindp (targetOf session args) (\<lambda>(target, refKey).
     bindp (pointFor C target refKey (getp ''from'' args) (getp ''fromX'' args) (getp ''fromY'' args)) (\<lambda>a.
     bindp (pointFor C target refKey (getp ''to'' args) (getp ''toX'' args) (getp ''toY'' args)) (\<lambda>b.
     seqp (attach C target)
       (seqp (for_each (drag_events a b) (\<lambda>e. seqp (mouse C target e) (ret ())))
         (ret (Obj [(''success'', Bool True), (''from'', point_json a), (''to'', point_json b)]))))))"

text \<open>\<^verbatim>\<open>withTimeout\<close>: the command is sent either way; a late answer is an error.\<close>

definition withTimeout :: "bool \<Rightarrow> ('s, 'a) jsprog \<Rightarrow> ('s, 'a) jsprog" where
  "withTimeout late m = (\<lambda>st. case m st of (r, st') \<Rightarrow> (if late then Inl TouchTimedOut else r, st'))"

definition touch_event :: "'w chrome \<Rightarrow> debuggee \<Rightarrow> bool \<Rightarrow> string \<Rightarrow> jsval list \<Rightarrow> ('w, 'm, unit) sess_prog" where
  "touch_event C target late ty ps = seqp (withTimeout late (cdp_send C target ''Input.dispatchTouchEvent''
     (Obj [(''type'', Str ty), (''touchPoints'', Arr ps)]))) (ret ())"

definition touch_tap :: "'w chrome \<Rightarrow> debuggee \<Rightarrow> bool \<Rightarrow> bool \<Rightarrow> point \<Rightarrow> ('w, 'm, unit) sess_prog" where
  "touch_tap C target late1 late2 p =
     seqp (catchp (seqp (cdp_send C target ''Emulation.setTouchEmulationEnabled'' (Obj [(''enabled'', Bool True), (''maxTouchPoints'', jint 1)])) (ret ()))
        (\<lambda>_. ret ()))
       (seqp (touch_event C target late1 ''touchStart'' [Obj [(''x'', Num (fst p)), (''y'', Num (snd p)), (''id'', jint 0)]])
         (touch_event C target late2 ''touchEnd'' []))"

definition tap :: "'w chrome \<Rightarrow> bool \<Rightarrow> bool \<Rightarrow> jsval \<Rightarrow> string \<Rightarrow> ('w, 'm, jsval) sess_prog" where
  "tap C late1 late2 args session = bindp (targetOf session args) (\<lambda>(target, refKey).
     bindp (pointFor C target refKey (getp ''selector'' args) (getp ''x'' args) (getp ''y'' args)) (\<lambda>pt.
     seqp (attach C target)
       (bindp (catchp (seqp (touch_tap C target late1 late2 pt) (ret ''touch'')) (\<lambda>_. seqp (press_mouse C target pt) (ret ''mouse-fallback''))) (\<lambda>m.
          ret (Obj [(''success'', Bool True), (''point'', point_json pt), (''mode'', Str m)])))))"

end
