(* ===== verification/Recording.thy ===== *)
theory Recording
  imports Interact
begin

text \<open>
  What the debugger is sent: a browser that also keeps the log of the commands, and the commands an element
  lookup cannot send.
\<close>

section \<open>The log\<close>

text \<open>A browser that also keeps the commands sent to its debugger.\<close>

type_synonym cmd = "debuggee \<times> string \<times> jsval"

definition logged :: "('w \<Rightarrow> 'a \<times> 'w) \<Rightarrow> 'w \<times> 'l \<Rightarrow> 'a \<times> ('w \<times> 'l)" where
  "logged f wl = (case f (fst wl) of (r, w) \<Rightarrow> (r, (w, snd wl)))"

definition recording :: "'w chrome \<Rightarrow> ('w \<times> cmd list) chrome" where
  "recording C = \<lparr>
     tabs_get = (\<lambda>wl. tabs_get C (fst wl)), tabs_query = (\<lambda>wl. tabs_query C (fst wl)),
     tabs_query_group = (\<lambda>wl. tabs_query_group C (fst wl)),
     tabs_create = (\<lambda>u a. logged (tabs_create C u a)), tabs_remove = (\<lambda>t. logged (tabs_remove C t)),
     tabs_group = (\<lambda>ts g. logged (tabs_group C ts g)), tabs_update_url = (\<lambda>t u. logged (tabs_update_url C t u)),
     tabs_activate = (\<lambda>t. logged (tabs_activate C t)), windows_focus = (\<lambda>i. logged (windows_focus C i)),
     groups_query = (\<lambda>wl. groups_query C (fst wl)), groups_get = (\<lambda>wl. groups_get C (fst wl)),
     groups_set_title = (\<lambda>g s. logged (groups_set_title C g s)),
     storage_get = (\<lambda>wl. storage_get C (fst wl)), storage_set = (\<lambda>kvs. logged (storage_set C kvs)),
     dbg_attach = (\<lambda>d. logged (dbg_attach C d)), dbg_detach = (\<lambda>d wl. (dbg_detach C d (fst wl), snd wl)),
     dbg_send = (\<lambda>d m p wl. case dbg_send C d m p (fst wl) of (r, w) \<Rightarrow> (r, (w, snd wl @ [(d, m, p)])))\<rparr>"

definition cmds :: "('w \<times> cmd list, 'm) core_scheme \<Rightarrow> cmd list" where
  "cmds st = snd (world st)"

lemma cmds_frame [simp]:
  "cmds (st\<lparr>attached := a\<rparr>) = cmds st" "cmds (st\<lparr>enabledDomains := e\<rparr>) = cmds st"
  by (simp_all add: cmds_def)

section \<open>Commands that are not sent\<close>

text \<open>No command \<open>M\<close> has been sent since the log was \<open>l\<close>; the commands that enable domains are never meant.\<close>

definition silent :: "string \<Rightarrow> cmd list \<Rightarrow> ('w \<times> cmd list, 'm) core_scheme \<Rightarrow> bool" where
  "silent M l st \<longleftrightarrow> (\<exists>pre. cmds st = l @ pre \<and> (\<forall>(d, m, p) \<in> set pre. m \<noteq> M))"

definition no_enable :: "string \<Rightarrow> bool" where
  "no_enable M \<longleftrightarrow> \<not> ends_with M ''.enable''"

definition lookup_commands :: "string list" where
  "lookup_commands = [''DOM.resolveNode'', ''Runtime.evaluate'', ''Runtime.callFunctionOn'', ''DOM.getBoxModel'']"

lemma silent_now: "silent M (cmds st) st"
  by (simp add: silent_def)

lemma no_enable: "no_enable M \<Longrightarrow> dm @ ''.enable'' \<noteq> M"
  by (auto simp: no_enable_def ends_with_suffix suffix_def)

lemma rawSend_cmds:
  "rawSend (recording C) d m p st = (r, st') \<Longrightarrow> cmds st' = cmds st @ [(d, m, js_or p (Obj []))] \<and> (\<exists>w. st' = st\<lparr>world := w\<rparr>)"
  by (auto simp: rawSend_def recording_def cmds_def split: prod.splits sum.splits)

lemma silent_step: "silent M l st \<Longrightarrow> m \<noteq> M \<Longrightarrow> cmds st' = cmds st @ [(d, m, p)] \<Longrightarrow> silent M l st'"
  unfolding silent_def by fastforce

lemma silent_frame [simp]:
  "silent M l (st\<lparr>attached := a\<rparr>) = silent M l st" "silent M l (st\<lparr>enabledDomains := e\<rparr>) = silent M l st"
  by (simp_all add: silent_def)

lemma silent_rawSend:
  fixes C :: "'w chrome"
  shows "m \<noteq> M \<Longrightarrow> keeps (silent M l :: ('w \<times> cmd list, 'm) cdp_state_scheme \<Rightarrow> bool) (rawSend (recording C) d m p)"
proof (rule keepsI)
  fix st :: "('w \<times> cmd list, 'm) cdp_state_scheme"
  assume m: "m \<noteq> M" and st: "silent M l st"
  obtain r st' where r: "rawSend (recording C) d m p st = (r, st')" by (cases "rawSend (recording C) d m p st")
  from silent_step [OF st m conjunct1 [OF rawSend_cmds [OF r]]] r
  show "silent M l (snd (rawSend (recording C) d m p st))" by simp
qed

lemma silent_cdp:
  assumes M: "no_enable M"
  shows "keeps (silent M l) (enable (recording C) d dm)" "keeps (silent M l) (attach (recording C) d)"
    "keeps (silent M l) (ensureDomain (recording C) d dm)"
    "m \<noteq> M \<Longrightarrow> keeps (silent M l) (cdp_send (recording C) d m p)"
proof -
  have quiet: "keeps (silent M l) (sendQuietly (recording C) d (dm @ ''.enable''))" for dm
    unfolding sendQuietly_def by (intro hoare_rules silent_rawSend no_enable M)
  have set: "keeps (silent M l) (ensure_set k)" "keeps (silent M l) (add_domain k dm)" for k dm
    by (auto intro!: keepsI simp: ensure_set_def add_domain_def modifies_def split: option.splits)
  show en: "keeps (silent M l) (enable (recording C) d dm)" for dm
    unfolding enable_def Let_def by (intro hoare_rules set quiet) simp_all
  have opened: "keeps (silent M l) (open_debugger (recording C) d)"
    by (rule keepsI) (auto simp: open_debugger_def recording_def logged_def silent_def cmds_def split: prod.splits option.splits)
  have page: "keeps (silent M l) (case d of TabT _ \<Rightarrow> enable (recording C) d ''Page'' | TargetT _ \<Rightarrow> ret ())"
    using en by (cases d) (simp_all add: hoare_ret)
  show att: "keeps (silent M l) (attach (recording C) d)"
    unfolding attach_def Let_def open_debugger_def [symmetric] by (intro hoare_rules opened page) simp_all
  show "keeps (silent M l) (ensureDomain (recording C) d dm)" unfolding ensureDomain_def by (intro hoare_rules att en)
  show "m \<noteq> M \<Longrightarrow> keeps (silent M l) (cdp_send (recording C) d m p)"
    unfolding cdp_send_def by (intro hoare_rules att silent_rawSend)
qed

lemma silent_lookup:
  assumes M: "no_enable M" "M \<notin> set lookup_commands"
  shows "keeps (silent M l) (resolveObjectId (recording C) target selector refKey)"
    "keeps (silent M l) (pointFor (recording C) target refKey selector x y)"
proof -
  have m: "''DOM.resolveNode'' \<noteq> M" "''Runtime.evaluate'' \<noteq> M" "''Runtime.callFunctionOn'' \<noteq> M" "''DOM.getBoxModel'' \<noteq> M"
    using M(2) by (auto simp: lookup_commands_def)
  show resolve: "keeps (silent M l) (resolveObjectId (recording C) target selector refKey)"
    unfolding resolveObjectId_def resolve_ref_def resolve_css_def Let_def by (intro hoare_rules silent_cdp M m)
  have call: "keeps (silent M l) (callOn (recording C) target oid f as)" for oid f as
    unfolding callOn_def Let_def by (intro hoare_rules silent_cdp M m)
  have box: "keeps (silent M l) (boxCenter (recording C) target oid)" for oid
    unfolding boxCenter_def centerOf_def by (intro hoare_rules silent_cdp M m) simp_all
  show "keeps (silent M l) (pointFor (recording C) target refKey selector x y)"
    unfolding pointFor_def by (intro hoare_rules resolve call box) simp_all
qed

lemma silent_session:
  "keeps (silent M l) (getActiveTab session)" "keeps (silent M l) (targetOf session args)"
  by (auto intro!: keepsI simp: targetOf_def getActiveTab_def getSession_def prog_defs silent_def cmds_def split: option.splits)

lemma attached_send: "cdp_key d \<in> set (attached st) \<Longrightarrow> cdp_send C d m p st = rawSend C d m p st"
  by (simp add: cdp_send_def seqp_def bindp_def attach_unfold)

end
