(* ===== verification/InteractProps.thy ===== *)
theory InteractProps
  imports Recording
begin

text \<open>
  Element actions: a printed reference drives the node it was printed for, a CSS selector stays inside the
  string literal it is quoted in, and a drag is one press, a straight path and one release.
\<close>

section \<open>References\<close>

lemma js_trim_ref: "js_trim (''@e'' @ show_nat n) = ''@e'' @ show_nat n"
proof (rule js_trim_id)
  have "is_digit (last (show_nat n))" using show_nat_digits [of n] last_in_set by blast
  then have "\<not> is_ws (last (show_nat n))" by (auto simp: is_digit_def is_ws_def)
  moreover have "last (''@e'' @ show_nat n) = last (show_nat n)" using show_nat_digits [of n] by (simp add: last_append)
  moreover have "\<not> is_ws (CHR ''@'')" by (simp add: is_ws_def)
  ultimately show "''@e'' @ show_nat n = [] \<or> (\<not> is_ws (hd (''@e'' @ show_nat n)) \<and> \<not> is_ws (last (''@e'' @ show_nat n)))" by simp
qed

lemma parse_printed_ref: "parse_ref (''@e'' @ show_nat n) = Some (show_nat n)"
proof -
  have s: "strip_char (CHR ''@'') (''@e'' @ show_nat n) = Some (CHR ''e'' # show_nat n)" by (simp add: strip_char_def)
  have "list_all is_digit (show_nat n)" "show_nat n \<noteq> []"
    using show_nat_digits [of n] by (auto simp: list_all_iff)
  moreover have "lower_char (CHR ''e'') = CHR ''e''" by code_simp
  ultimately show ?thesis unfolding parse_ref_def js_trim_ref Let_def s by simp
qed

lemma getBackendId_digits: "getBackendId store key (show_nat n) = getBackendId store key (''@e'' @ show_nat n)"
proof -
  have "strip_ref (show_nat n) = show_nat n"
    using show_nat_digits [of n] by (intro strip_ref_digits) (auto simp: hd_in_set)
  then show ?thesis unfolding getBackendId_def strip_ref_at by (simp only:)
qed


section \<open>CSS selectors\<close>

text \<open>A JavaScript string literal after its opening quote: its value and the rest of the program.\<close>

definition hex_val :: "char \<Rightarrow> nat" where
  "hex_val c = (if is_digit c then code_of c - 48 else code_of c - 87)"

fun read_literal :: "string \<Rightarrow> (string \<times> string) option" where
  "read_literal [] = None"
| "read_literal (c # s) =
     (if c = CHR 0x22 then Some ([], s)
      else if c = CHR 0x5C then
        (case s of
           e # t \<Rightarrow>
             if e = CHR ''u'' then
               (case t of
                  a # b # x # y # r \<Rightarrow> (case read_literal r of None \<Rightarrow> None
                    | Some (v, rest) \<Rightarrow> Some (char_of (16 * hex_val x + hex_val y) # v, rest))
                | _ \<Rightarrow> None)
             else (case read_literal t of None \<Rightarrow> None
               | Some (v, rest) \<Rightarrow> Some ((if e = CHR ''b'' then char_of (8::nat) else if e = CHR ''f'' then char_of (12::nat)
                     else if e = CHR ''n'' then char_of (10::nat) else if e = CHR ''r'' then char_of (13::nat)
                     else if e = CHR ''t'' then char_of (9::nat) else e) # v, rest))
         | [] \<Rightarrow> None)
      else if code_of c < 32 then None
      else (case read_literal s of None \<Rightarrow> None | Some (v, rest) \<Rightarrow> Some (c # v, rest)))"

lemma read_json_char: "read_literal (json_char c @ t) = (case read_literal t of None \<Rightarrow> None | Some (v, rest) \<Rightarrow> Some (c # v, rest))"
proof -
  have code: "c = char_of n" if "code_of c = n" for n using that by auto
  consider "c = CHR 0x22" | "c = CHR 0x5C" | "code_of c = 8" | "code_of c = 12" | "code_of c = 10" | "code_of c = 13"
    | "code_of c = 9" | "c \<noteq> CHR 0x22" "c \<noteq> CHR 0x5C" "code_of c \<notin> {8, 9, 10, 12, 13}" by auto
  then show ?thesis
  proof cases
    case 8
    show ?thesis
    proof (cases "code_of c < 32")
      case True
      have h: "hex_val (hex_char k) = k" if "k < 16" for k
        using that by (auto simp: hex_val_def hex_char_def is_digit_def of_char_of)
      have "hex_val (hex_char (code_of c div 16)) = code_of c div 16" "hex_val (hex_char (code_of c mod 16)) = code_of c mod 16"
        using True by (auto intro!: h)
      then have "char_of (16 * hex_val (hex_char (code_of c div 16)) + hex_val (hex_char (code_of c mod 16))) = c"
        by (simp only: mult_div_mod_eq char_of_char)
      note this [simp]
      from 8 True show ?thesis by (simp add: json_char_def split: option.splits)
    next
      case False
      with 8 show ?thesis by (simp add: json_char_def)
    qed
  qed (auto simp: json_char_def dest!: code split: option.splits)
qed


section \<open>What the debugger is sent\<close>

definition MOUSE :: string where "MOUSE = ''Input.dispatchMouseEvent''"

lemma mouse_commands: "no_enable MOUSE" "MOUSE \<notin> set lookup_commands"
  by (simp_all add: MOUSE_def no_enable_def ends_with_def lookup_commands_def)

lemma mouse_events_sent:
  "cdp_key target \<in> set (attached st) \<Longrightarrow> for_each es (\<lambda>e. seqp (mouse (recording C) target e) (ret ())) st = (Inr (), st')
    \<Longrightarrow> cmds st' = cmds st @ map (\<lambda>e. (target, MOUSE, Obj e)) es"
proof (induction es arbitrary: st)
  case Nil
  then show ?case by (simp add: ret_def)
next
  case (Cons e es)
  obtain r st1 where r: "rawSend (recording C) target MOUSE (Obj e) st = (r, st1)"
    by (cases "rawSend (recording C) target MOUSE (Obj e) st")
  note c = rawSend_cmds [OF r]
  have m: "mouse (recording C) target e st = (r, st1)"
    using Cons.prems(1) r by (simp add: mouse_def attached_send MOUSE_def)
  with Cons.prems(2) have rest: "for_each es (\<lambda>e. seqp (mouse (recording C) target e) (ret ())) st1 = (Inr (), st')"
    by (auto simp: seqp_def bindp_def ret_def split: sum.splits)
  from c have "cdp_key target \<in> set (attached st1)" using Cons.prems(1) by auto
  from Cons.IH [OF this rest] c show ?case by (simp add: js_or_def truthy_def)
qed

lemma lerp_end: "lerp (Fin a) (Fin b) 6 = Fin b"
  by (simp add: lerp_def diff_divide_distrib)

text \<open>
  A drag that reports success has sent the page's debugger, after looking the two points up without
  touching the mouse, exactly these mouse events in this order: a move to the start, one press there, six
  moves along the straight line that end on the target, and one release on the target.  The points are the
  ones it reports.
\<close>

lemma drag_is_one_straight_stroke:
  assumes "drag (recording C) args session st = (Inr v, st')"
  shows "\<exists>target a b pre. cmds st' = cmds st @ pre @ map (\<lambda>e. (target, MOUSE, Obj e)) (drag_events a b)
    \<and> (\<forall>(d, m, p) \<in> set pre. m \<noteq> MOUSE)
    \<and> v = Obj [(''success'', Bool True), (''from'', point_json a), (''to'', point_json b)]
    \<and> (\<forall>ax ay bx b1. a = (Fin ax, Fin ay) \<and> b = (Fin bx, Fin b1) \<longrightarrow>
         drag_step a b 6 = moved b @ [(''button'', Str ''left''), (''buttons'', jint 1)])"
proof -
  let ?l = "cmds st"
  obtain x st1 where x: "targetOf session args st = (Inr x, st1)"
    using assms unfolding drag_def by (rule bindp_Inr_cases)
  obtain target refKey where tr: "x = (target, refKey)" by (cases x)
  note t = x [unfolded tr]
  have r1: "bindp (pointFor (recording C) target refKey (getp ''from'' args) (getp ''fromX'' args) (getp ''fromY'' args)) (\<lambda>a.
     bindp (pointFor (recording C) target refKey (getp ''to'' args) (getp ''toX'' args) (getp ''toY'' args)) (\<lambda>b.
     seqp (attach (recording C) target)
       (seqp (for_each (drag_events a b) (\<lambda>e. seqp (mouse (recording C) target e) (ret ())))
         (ret (Obj [(''success'', Bool True), (''from'', point_json a), (''to'', point_json b)]))))) st1 = (Inr v, st')"
    using assms unfolding drag_def bindp_Inr [where m = "targetOf session args", OF t] prod.case .
  obtain a st2 where a: "pointFor (recording C) target refKey (getp ''from'' args) (getp ''fromX'' args) (getp ''fromY'' args) st1 = (Inr a, st2)"
    and r2: "bindp (pointFor (recording C) target refKey (getp ''to'' args) (getp ''toX'' args) (getp ''toY'' args)) (\<lambda>b.
     seqp (attach (recording C) target)
       (seqp (for_each (drag_events a b) (\<lambda>e. seqp (mouse (recording C) target e) (ret ())))
         (ret (Obj [(''success'', Bool True), (''from'', point_json a), (''to'', point_json b)])))) st2 = (Inr v, st')"
    using r1 by (rule bindp_Inr_cases)
  obtain b st3 where b: "pointFor (recording C) target refKey (getp ''to'' args) (getp ''toX'' args) (getp ''toY'' args) st2 = (Inr b, st3)"
    and r3: "seqp (attach (recording C) target)
       (seqp (for_each (drag_events a b) (\<lambda>e. seqp (mouse (recording C) target e) (ret ())))
         (ret (Obj [(''success'', Bool True), (''from'', point_json a), (''to'', point_json b)]))) st3 = (Inr v, st')"
    using r2 by (rule bindp_Inr_cases)
  obtain u st4 where at4u: "attach (recording C) target st3 = (Inr u, st4)"
    and r4: "seqp (for_each (drag_events a b) (\<lambda>e. seqp (mouse (recording C) target e) (ret ())))
         (ret (Obj [(''success'', Bool True), (''from'', point_json a), (''to'', point_json b)])) st4 = (Inr v, st')"
    using r3 by (rule seqp_Inr_cases)
  have at4: "attach (recording C) target st3 = (Inr (), st4)" using at4u by simp
  obtain u' st5 where f: "for_each (drag_events a b) (\<lambda>e. seqp (mouse (recording C) target e) (ret ())) st4 = (Inr u', st5)"
    and r5: "v = Obj [(''success'', Bool True), (''from'', point_json a), (''to'', point_json b)]" "st' = st5"
    using r4 by (auto elim!: seqp_Inr_cases simp: ret_def)
  have "silent MOUSE ?l st4"
    using keepsD [OF silent_session(2) silent_now] keepsD [OF silent_lookup(2) [OF mouse_commands], of ?l st1]
      keepsD [OF silent_lookup(2) [OF mouse_commands], of ?l st2] keepsD [OF silent_cdp(2) [OF mouse_commands(1)], of ?l st3] t a b at4
    by (metis snd_conv)
  then obtain pre where pre: "cmds st4 = ?l @ pre" "\<forall>(d, m, p) \<in> set pre. m \<noteq> MOUSE" unfolding silent_def by blast
  have "cdp_key target \<in> set (attached st4)" using attach_ok [OF at4] by simp
  from mouse_events_sent [OF this f [simplified]] have "cmds st' = ?l @ pre @ map (\<lambda>e. (target, MOUSE, Obj e)) (drag_events a b)"
    using pre(1) r5(2) by simp
  moreover have "drag_step a b 6 = moved b @ [(''button'', Str ''left''), (''buttons'', jint 1)]"
    if "a = (Fin ax, Fin ay) \<and> b = (Fin bx, Fin b1)" for ax ay bx b1
    using that by (simp add: drag_step_def lerp_end)
  moreover have "v = Obj [(''success'', Bool True), (''from'', point_json a), (''to'', point_json b)]"
    by (rule r5(1))
  ultimately show ?thesis using pre(2) by blast
qed

section \<open>Instances\<close>


definition drag_state :: "(unit \<times> cmd list) sess_state" where
  "drag_state = \<lparr>world = ((), []), attached = [], enabledDomains = [], refStore = [],
     sessionMap = [(''default'', \<lparr>groupId = None, activeTabId = Some 7, tabIds = [7]\<rparr>)]\<rparr>"

definition drag_args :: jsval where
  "drag_args = Obj [(''fromX'', jint 0), (''fromY'', jint 0), (''toX'', jint 6), (''toY'', jint 12)]"

lemma drag_is_one_straight_stroke_witness:
  "\<exists>target a b pre. cmds (snd (drag (recording answering) drag_args ''default'' drag_state))
     = pre @ map (\<lambda>e. (target, MOUSE, Obj e)) (drag_events a b)"
proof -
  have "\<exists>v. fst (drag (recording answering) drag_args ''default'' drag_state) = Inr v"
    by (intro exI) code_simp
  then obtain v where v: "fst (drag (recording answering) drag_args ''default'' drag_state) = Inr v" by blast
  have "cmds drag_state = []" by (simp add: cmds_def drag_state_def)
  with drag_is_one_straight_stroke [OF run_eq [OF v]] show ?thesis by (metis append_Nil)
qed

end
