(* ===== verification/PageTools.thy ===== *)
theory PageTools
  imports InteractProps SessionSystem
begin

text \<open>
  The tools that are one or two commands to the debugger: \<^verbatim>\<open>src/tools/evaluate.js\<close>, \<^verbatim>\<open>frames.js\<close>,
  \<^verbatim>\<open>capture.js\<close>, \<^verbatim>\<open>emulate.js\<close>, and \<^verbatim>\<open>downloads.js\<close> over the browser's download service.
\<close>

section \<open>Evaluating code\<close>

text \<open>A property read that throws on \<^verbatim>\<open>undefined\<close> and \<^verbatim>\<open>null\<close>.\<close>

definition member :: "string \<Rightarrow> jsval \<Rightarrow> ('s, jsval) jsprog" where
  "member k v = (if nullish v then throw (TypeError k) else ret (getp k v))"

definition eval_reply :: "jsval \<Rightarrow> ('s, jsval) jsprog" where
  "eval_reply res = bindp (member ''exceptionDetails'' res) (\<lambda>d.
     if truthy d
     then throw (PageThrew (to_string (js_or (js_or (getp ''description'' (getp ''exception'' d)) (getp ''text'' d)) (Str ''evaluation error''))))
     else bindp (member ''type'' (getp ''result'' res)) (\<lambda>ty.
       ret (Obj [(''type'', ty), (''value'', getp ''value'' (getp ''result'' res))])))"

definition evaluate :: "'w chrome \<Rightarrow> jsval \<Rightarrow> string \<Rightarrow> ('w, 'm, jsval) sess_prog" where
  "evaluate C args session = bindp (getActiveTab session) (\<lambda>t.
     let target = fst (snap_target (getp ''frame'' args) t)
     in case getp ''code'' args of
          Str code \<Rightarrow>
            if js_trim code = [] then throw EvaluateNeedsCode
            else seqp (ensureDomain C target ''Runtime'')
              (bindp (cdp_send C target ''Runtime.evaluate'' (Obj [(''expression'', Str code), (''returnByValue'', Bool True),
                 (''awaitPromise'', Bool True), (''userGesture'', Bool True), (''generatePreview'', Bool False)])) eval_reply)
        | _ \<Rightarrow> throw EvaluateNeedsCode)"

section \<open>Listing frames\<close>

text \<open>What \<^verbatim>\<open>chrome.debugger.getTargets\<close> reports; the list is a parameter, \<open>None\<close> where it is absent.\<close>

record target_info =
  tg_id :: string
  tg_tab :: "int option"
  tg_type :: string
  tg_url :: string
  tg_title :: string
  tg_attached :: bool

definition getTargets :: "('w \<Rightarrow> target_info list option) \<Rightarrow> ('w, 'm, target_info list) cdp_prog" where
  "getTargets T = reads (\<lambda>st. case T (world st) of None \<Rightarrow> [] | Some ts \<Rightarrow> ts)"

definition frame_belongs :: "int \<Rightarrow> target_info \<Rightarrow> bool" where
  "frame_belongs t ti \<longleftrightarrow> tg_tab ti = Some t \<or> tg_type ti = ''iframe''"

fun collect_frames :: "int \<Rightarrow> string list \<Rightarrow> target_info list \<Rightarrow> target_info list" where
  "collect_frames t seen [] = []"
| "collect_frames t seen (ti # ts) =
     (if \<not> frame_belongs t ti \<or> tg_id ti \<in> set seen then collect_frames t seen ts
      else ti # collect_frames t (sadd (tg_id ti) seen) ts)"

definition frame_json :: "target_info \<Rightarrow> jsval" where
  "frame_json ti = Obj [(''targetId'', Str (tg_id ti)), (''type'', Str (tg_type ti)), (''url'', Str (tg_url ti)),
     (''title'', Str (tg_title ti)), (''attached'', Bool (tg_attached ti))]"

definition frames :: "('w \<Rightarrow> target_info list option) \<Rightarrow> string \<Rightarrow> ('w, 'm, jsval) sess_prog" where
  "frames T session = bindp (getActiveTab session) (\<lambda>t. bindp (getTargets T) (\<lambda>ts.
     let fs = collect_frames t [] ts
     in ret (Obj [(''tabId'', jint t), (''count'', jnat (length fs)), (''frames'', Arr (map frame_json fs))])))"

section \<open>Screenshots and PDF\<close>

definition shot_format :: "jsval \<Rightarrow> string" where
  "shot_format args = (if getp ''format'' args \<in> {Str ''jpeg'', Str ''jpg''} then ''jpeg'' else ''png'')"

definition shot_quality :: "jsval \<Rightarrow> (string \<times> jsval) list" where
  "shot_quality args =
     (if shot_format args = ''jpeg'' \<and> \<not> nullish (getp ''quality'' args)
      then [(''quality'', Num (num_max (Fin 0) (num_min (Fin 100) (to_number (getp ''quality'' args)))))] else [])"

definition corner_xs :: "rat list \<Rightarrow> rat list" where "corner_xs q = [q ! 0, q ! 2, q ! 4, q ! 6]"
definition corner_ys :: "rat list \<Rightarrow> rat list" where "corner_ys q = [q ! 1, q ! 3, q ! 5, q ! 7]"

definition clip_rect :: "rat list \<Rightarrow> rat \<times> rat \<times> rat \<times> rat" where
  "clip_rect q =
     (let xs = corner_xs q; ys = corner_ys q; x = foldl min (hd xs) (tl xs); y = foldl min (hd ys) (tl ys)
      in (x, y, foldl max (hd xs) (tl xs) - x, foldl max (hd ys) (tl ys) - y))"

definition clip_json :: "rat \<times> rat \<times> rat \<times> rat \<Rightarrow> jsval" where
  "clip_json r = (case r of (x, y, w, h) \<Rightarrow> Obj [(''x'', Num (Fin x)), (''y'', Num (Fin y)), (''width'', Num (Fin w)),
     (''height'', Num (Fin h)), (''scale'', jint 1)])"

definition element_clip :: "'w chrome \<Rightarrow> int \<Rightarrow> jsval \<Rightarrow> ('w, 'm, (string \<times> jsval) list) sess_prog" where
  "element_clip C t selector =
     (if \<not> truthy selector then ret []
      else bindp (resolveObjectId C (TabT t) selector (TabKey t)) (\<lambda>oid.
        seqp (catchp (seqp (cdp_send C (TabT t) ''Runtime.callFunctionOn''
                (Obj [(''objectId'', oid), (''functionDeclaration'', Str (fn_name ScrollIntoView))])) (ret ())) (\<lambda>_. ret ()))
          (bindp (cdp_send C (TabT t) ''DOM.getBoxModel'' (Obj [(''objectId'', oid)])) (\<lambda>box. case quad_of box of
              None \<Rightarrow> throw (TypeError ''content'') | Some q \<Rightarrow> ret [(''clip'', clip_json (clip_rect q))]))))"

text \<open>\<^verbatim>\<open>res.data.length\<close>.\<close>

definition data_length :: "jsval \<Rightarrow> jsval" where
  "data_length d = (case d of Str s \<Rightarrow> jnat (length s) | Arr vs \<Rightarrow> jnat (length vs) | _ \<Rightarrow> getp ''length'' d)"

definition screenshot :: "'w chrome \<Rightarrow> jsval \<Rightarrow> string \<Rightarrow> ('w, 'm, jsval) sess_prog" where
  "screenshot C args session = bindp (getActiveTab session) (\<lambda>t. seqp (ensureDomain C (TabT t) ''Page'')
     (bindp (element_clip C t (getp ''selector'' args)) (\<lambda>clip.
        bindp (cdp_send C (TabT t) ''Page.captureScreenshot''
            (Obj ([(''format'', Str (shot_format args)), (''captureBeyondViewport'', Bool False)] @ shot_quality args @ clip))) (\<lambda>res.
          bindp (member ''data'' res) (\<lambda>d. if nullish d then throw (TypeError ''length'')
            else ret (Obj [(''format'', Str (shot_format args)), (''dataLength'', data_length d), (''data'', d)]))))))"

definition PAPER :: "(string \<times> rat \<times> rat) list" where
  "PAPER = [(''letter'', 17 / 2, 11), (''a4'', 827 / 100, 117 / 10), (''legal'', 17 / 2, 14), (''a3'', 117 / 10, 33 / 2), (''tabloid'', 11, 17)]"

text \<open>A name the table inherits finds something that is not a pair.\<close>

definition paper_size :: "jsval \<Rightarrow> (rat \<times> rat) option" where
  "paper_size f =
     (let name = js_lower (to_string (js_or f (Str ''letter'')))
      in case map_of PAPER name of Some p \<Rightarrow> Some p
         | None \<Rightarrow> if name \<in> set object_names then None else Some (17 / 2, 11))"

definition pdf_scale :: "jsval \<Rightarrow> jsnum" where
  "pdf_scale s = num_max (Fin (1 / 10)) (num_min (Fin 2) (if nullish s then Fin 1 else to_number s))"

definition save_as_pdf :: "'w chrome \<Rightarrow> jsval \<Rightarrow> string \<Rightarrow> ('w, 'm, jsval) sess_prog" where
  "save_as_pdf C args session = bindp (getActiveTab session) (\<lambda>t. seqp (ensureDomain C (TabT t) ''Page'')
     (case paper_size (getp ''paper_format'' args) of
        None \<Rightarrow> throw (TypeError ''not iterable'')
      | Some (w, h) \<Rightarrow>
          bindp (cdp_send C (TabT t) ''Page.printToPDF'' (Obj [(''landscape'', Bool (truthy (getp ''landscape'' args))),
             (''printBackground'', Bool (getp ''print_background'' args \<noteq> Bool False)), (''scale'', Num (pdf_scale (getp ''scale'' args))),
             (''paperWidth'', Num (Fin w)), (''paperHeight'', Num (Fin h)), (''transferMode'', Str ''ReturnAsBase64'')])) (\<lambda>res.
          bindp (query_opt (\<lambda>w. tabs_get C w t)) (\<lambda>tb. bindp (member ''data'' res) (\<lambda>d.
            ret (Obj [(''format'', Str ''pdf''), (''file_name'', js_or (getp ''file_name'' args) (Str [])),
              (''pageTitle'', Str (tab_title tb)), (''data'', d)]))))))"

section \<open>Emulation\<close>

definition quiet_send :: "'w chrome \<Rightarrow> int \<Rightarrow> string \<Rightarrow> jsval \<Rightarrow> ('w, 'm, unit) sess_prog" where
  "quiet_send C t m p = catchp (discard (cdp_send C (TabT t) m p)) (\<lambda>_. ret ())"

definition emulate_clear :: "'w chrome \<Rightarrow> int \<Rightarrow> ('w, 'm, jsval) sess_prog" where
  "emulate_clear C t = seqp (quiet_send C t ''Emulation.clearDeviceMetricsOverride'' Undef)
     (seqp (quiet_send C t ''Emulation.clearGeolocationOverride'' Undef)
       (seqp (quiet_send C t ''Emulation.setUserAgentOverride'' (Obj [(''userAgent'', Str [])]))
         (ret (Obj [(''success'', Bool True), (''cleared'', Bool True)]))))"

text \<open>One override: nothing when it is not asked for, the command and the entry of \<^verbatim>\<open>applied\<close> otherwise.\<close>

definition emulate_device :: "'w chrome \<Rightarrow> int \<Rightarrow> jsval \<Rightarrow> ('w, 'm, (string \<times> jsval) list) sess_prog" where
  "emulate_device C t d =
     (if \<not> truthy d then ret []
      else if nullish (getp ''width'' d) \<or> nullish (getp ''height'' d) then throw DeviceNeedsSize
      else seqp (cdp_send C (TabT t) ''Emulation.setDeviceMetricsOverride'' (Obj
          [(''width'', Num (num_round (to_number (getp ''width'' d)))), (''height'', Num (num_round (to_number (getp ''height'' d)))),
           (''deviceScaleFactor'', js_or (getp ''deviceScaleFactor'' d) (jint 0)), (''mobile'', Bool (truthy (getp ''mobile'' d)))]))
        (ret [(''device'', d)]))"

definition emulate_agent :: "'w chrome \<Rightarrow> int \<Rightarrow> jsval \<Rightarrow> ('w, 'm, (string \<times> jsval) list) sess_prog" where
  "emulate_agent C t u =
     (if \<not> truthy u then ret []
      else seqp (cdp_send C (TabT t) ''Emulation.setUserAgentOverride'' (Obj [(''userAgent'', Str (to_string u))])) (ret [(''userAgent'', u)]))"

definition emulate_geo :: "'w chrome \<Rightarrow> int \<Rightarrow> jsval \<Rightarrow> ('w, 'm, (string \<times> jsval) list) sess_prog" where
  "emulate_geo C t g =
     (if \<not> truthy g then ret []
      else if nullish (getp ''latitude'' g) \<or> nullish (getp ''longitude'' g) then throw GeolocationNeedsCoords
      else seqp (cdp_send C (TabT t) ''Emulation.setGeolocationOverride'' (Obj
          [(''latitude'', getp ''latitude'' g), (''longitude'', getp ''longitude'' g), (''accuracy'', js_or (getp ''accuracy'' g) (jint 100))]))
        (ret [(''geolocation'', g)]))"

definition emulate :: "'w chrome \<Rightarrow> jsval \<Rightarrow> string \<Rightarrow> ('w, 'm, jsval) sess_prog" where
  "emulate C args session = bindp (getActiveTab session) (\<lambda>t.
     if truthy (getp ''clear'' args) then emulate_clear C t
     else bindp (emulate_device C t (getp ''device'' args)) (\<lambda>d.
       bindp (emulate_agent C t (getp ''userAgent'' args)) (\<lambda>u.
       bindp (emulate_geo C t (getp ''geolocation'' args)) (\<lambda>g.
         if d @ u @ g = [] then throw EmulateNeedsOne
         else ret (Obj [(''success'', Bool True), (''applied'', Obj (d @ u @ g))])))))"

section \<open>Downloads\<close>

text \<open>The browser's download service; a rejected call is \<open>None\<close> or \<open>False\<close>.\<close>

record 'w dl_api =
  dl_download :: "jsval \<Rightarrow> 'w \<Rightarrow> jsval option \<times> 'w"
  dl_search :: "jsval \<Rightarrow> 'w \<Rightarrow> jsval list option"
  dl_cancel :: "jsval \<Rightarrow> 'w \<Rightarrow> bool \<times> 'w"

definition start_options :: "jsval \<Rightarrow> (string \<times> jsval) list" where
  "start_options args = (''url'', getp ''url'' args) #
     (if truthy (getp ''filename'' args) then [(''filename'', getp ''filename'' args)] else []) @
     (if nullish (getp ''saveAs'' args) then [] else [(''saveAs'', Bool (truthy (getp ''saveAs'' args)))])"

definition download_json :: "jsval \<Rightarrow> jsval" where
  "download_json d = Obj (map (\<lambda>k. (k, getp k d)) [''id'', ''url'', ''filename'', ''state'', ''bytesReceived'', ''totalBytes'', ''exists''])"

definition download :: "'w dl_api \<Rightarrow> jsval \<Rightarrow> (('w, 'm) core_scheme, jsval) jsprog" where
  "download D args =
     (let cmd = js_or (getp ''cmd'' args) (Str ''list'')
      in if cmd = Str ''start'' then
           (if \<not> truthy (getp ''url'' args) then throw DownloadNeedsUrl
            else bindp (call_opt (dl_download D (Obj (start_options args)))) (\<lambda>i. ret (Obj [(''success'', Bool True), (''id'', i)])))
         else if cmd = Str ''list'' then
           bindp (query_opt (dl_search D (Obj [(''limit'', js_or (getp ''limit'' args) (jint 20)), (''orderBy'', Arr [Str ''-startTime''])])))
             (\<lambda>items. ret (Obj [(''downloads'', Arr (map download_json items))]))
         else if cmd = Str ''cancel'' then
           (if nullish (getp ''id'' args) then throw CancelNeedsId
            else seqp (call_bool (dl_cancel D (getp ''id'' args))) (ret (Obj [(''success'', Bool True)])))
         else throw (UnknownDownloadCmd cmd))"

end
