(* ===== verification/PageProps.thy ===== *)
theory PageProps
  imports PageTools
begin

text \<open>
  What the page tools guarantee: the region a screenshot is clipped to, the frames that are listed, the bounds
  of what is sent.
\<close>

section \<open>Screenshots\<close>

definition covers :: "rat \<times> rat \<times> rat \<times> rat \<Rightarrow> rat \<times> rat \<Rightarrow> bool" where
  "covers r p \<longleftrightarrow> (case r of (x, y, w, h) \<Rightarrow> x \<le> fst p \<and> fst p \<le> x + w \<and> y \<le> snd p \<and> snd p \<le> y + h)"

definition corners :: "rat list \<Rightarrow> (rat \<times> rat) list" where
  "corners q = zip (corner_xs q) (corner_ys q)"

lemma span_of_four:
  fixes a b c d :: rat
  shows "a \<in> {min (min (min a b) c) d .. max (max (max a b) c) d}" "b \<in> {min (min (min a b) c) d .. max (max (max a b) c) d}"
    "c \<in> {min (min (min a b) c) d .. max (max (max a b) c) d}" "d \<in> {min (min (min a b) c) d .. max (max (max a b) c) d}"
  by (simp_all add: min_le_iff_disj le_max_iff_disj)

lemma clip_rect_least:
  "(\<forall>p \<in> set (corners q). covers (clip_rect q) p)
   \<and> (\<forall>r p. (\<forall>c \<in> set (corners q). covers r c) \<and> covers (clip_rect q) p \<longrightarrow> covers r p)"
proof -
  define x0 x1 y0 y1 where "x0 = min (min (min (q ! 0) (q ! 2)) (q ! 4)) (q ! 6)" and "x1 = max (max (max (q ! 0) (q ! 2)) (q ! 4)) (q ! 6)"
    and "y0 = min (min (min (q ! 1) (q ! 3)) (q ! 5)) (q ! 7)" and "y1 = max (max (max (q ! 1) (q ! 3)) (q ! 5)) (q ! 7)"
  note e = this
  have c: "clip_rect q = (x0, y0, x1 - x0, y1 - y0)" and k: "corners q = [(q ! 0, q ! 1), (q ! 2, q ! 3), (q ! 4, q ! 5), (q ! 6, q ! 7)]"
    by (simp_all add: clip_rect_def corner_xs_def corner_ys_def corners_def Let_def e)
  have x: "q ! 0 \<in> {x0..x1}" "q ! 2 \<in> {x0..x1}" "q ! 4 \<in> {x0..x1}" "q ! 6 \<in> {x0..x1}"
    and y: "q ! 1 \<in> {y0..y1}" "q ! 3 \<in> {y0..y1}" "q ! 5 \<in> {y0..y1}" "q ! 7 \<in> {y0..y1}"
    unfolding e by (rule span_of_four)+
  have in_clip: "covers (clip_rect q) p = (x0 \<le> fst p \<and> fst p \<le> x1 \<and> y0 \<le> snd p \<and> snd p \<le> y1)" for p
    by (simp add: c covers_def)
  have "covers r p" if r: "\<forall>c \<in> set (corners q). covers r c" and p: "covers (clip_rect q) p" for r p
  proof -
    obtain a b w h where [simp]: "r = (a, b, w, h)" by (cases r)
    note p = p [unfolded in_clip]
    have "a \<le> x0" "x1 \<le> a + w" "b \<le> y0" "y1 \<le> b + h"
      unfolding e using r by (simp_all add: k covers_def)
    with p show ?thesis by (simp add: covers_def)
  qed
  moreover have "\<forall>p \<in> set (corners q). covers (clip_rect q) p"
    unfolding in_clip k using x y by simp
  ultimately show ?thesis by blast
qed

lemma shot_quality_bounds:
  "getp ''quality'' (Obj (shot_quality args)) = Num (Fin q) \<Longrightarrow> 0 \<le> q \<and> q \<le> 100"
  by (auto simp: shot_quality_def getp_Obj num_clamp split: if_splits jsnum.splits)

definition CAPTURE :: string where "CAPTURE = ''Page.captureScreenshot''"

lemma capture_commands: "no_enable CAPTURE" "CAPTURE \<notin> set lookup_commands"
  by (simp_all add: CAPTURE_def no_enable_def ends_with_def lookup_commands_def)

lemma not_capture: "''Runtime.callFunctionOn'' \<noteq> CAPTURE" "''DOM.getBoxModel'' \<noteq> CAPTURE"
  by (simp_all add: CAPTURE_def)

lemma silent_element_clip: "keeps (silent CAPTURE l) (element_clip (recording C) t selector)"
  unfolding element_clip_def by (intro hoare_rules silent_lookup silent_cdp capture_commands not_capture)

text \<open>Where the clip of an element comes from.\<close>

definition box_of :: "'w chrome \<Rightarrow> int \<Rightarrow> jsval \<Rightarrow> rat list \<Rightarrow> ('w, 'm) sess_state_scheme \<Rightarrow> bool" where
  "box_of C t selector q st \<longleftrightarrow> (\<exists>oid box (s1 :: ('w, 'm) sess_state_scheme) (s2 :: ('w, 'm) sess_state_scheme) s3. resolveObjectId C (TabT t) selector (TabKey t) st = (Inr oid, s1)
     \<and> cdp_send C (TabT t) ''DOM.getBoxModel'' (Obj [(''objectId'', oid)]) s2 = (Inr box, s3) \<and> quad_of box = Some q)"

lemma element_clip_box:
  assumes "element_clip C t selector st = (Inr clip, st')"
  shows "if truthy selector then \<exists>q. clip = [(''clip'', clip_json (clip_rect q))] \<and> box_of C t selector q st else clip = []"
proof (cases "truthy selector")
  case True
  with assms obtain oid s1 where o: "resolveObjectId C (TabT t) selector (TabKey t) st = (Inr oid, s1)"
    and r: "seqp (catchp (seqp (cdp_send C (TabT t) ''Runtime.callFunctionOn''
                (Obj [(''objectId'', oid), (''functionDeclaration'', Str (fn_name ScrollIntoView))])) (ret ())) (\<lambda>_. ret ()))
          (bindp (cdp_send C (TabT t) ''DOM.getBoxModel'' (Obj [(''objectId'', oid)])) (\<lambda>box. case quad_of box of
              None \<Rightarrow> throw (TypeError ''content'') | Some q \<Rightarrow> ret [(''clip'', clip_json (clip_rect q))])) s1 = (Inr clip, st')"
    unfolding element_clip_def by (simp only: not_True_eq_False if_False) (erule bindp_Inr_cases)
  from r obtain u s2 where "bindp (cdp_send C (TabT t) ''DOM.getBoxModel'' (Obj [(''objectId'', oid)])) (\<lambda>box. case quad_of box of
              None \<Rightarrow> throw (TypeError ''content'') | Some q \<Rightarrow> ret [(''clip'', clip_json (clip_rect q))]) s2 = (Inr clip, st')"
    by (rule seqp_Inr_cases)
  then obtain box s3 where b: "cdp_send C (TabT t) ''DOM.getBoxModel'' (Obj [(''objectId'', oid)]) s2 = (Inr box, s3)"
    and c: "(case quad_of box of None \<Rightarrow> throw (TypeError ''content'') | Some q \<Rightarrow> ret [(''clip'', clip_json (clip_rect q))]) s3 = (Inr clip, st')"
    by (rule bindp_Inr_cases)
  from c obtain q where "quad_of box = Some q" "clip = [(''clip'', clip_json (clip_rect q))]"
    by (auto simp: throw_def ret_def split: option.splits)
  with True o b show ?thesis unfolding box_of_def by auto
next
  case False
  with assms show ?thesis by (simp add: element_clip_def ret_def)
qed

definition shot_params :: "jsval \<Rightarrow> (string \<times> jsval) list \<Rightarrow> (string \<times> jsval) list" where
  "shot_params args clip = [(''format'', Str (shot_format args)), (''captureBeyondViewport'', Bool False)] @ shot_quality args @ clip"

text \<open>The commands of a screenshot that succeeds, and the clip they carry.\<close>

lemma screenshot_run:
  fixes C :: "'w chrome" and st st' :: "('w \<times> cmd list, 'm) sess_state_scheme"
  assumes "screenshot (recording C) args session st = (Inr v, st')"
  obtains t pre clip s2 s3 where "cmds st' = cmds st @ pre @ [(TabT t, ''Page.captureScreenshot'', Obj (shot_params args clip))]"
    "\<forall>(d, m, p) \<in> set pre. m \<noteq> CAPTURE" "getp ''format'' v = Str (shot_format args)"
    "element_clip (recording C) t (getp ''selector'' args) (s2 :: ('w \<times> cmd list, 'm) sess_state_scheme) = (Inr clip, s3)"
proof -
  let ?l = "cmds st"
  let ?ps = "shot_params args"
  obtain t s1 where t: "getActiveTab session st = (Inr t, s1)"
    and r1: "seqp (ensureDomain (recording C) (TabT t) ''Page'') (bindp (element_clip (recording C) t (getp ''selector'' args)) (\<lambda>clip.
        bindp (cdp_send (recording C) (TabT t) ''Page.captureScreenshot'' (Obj (?ps clip))) (\<lambda>res.
          bindp (member ''data'' res) (\<lambda>d. if nullish d then throw (TypeError ''length'')
            else ret (Obj [(''format'', Str (shot_format args)), (''dataLength'', data_length d), (''data'', d)]))))) s1 = (Inr v, st')"
    using assms unfolding screenshot_def shot_params_def by (rule bindp_Inr_cases)
  from r1 obtain u s2 where e: "ensureDomain (recording C) (TabT t) ''Page'' s1 = (Inr u, s2)"
    and r2: "bindp (element_clip (recording C) t (getp ''selector'' args)) (\<lambda>clip.
        bindp (cdp_send (recording C) (TabT t) ''Page.captureScreenshot'' (Obj (?ps clip))) (\<lambda>res.
          bindp (member ''data'' res) (\<lambda>d. if nullish d then throw (TypeError ''length'')
            else ret (Obj [(''format'', Str (shot_format args)), (''dataLength'', data_length d), (''data'', d)])))) s2 = (Inr v, st')"
    by (rule seqp_Inr_cases)
  from r2 obtain clip s3 where c: "element_clip (recording C) t (getp ''selector'' args) s2 = (Inr clip, s3)"
    and r3: "bindp (cdp_send (recording C) (TabT t) ''Page.captureScreenshot'' (Obj (?ps clip))) (\<lambda>res.
          bindp (member ''data'' res) (\<lambda>d. if nullish d then throw (TypeError ''length'')
            else ret (Obj [(''format'', Str (shot_format args)), (''dataLength'', data_length d), (''data'', d)]))) s3 = (Inr v, st')"
    by (rule bindp_Inr_cases)
  from r3 obtain res s4 where x: "cdp_send (recording C) (TabT t) ''Page.captureScreenshot'' (Obj (?ps clip)) s3 = (Inr res, s4)"
    and r4: "bindp (member ''data'' res) (\<lambda>d. if nullish d then throw (TypeError ''length'')
            else ret (Obj [(''format'', Str (shot_format args)), (''dataLength'', data_length d), (''data'', d)])) s4 = (Inr v, st')"
    by (rule bindp_Inr_cases)
  have v: "getp ''format'' v = Str (shot_format args)" "st' = s4"
    using r4 by (auto simp: member_def bindp_def throw_def ret_def getp_Obj split: if_splits sum.splits)
  from x obtain s3a where at3: "attach (recording C) (TabT t) s3 = (Inr (), s3a)"
    and raw: "rawSend (recording C) (TabT t) ''Page.captureScreenshot'' (Obj (?ps clip)) s3a = (Inr res, s4)"
    unfolding cdp_send_def by (elim seqp_Inr_cases) auto
  have "silent CAPTURE ?l s3a"
    using keepsD [OF silent_session(1) silent_now] keepsD [OF silent_cdp(3) [OF capture_commands(1)], of ?l s1]
      keepsD [OF silent_element_clip, of ?l s2] keepsD [OF silent_cdp(2) [OF capture_commands(1)], of ?l s3] t e c at3
    by (metis snd_conv)
  then obtain pre where pre: "cmds s3a = ?l @ pre" "\<forall>(d, m, p) \<in> set pre. m \<noteq> CAPTURE" unfolding silent_def by blast
  have sent: "cmds st' = ?l @ pre @ [(TabT t, ''Page.captureScreenshot'', Obj (?ps clip))]"
    using rawSend_cmds [OF raw] pre(1) v(2) by (simp add: js_or_def truthy_def)
  show thesis by (rule that [OF sent pre(2) v(1) c])
qed


section \<open>Frames\<close>

lemma subseq_set: "subseq xs ys \<Longrightarrow> x \<in> set xs \<Longrightarrow> x \<in> set ys"
  by (meson subseq_order.order_trans subseq_singleton_left)

lemma collect_frames_step:
  "\<not> frame_belongs t ti \<or> tg_id ti \<in> set seen \<Longrightarrow> collect_frames t seen (ti # ts) = collect_frames t seen ts"
  "frame_belongs t ti \<Longrightarrow> tg_id ti \<notin> set seen \<Longrightarrow> collect_frames t seen (ti # ts) = ti # collect_frames t (sadd (tg_id ti) seen) ts"
  by simp_all

lemma collect_frames_spec:
  "distinct (map tg_id (collect_frames t seen ts)) \<and> (\<forall>ti \<in> set (collect_frames t seen ts). tg_id ti \<notin> set seen \<and> frame_belongs t ti)
   \<and> subseq (collect_frames t seen ts) ts
   \<and> (\<forall>ti \<in> set ts. frame_belongs t ti \<longrightarrow> tg_id ti \<in> set seen \<union> tg_id ` set (collect_frames t seen ts))"
proof (induction ts arbitrary: seen)
  case (Cons ti ts)
  show ?case
  proof (cases "\<not> frame_belongs t ti \<or> tg_id ti \<in> set seen")
    case True
    then show ?thesis unfolding collect_frames_step(1) [OF True] using Cons.IH [of seen] by auto
  next
    case False
    then have c: "frame_belongs t ti" "tg_id ti \<notin> set seen" by simp_all
    note ih = Cons.IH [of "sadd (tg_id ti) seen"]
    then have "\<forall>x \<in> set (collect_frames t (sadd (tg_id ti) seen) ts). tg_id x \<noteq> tg_id ti \<and> tg_id x \<notin> set seen \<and> frame_belongs t x"
      by simp
    with ih c show ?thesis unfolding collect_frames_step(2) [OF c] by auto
  qed
qed simp

text \<open>
  The frames tool lists, once each and in the browser's order, exactly the debugger targets of the
  session's tab and every iframe target there is, also those of other tabs and other sessions.
\<close>

lemma frames_lists_every_iframe:
  assumes "frames T session st = (Inr v, st')"
  shows "\<exists>t fs. st' = snd (getActiveTab session st) \<and> fst (getActiveTab session st) = Inr t
    \<and> v = Obj [(''tabId'', jint t), (''count'', jnat (length fs)), (''frames'', Arr (map frame_json fs))]
    \<and> distinct (map tg_id fs)
    \<and> (\<forall>ts. T (world st') = Some ts \<longrightarrow> subseq fs ts
        \<and> tg_id ` set fs = tg_id ` {ti \<in> set ts. tg_tab ti = Some t \<or> tg_type ti = ''iframe''})"
proof -
  obtain t s1 where t: "getActiveTab session st = (Inr t, s1)"
    using assms unfolding frames_def by (rule bindp_Inr_cases)
  let ?ts = "case T (world s1) of None \<Rightarrow> [] | Some ts \<Rightarrow> ts"
  let ?fs = "collect_frames t [] ?ts"
  have v: "v = Obj [(''tabId'', jint t), (''count'', jnat (length ?fs)), (''frames'', Arr (map frame_json ?fs))]" "st' = s1"
    using assms unfolding frames_def bindp_Inr [where m = "getActiveTab session", OF t] getTargets_def bindp_reads Let_def
    by (auto simp: ret_def)
  have "tg_id ` set ?fs = tg_id ` {ti \<in> set ts. tg_tab ti = Some t \<or> tg_type ti = ''iframe''}" if "T (world s1) = Some ts" for ts
  proof (rule set_eqI iffI)+
    fix i
    show "i \<in> tg_id ` set ?fs \<Longrightarrow> i \<in> tg_id ` {ti \<in> set ts. tg_tab ti = Some t \<or> tg_type ti = ''iframe''}"
      using collect_frames_spec [of t "[]" ?ts] subseq_set that unfolding frame_belongs_def by fastforce
    show "i \<in> tg_id ` {ti \<in> set ts. tg_tab ti = Some t \<or> tg_type ti = ''iframe''} \<Longrightarrow> i \<in> tg_id ` set ?fs"
      using collect_frames_spec [of t "[]" ?ts] that unfolding frame_belongs_def by auto
  qed
  moreover have "subseq ?fs ts" if "T (world s1) = Some ts" for ts
    using collect_frames_spec [of t "[]" ?ts] that by simp
  ultimately show ?thesis
    using t v collect_frames_spec [of t "[]" ?ts] by (intro exI [of _ t] exI [of _ ?fs]) simp
qed

section \<open>Calls that are refused\<close>

lemma paper_size_default: "paper_size Undef = Some (17 / 2, 11)" "paper_size (Str ''A4'') = Some (827 / 100, 117 / 10)"
  "paper_size (Str ''constructor'') = None"
  by code_simp+

lemma pdf_scale_bounds: "case pdf_scale s of NaN \<Rightarrow> True | Fin q \<Rightarrow> 1 / 10 \<le> q \<and> q \<le> 2 | _ \<Rightarrow> False"
  by (auto simp: pdf_scale_def num_clamp split: jsnum.splits)

text \<open>
  Calls with arguments a tool refuses reach neither the page nor the debugger.  Blank code, a key press
  without a key, an upload without files, an element action without a selector and an emulation that asks for
  nothing fail and leave everything but the session lookup as it was; a download without a URL, a cancellation
  without an id and an unknown download command leave everything as it was.
\<close>

lemma refused_calls_reach_nothing:
  assumes "getActiveTab session st = (Inr t, seen)"
  shows "(\<forall>code. getp ''code'' args = Str code \<and> js_trim code = [] \<longrightarrow> evaluate C args session st = (Inl EvaluateNeedsCode, seen))
    \<and> (\<not> truthy (getp ''key'' args) \<longrightarrow> press_key C args session st = (Inl PressKeyNeedsKey, seen))
    \<and> ((\<nexists>f fs. getp ''files'' args = Arr (f # fs)) \<longrightarrow> upload C args session st = (Inl UploadNeedsFiles, seen))
    \<and> (\<not> truthy (getp ''selector'' args) \<longrightarrow> click C args session st = (Inl SelectorRequired, seen)
        \<and> fill C args session st = (Inl SelectorRequired, seen) \<and> select_option C args session st = (Inl SelectorRequired, seen))
    \<and> ((\<forall>k \<in> {''clear'', ''device'', ''userAgent'', ''geolocation''}. \<not> truthy (getp k args))
        \<longrightarrow> emulate C args session st = (Inl EmulateNeedsOne, seen))
    \<and> (getp ''cmd'' args = Str ''start'' \<and> \<not> truthy (getp ''url'' args) \<longrightarrow> download D args st = (Inl DownloadNeedsUrl, st))
    \<and> (getp ''cmd'' args = Str ''cancel'' \<and> nullish (getp ''id'' args) \<longrightarrow> download D args st = (Inl CancelNeedsId, st))
    \<and> (truthy (getp ''cmd'' args) \<and> getp ''cmd'' args \<notin> {Str ''start'', Str ''list'', Str ''cancel''}
        \<longrightarrow> download D args st = (Inl (UnknownDownloadCmd (getp ''cmd'' args)), st))"
proof -
  note a = bindp_Inr [where m = "getActiveTab session", OF assms]
  have tg: "targetOf session args st = (Inr (snap_target (getp ''frame'' args) t), seen)"
    unfolding targetOf_def a by (simp add: ret_def)
  note b = bindp_Inr [where m = "targetOf session args", OF tg]
  obtain target key where tk: "snap_target (getp ''frame'' args) t = (target, key)" by (cases "snap_target (getp ''frame'' args) t")
  have refused: "bindp (throw e) f s = (Inl e, s)" for e s and f :: "'x \<Rightarrow> ('s, 'e, 'y) prog"
    by (simp add: bindp_def throw_def)
  have ev: "evaluate C args session st = (Inl EvaluateNeedsCode, seen)" if "getp ''code'' args = Str code" "js_trim code = []" for code
    unfolding evaluate_def a Let_def that(1) by (simp add: that throw_def)
  have pk: "press_key C args session st = (Inl PressKeyNeedsKey, seen)" if "\<not> truthy (getp ''key'' args)"
    unfolding press_key_def b tk Let_def by (simp add: that throw_def)
  have up: "upload C args session st = (Inl UploadNeedsFiles, seen)" if "\<nexists>f fs. getp ''files'' args = Arr (f # fs)"
    unfolding upload_def b tk using that by (simp add: throw_def split: jsval.splits list.splits)
  have sl: "click C args session st = (Inl SelectorRequired, seen) \<and> fill C args session st = (Inl SelectorRequired, seen)
      \<and> select_option C args session st = (Inl SelectorRequired, seen)" if "\<not> truthy (getp ''selector'' args)"
    unfolding click_def fill_def select_option_def b tk prod.case resolveObjectId_def if_P [OF that] refused by simp
  have em: "emulate C args session st = (Inl EmulateNeedsOne, seen)"
    if "\<forall>k \<in> {''clear'', ''device'', ''userAgent'', ''geolocation''}. \<not> truthy (getp k args)"
  proof -
    have "\<not> truthy (getp ''clear'' args)" "\<not> truthy (getp ''device'' args)" "\<not> truthy (getp ''userAgent'' args)"
      "\<not> truthy (getp ''geolocation'' args)" using that by simp_all
    then show ?thesis
      unfolding emulate_def a emulate_device_def emulate_agent_def emulate_geo_def
      by (simp only: if_False if_True not_False_eq_True) (simp add: bindp_def ret_def throw_def)
  qed
  have d1: "download D args st = (Inl DownloadNeedsUrl, st)" if "getp ''cmd'' args = Str ''start''" "\<not> truthy (getp ''url'' args)"
    using that by (simp add: download_def js_or_def truthy_def throw_def)
  have d2: "download D args st = (Inl CancelNeedsId, st)" if "getp ''cmd'' args = Str ''cancel''" "nullish (getp ''id'' args)"
    using that by (simp add: download_def js_or_def truthy_def throw_def)
  have d3: "download D args st = (Inl (UnknownDownloadCmd (getp ''cmd'' args)), st)"
    if "truthy (getp ''cmd'' args)" "getp ''cmd'' args \<notin> {Str ''start'', Str ''list'', Str ''cancel''}"
    using that by (simp add: download_def js_or_def throw_def)
  show ?thesis
    apply (intro conjI)
    subgoal using ev by blast
    subgoal using pk by blast
    subgoal using up by blast
    subgoal using sl by blast
    subgoal using em by blast
    subgoal using d1 by blast
    subgoal using d2 by blast
    subgoal using d3 by blast
    done
qed

section \<open>Instances\<close>

definition camera :: "unit chrome" where
  "camera = answering\<lparr>dbg_send := (\<lambda>d m p w. (Inr (
     if m = ''DOM.getBoxModel'' then Obj [(''model'', Obj [(''content'', Arr (map jint [10, 20, 110, 20, 110, 70, 10, 70]))])]
     else if m = ''Page.captureScreenshot'' then Obj [(''data'', Str ''iVBOR'')]
     else if m = ''Runtime.evaluate'' then Obj [(''result'', Obj [(''objectId'', Str ''o1'')])]
     else Obj []), w))\<rparr>"

definition shot_args :: jsval where
  "shot_args = Obj [(''format'', Str ''jpg''), (''quality'', jint 250), (''selector'', Str ''main'')]"


definition two_targets :: "unit \<Rightarrow> target_info list option" where
  "two_targets w = Some [\<lparr>tg_id = ''a'', tg_tab = Some 7, tg_type = ''page'', tg_url = [], tg_title = [], tg_attached = True\<rparr>,
     \<lparr>tg_id = ''b'', tg_tab = None, tg_type = ''iframe'', tg_url = ''https://other.example/'', tg_title = [], tg_attached = False\<rparr>,
     \<lparr>tg_id = ''c'', tg_tab = Some 8, tg_type = ''page'', tg_url = [], tg_title = [], tg_attached = False\<rparr>]"

lemma frames_lists_every_iframe_witness:
  "\<exists>fs. fst (frames two_targets ''default'' snap_state) = Inr (Obj [(''tabId'', jint 7), (''count'', jnat 2), (''frames'', Arr (map frame_json fs))])
     \<and> distinct (map tg_id fs)"
proof -
  have "\<exists>v. fst (frames two_targets ''default'' snap_state) = Inr v \<and> getp ''count'' v = jnat 2 \<and> getp ''tabId'' v = jint 7"
    by (intro exI conjI) code_simp+
  then obtain v where v: "fst (frames two_targets ''default'' snap_state) = Inr v" "getp ''count'' v = jnat 2" "getp ''tabId'' v = jint 7" by blast
  from frames_lists_every_iframe [OF run_eq [OF v(1)]] v show ?thesis
    by (auto simp: getp_Obj)
qed

definition no_downloads :: "unit dl_api" where
  "no_downloads = \<lparr>dl_download = (\<lambda>_ w. (None, w)), dl_search = (\<lambda>_ _. None), dl_cancel = (\<lambda>_ w. (False, w))\<rparr>"

lemma refused_calls_reach_nothing_witness:
  "upload answering Undef ''default'' snap_state = (Inl UploadNeedsFiles, snap_state)
   \<and> click answering Undef ''default'' snap_state = (Inl SelectorRequired, snap_state)"
proof -
  have "getActiveTab ''default'' snap_state = (Inr 7, snap_state)" by code_simp
  from refused_calls_reach_nothing [OF this, of Undef answering no_downloads] show ?thesis by (simp add: truthy_def)
qed

end
