(* ===== verification/WsClient.thy ===== *)
theory WsClient
  imports Errors
begin

text \<open>
  \<^verbatim>\<open>src/ws-client.js\<close>: the link to the daemon, as a machine of events.  The record holds the module
  variables, the three stored settings, every socket ever made with the phase the browser has it in,
  the pending timers, the async calls suspended at an \<^verbatim>\<open>await\<close>, and the messages sent.  \<open>V\<close> says for
  which URLs \<^verbatim>\<open>new WebSocket\<close> does not throw.  A setting whose write is awaited changes when the write
  is fulfilled; the notice is written without waiting, so its writes are a log.
\<close>

section \<open>State\<close>

definition RECONNECT_MS :: nat where "RECONNECT_MS = 5000"
definition REJECTED_RECONNECT_MS :: nat where "REJECTED_RECONNECT_MS = 30000"
definition PROTOCOL_VERSION :: nat where "PROTOCOL_VERSION = 2"

datatype conn = Disconnected | Connecting | Connected
datatype sock_phase = SConnecting | SOpen | SClosing | SClosed

datatype notice = UpdateExtension jsval | UpdateDaemon jsval | OtherBrowser jsval

text \<open>Where an async function is suspended, with what it needs when it resumes.\<close>

datatype suspended =
    InConnect                         \<comment> \<open>connect, storing the URL\<close>
  | InDisconnect "string option"      \<comment> \<open>disconnect, storing the flag; then connect to that URL\<close>
  | InReconnect string bool           \<comment> \<open>reconnectIfNeeded, with the settings read\<close>
  | InTool jsval                      \<comment> \<open>handleToolCall, by its message\<close>

datatype out_msg = Hello nat | Pong | ToolResult jsval "js_error + jsval"

record ws =
  socket :: "nat option"
  state :: conn
  currentUrl :: string
  shouldReconnect :: bool
  reconnectTimer :: "nat option"
  nextReconnectMs :: nat
  ws_notice :: "notice option"
  stored_url :: string
  stored_reconnect :: bool
  notice_writes :: "notice option list"
  sockets :: "(string \<times> sock_phase) list"
  timers :: "(nat \<times> nat) list"
  timer_count :: nat
  suspended :: "suspended list"
  sent :: "(nat \<times> out_msg) list"

definition ws_init :: "string \<Rightarrow> bool \<Rightarrow> ws" where
  "ws_init url reconnect = \<lparr>socket = None, state = Disconnected, currentUrl = [], shouldReconnect = False,
     reconnectTimer = None, nextReconnectMs = RECONNECT_MS, ws_notice = None, stored_url = url,
     stored_reconnect = reconnect, notice_writes = [], sockets = [], timers = [], timer_count = 0,
     suspended = [], sent = []\<rparr>"

definition busy :: "ws \<Rightarrow> bool" where
  "busy st \<longleftrightarrow> state st = Connecting \<or> state st = Connected"

definition isConnected :: "ws \<Rightarrow> bool" where
  "isConnected st \<longleftrightarrow> state st = Connected"

definition setNotice :: "notice option \<Rightarrow> ws \<Rightarrow> ws" where
  "setNotice n st = st\<lparr>ws_notice := n, notice_writes := notice_writes st @ [n]\<rparr>"

definition set_sock :: "nat \<Rightarrow> sock_phase \<Rightarrow> ws \<Rightarrow> ws" where
  "set_sock s p st = st\<lparr>sockets := (sockets st)[s := (fst (sockets st ! s), p)]\<rparr>"

definition sock_phase :: "ws \<Rightarrow> nat \<Rightarrow> sock_phase option" where
  "sock_phase st s = (if s < length (sockets st) then Some (snd (sockets st ! s)) else None)"

section \<open>Timers\<close>

definition clearReconnect :: "ws \<Rightarrow> ws" where
  "clearReconnect st = (case reconnectTimer st of None \<Rightarrow> st
     | Some t \<Rightarrow> st\<lparr>timers := filter (\<lambda>(i, _). i \<noteq> t) (timers st), reconnectTimer := None\<rparr>)"

definition scheduleReconnect :: "ws \<Rightarrow> ws" where
  "scheduleReconnect st =
     (let st1 = clearReconnect st; t = timer_count st1
      in st1\<lparr>nextReconnectMs := RECONNECT_MS, reconnectTimer := Some t,
             timers := timers st1 @ [(t, nextReconnectMs st1)], timer_count := Suc t\<rparr>)"

section \<open>Connecting and disconnecting\<close>

definition ws_send :: "out_msg \<Rightarrow> ws \<Rightarrow> ws" where
  "ws_send m st = (case socket st of None \<Rightarrow> st
     | Some s \<Rightarrow> if sock_phase st s = Some SOpen then st\<lparr>sent := sent st @ [(s, m)]\<rparr> else st)"

text \<open>The part of \<^verbatim>\<open>connect\<close> after the possible \<^verbatim>\<open>await disconnect()\<close>, up to its own \<^verbatim>\<open>await\<close>.\<close>

definition connect_rest :: "string \<Rightarrow> ws \<Rightarrow> ws" where
  "connect_rest url st =
     (if busy st then st
      else (let st1 = st\<lparr>shouldReconnect := True, state := Connecting,
                        currentUrl := (if url \<noteq> [] then url else currentUrl st)\<rparr>
            in if currentUrl st1 = [] then st1\<lparr>state := Disconnected\<rparr>
               else st1\<lparr>suspended := suspended st1 @ [InConnect]\<rparr>))"

definition disconnect_begin :: "string option \<Rightarrow> ws \<Rightarrow> ws" where
  "disconnect_begin next st =
     (let st1 = clearReconnect (st\<lparr>shouldReconnect := False\<rparr>)
      in st1\<lparr>suspended := suspended st1 @ [InDisconnect next]\<rparr>)"

definition connect :: "string \<Rightarrow> ws \<Rightarrow> ws" where
  "connect url st =
     (if url \<noteq> [] \<and> url \<noteq> currentUrl st \<and> busy st then disconnect_begin (Some url) st else connect_rest url st)"

definition disconnect :: "ws \<Rightarrow> ws" where
  "disconnect st = disconnect_begin None st"

definition open_socket :: "(string \<Rightarrow> bool) \<Rightarrow> ws \<Rightarrow> ws" where
  "open_socket V st =
     (if V (currentUrl st)
      then st\<lparr>sockets := sockets st @ [(currentUrl st, SConnecting)], socket := Some (length (sockets st))\<rparr>
      else (let st1 = st\<lparr>state := Disconnected\<rparr> in if shouldReconnect st1 then scheduleReconnect st1 else st1))"

definition close_phase :: "sock_phase \<Rightarrow> sock_phase" where
  "close_phase p = (if p = SClosed then SClosed else SClosing)"

definition disconnect_end :: "ws \<Rightarrow> ws" where
  "disconnect_end st =
     (let st1 = (case socket st of None \<Rightarrow> st
        | Some s \<Rightarrow> (set_sock s (close_phase (snd (sockets st ! s))) st)\<lparr>socket := None\<rparr>)
      in st1\<lparr>state := Disconnected\<rparr>)"

definition reconnectIfNeeded :: "ws \<Rightarrow> ws" where
  "reconnectIfNeeded st =
     (if busy st then st else st\<lparr>suspended := suspended st @ [InReconnect (stored_url st) (stored_reconnect st)]\<rparr>)"

text \<open>
  Resuming a suspended call whose storage access was fulfilled (\<open>ok\<close>) or rejected; a rejection leaves
  the rest of the function undone.
\<close>

definition resume :: "(string \<Rightarrow> bool) \<Rightarrow> bool \<Rightarrow> suspended \<Rightarrow> ws \<Rightarrow> ws" where
  "resume V ok k st =
     (if \<not> ok then st
      else case k of
        InConnect \<Rightarrow> open_socket V (st\<lparr>stored_url := currentUrl st, stored_reconnect := True\<rparr>)
      | InDisconnect next \<Rightarrow>
          (let st1 = disconnect_end (st\<lparr>stored_reconnect := False\<rparr>)
           in case next of None \<Rightarrow> st1 | Some u \<Rightarrow> connect_rest u st1)
      | InReconnect u r \<Rightarrow> if r \<and> u \<noteq> [] then connect u (st\<lparr>shouldReconnect := True\<rparr>) else st
      | InTool _ \<Rightarrow> st)"

section \<open>Messages\<close>

definition onHelloAck :: "jsval \<Rightarrow> ws \<Rightarrow> ws" where
  "onHelloAck payload st =
     (if getp ''compatible'' payload \<noteq> Bool False then setNotice None st
      else (let daemonProto = getp ''protocolVersion'' payload
            in if num_gt (to_number daemonProto) (Fin (of_nat PROTOCOL_VERSION))
               then setNotice (Some (UpdateExtension daemonProto)) st
               else setNotice (Some (UpdateDaemon daemonProto)) st))"

definition onRejected :: "jsval \<Rightarrow> ws \<Rightarrow> ws" where
  "onRejected payload st =
     (setNotice (Some (OtherBrowser (js_or (getp ''reason'' payload)
        (Str ''Another browser is already connected to this daemon.'')))) st)\<lparr>nextReconnectMs := REJECTED_RECONNECT_MS\<rparr>"

definition handleMessage :: "jsval \<Rightarrow> ws \<Rightarrow> ws" where
  "handleMessage msg st =
     (let ty = getp ''type'' msg
      in if ty = Str ''ping'' then ws_send Pong st
         else if ty = Str ''hello_ack'' then onHelloAck (js_or (getp ''payload'' msg) (Obj [])) st
         else if ty = Str ''connection_rejected'' then onRejected (js_or (getp ''payload'' msg) (Obj [])) st
         else if ty = Str ''tool_call'' then st\<lparr>suspended := suspended st @ [InTool msg]\<rparr>
         else st)"

text \<open>
  \<^verbatim>\<open>handleToolCall\<close>: the action, arguments, session and limits it hands to the dispatcher, and what
  it does when the dispatched handler has returned or thrown.
\<close>

definition tool_request :: "jsval \<Rightarrow> jsval \<times> jsval \<times> jsval \<times> jsval" where
  "tool_request msg = (getp ''action'' msg, getp ''args'' msg, getp ''session'' msg,
     js_or (getp ''domain_tab_limits'' msg) (Arr []))"

definition tool_done :: "jsval \<Rightarrow> js_error + jsval \<Rightarrow> ws \<Rightarrow> ws" where
  "tool_done msg r st = ws_send (ToolResult (getp ''id'' msg) r) st"

section \<open>Socket and timer events\<close>

definition on_open :: "nat \<Rightarrow> ws \<Rightarrow> ws" where
  "on_open s st =
     (let st1 = clearReconnect ((set_sock s SOpen st)\<lparr>state := Connected, nextReconnectMs := RECONNECT_MS\<rparr>)
      in ws_send (Hello PROTOCOL_VERSION) st1)"

definition on_close :: "nat \<Rightarrow> ws \<Rightarrow> ws" where
  "on_close s st =
     (let st1 = set_sock s SClosed st
      in if socket st1 \<noteq> Some s then st1
         else (let st2 = st1\<lparr>state := Disconnected, socket := None\<rparr>
               in if shouldReconnect st2 then scheduleReconnect st2 else st2))"

definition on_timer :: "nat \<Rightarrow> ws \<Rightarrow> ws" where
  "on_timer t st =
     (let st1 = st\<lparr>timers := filter (\<lambda>(i, _). i \<noteq> t) (timers st)\<rparr>
      in if shouldReconnect st1 then connect (currentUrl st1) st1 else st1)"

section \<open>Steps\<close>

definition drop_suspended :: "nat \<Rightarrow> ws \<Rightarrow> ws" where
  "drop_suspended i st = st\<lparr>suspended := take i (suspended st) @ drop (Suc i) (suspended st)\<rparr>"

inductive ws_step :: "(string \<Rightarrow> bool) \<Rightarrow> ws \<Rightarrow> ws \<Rightarrow> bool" for V where
  ws_connect: "ws_step V st (connect url st)"
| ws_disconnect: "ws_step V st (disconnect st)"
| ws_alarm: "ws_step V st (reconnectIfNeeded st)"
| ws_resume: "i < length (suspended st) \<Longrightarrow> suspended st ! i = k \<Longrightarrow> \<forall>j. k \<noteq> InTool j
    \<Longrightarrow> ws_step V st (resume V ok k (drop_suspended i st))"
| ws_tool: "i < length (suspended st) \<Longrightarrow> suspended st ! i = InTool j
    \<Longrightarrow> ws_step V st (tool_done j r (drop_suspended i st))"
| ws_open: "sock_phase st s = Some SConnecting \<Longrightarrow> ws_step V st (on_open s st)"
| ws_close: "sock_phase st s = Some p \<Longrightarrow> p \<noteq> SClosed \<Longrightarrow> ws_step V st (on_close s st)"
| ws_closing: "sock_phase st s = Some p \<Longrightarrow> p \<in> {SConnecting, SOpen} \<Longrightarrow> ws_step V st (set_sock s SClosing st)"
| ws_message: "sock_phase st s = Some SOpen \<Longrightarrow> ws_step V st (handleMessage m st)"
| ws_timer: "(t, ms) \<in> set (timers st) \<Longrightarrow> ws_step V st (on_timer t st)"

inductive_cases ws_stepE: "ws_step V st st'"

inductive ws_reachable :: "(string \<Rightarrow> bool) \<Rightarrow> ws \<Rightarrow> ws \<Rightarrow> bool" for V st0 where
  ws_start: "ws_reachable V st0 st0"
| ws_more: "ws_reachable V st0 st \<Longrightarrow> ws_step V st st' \<Longrightarrow> ws_reachable V st0 st'"

section \<open>The connection test\<close>

text \<open>\<^verbatim>\<open>testConnection\<close>: one promise, three events, the first of which settles it.\<close>

datatype probe_result = ProbeOk | ProbeTimeout | ProbeFailed | ProbeBadUrl

record probe =
  probe_done :: bool
  probe_timer :: bool
  probe_closed :: bool
  probe_resolved :: "probe_result list"

datatype probe_event = ProbeOpen | ProbeError | ProbeDeadline

definition probe_init :: probe where
  "probe_init = \<lparr>probe_done = False, probe_timer = True, probe_closed = False, probe_resolved = []\<rparr>"

definition probe_step :: "probe_event \<Rightarrow> probe \<Rightarrow> probe" where
  "probe_step e p =
     (if probe_done p then p
      else case e of
        ProbeDeadline \<Rightarrow> p\<lparr>probe_done := True, probe_timer := False, probe_closed := True, probe_resolved := probe_resolved p @ [ProbeTimeout]\<rparr>
      | ProbeOpen \<Rightarrow> p\<lparr>probe_done := True, probe_timer := False, probe_closed := True, probe_resolved := probe_resolved p @ [ProbeOk]\<rparr>
      | ProbeError \<Rightarrow> p\<lparr>probe_done := True, probe_timer := False, probe_resolved := probe_resolved p @ [ProbeFailed]\<rparr>)"

definition testConnection :: "(string \<Rightarrow> bool) \<Rightarrow> string \<Rightarrow> probe_event list \<Rightarrow> probe_result list" where
  "testConnection V url events =
     (if \<not> V url then [ProbeBadUrl] else probe_resolved (fold probe_step events probe_init))"

lemma probe_settles_once:
  "length (testConnection V url events) = (if V url \<and> events = [] then 0 else 1)"
proof -
  have d: "probe_done p \<Longrightarrow> fold probe_step es p = p" for p es
    by (induction es) (simp_all add: probe_step_def)
  show ?thesis
    by (cases events) (auto simp: testConnection_def probe_init_def probe_step_def d split: probe_event.splits)
qed

end
