(* ===== verification/WsProps.thy ===== *)
theory WsProps
  imports WsClient
begin

text \<open>
  The link to the daemon: at most one reconnect timer, at most one live socket, a dropped link that is
  retried, and a stale stored URL that overrides the one the user just chose.
\<close>

section \<open>The reconnect timer\<close>

definition delay_ok :: "nat \<Rightarrow> bool" where
  "delay_ok ms \<longleftrightarrow> ms = RECONNECT_MS \<or> ms = REJECTED_RECONNECT_MS"

definition timer_ok :: "ws \<Rightarrow> bool" where
  "timer_ok st \<longleftrightarrow> delay_ok (nextReconnectMs st)
     \<and> (timers st = [] \<or> (\<exists>t ms. timers st = [(t, ms)] \<and> reconnectTimer st = Some t \<and> delay_ok ms))"

lemma delay_ok_consts [simp]: "delay_ok RECONNECT_MS" "delay_ok REJECTED_RECONNECT_MS"
  by (simp_all add: delay_ok_def)

lemma timer_ok_frame [simp]:
  "timer_ok (st\<lparr>socket := a\<rparr>) = timer_ok st" "timer_ok (st\<lparr>state := b\<rparr>) = timer_ok st"
  "timer_ok (st\<lparr>currentUrl := c\<rparr>) = timer_ok st" "timer_ok (st\<lparr>shouldReconnect := d\<rparr>) = timer_ok st"
  "timer_ok (st\<lparr>ws_notice := e\<rparr>) = timer_ok st" "timer_ok (st\<lparr>stored_url := f\<rparr>) = timer_ok st"
  "timer_ok (st\<lparr>stored_reconnect := g\<rparr>) = timer_ok st" "timer_ok (st\<lparr>notice_writes := h\<rparr>) = timer_ok st"
  "timer_ok (st\<lparr>sockets := i\<rparr>) = timer_ok st" "timer_ok (st\<lparr>suspended := j\<rparr>) = timer_ok st"
  "timer_ok (st\<lparr>sent := k\<rparr>) = timer_ok st"
  by (simp_all add: timer_ok_def)

lemma timer_ok_clear: "timer_ok st \<Longrightarrow> timer_ok (clearReconnect st) \<and> timers (clearReconnect st) = []"
  by (auto simp: timer_ok_def clearReconnect_def split: option.splits)

lemma timer_ok_schedule: "timer_ok st \<Longrightarrow> timer_ok (scheduleReconnect st)"
  using timer_ok_clear [of st] by (auto simp: scheduleReconnect_def Let_def timer_ok_def)

lemma timer_ok_set_sock [simp]: "timer_ok (set_sock s p st) = timer_ok st"
  by (simp add: set_sock_def)

lemma timer_ok_send [simp]: "timer_ok (ws_send m st) = timer_ok st"
  by (simp add: ws_send_def split: option.splits)

lemma timer_ok_setNotice [simp]: "timer_ok (setNotice n st) = timer_ok st"
  by (simp add: setNotice_def)

lemma timer_ok_disconnect_begin: "timer_ok st \<Longrightarrow> timer_ok (disconnect_begin n st)"
  using timer_ok_clear [of "st\<lparr>shouldReconnect := False\<rparr>"] by (simp add: disconnect_begin_def Let_def)

lemma timer_ok_connect_rest [simp]: "timer_ok (connect_rest u st) = timer_ok st"
  by (simp add: connect_rest_def Let_def)

lemma timer_ok_connect: "timer_ok st \<Longrightarrow> timer_ok (connect u st)"
  by (simp add: connect_def timer_ok_disconnect_begin)

lemma timer_ok_open_socket: "timer_ok st \<Longrightarrow> timer_ok (open_socket V st)"
  using timer_ok_schedule [of "st\<lparr>state := Disconnected\<rparr>"] by (simp add: open_socket_def Let_def)

lemma timer_ok_disconnect_end [simp]: "timer_ok (disconnect_end st) = timer_ok st"
  by (simp add: disconnect_end_def Let_def split: option.splits)

lemma timer_ok_resume: "timer_ok st \<Longrightarrow> timer_ok (resume V ok k st)"
  by (simp add: resume_def Let_def timer_ok_open_socket timer_ok_connect split: suspended.splits option.splits)

lemma timer_ok_next: "timer_ok st \<Longrightarrow> delay_ok n \<Longrightarrow> timer_ok (st\<lparr>nextReconnectMs := n\<rparr>)"
  by (auto simp: timer_ok_def)

lemma timer_ok_message: "timer_ok st \<Longrightarrow> timer_ok (handleMessage m st)"
  by (simp add: handleMessage_def onHelloAck_def onRejected_def Let_def timer_ok_next)

lemma timer_ok_open: "timer_ok st \<Longrightarrow> timer_ok (on_open s st)"
  using timer_ok_clear [of "(set_sock s SOpen st)\<lparr>state := Connected, nextReconnectMs := RECONNECT_MS\<rparr>"]
  by (simp add: on_open_def Let_def timer_ok_next)

lemma timer_ok_close: "timer_ok st \<Longrightarrow> timer_ok (on_close s st)"
  using timer_ok_schedule [of "(set_sock s SClosed st)\<lparr>state := Disconnected, socket := None\<rparr>"]
  by (simp add: on_close_def Let_def)

lemma timer_ok_fire: "timer_ok st \<Longrightarrow> timer_ok (on_timer t st)"
proof -
  assume "timer_ok st"
  then have "timer_ok (st\<lparr>timers := filter (\<lambda>(i, _). i \<noteq> t) (timers st)\<rparr>)"
    unfolding timer_ok_def by (elim conjE disjE exE) simp_all
  then show ?thesis by (simp add: on_timer_def Let_def timer_ok_connect)
qed

lemmas timer_ok_ops = timer_ok_connect timer_ok_disconnect_begin timer_ok_resume timer_ok_message
  timer_ok_open timer_ok_close timer_ok_fire

lemma timer_ok_step: "ws_step V st st' \<Longrightarrow> timer_ok st \<Longrightarrow> timer_ok st'"
  by (cases rule: ws_step.cases, assumption)
    (simp_all add: timer_ok_ops disconnect_def reconnectIfNeeded_def tool_done_def drop_suspended_def)

lemma timer_ok_init: "timer_ok (ws_init u r)"
  by (simp add: timer_ok_def ws_init_def)

text \<open>
  C16: In every reachable state at most one reconnect is pending; when one is, it is the timer the module
  would cancel, and it was set for the normal delay or for the longer one after a rejection, and so
  will be the next.  Two attempts never race because of stray timers.
\<close>

theorem one_reconnect_timer:
  assumes "ws_reachable V (ws_init u r) st"
  shows "(timers st = [] \<or> (\<exists>t ms. timers st = [(t, ms)] \<and> reconnectTimer st = Some t \<and> ms \<in> {5000, 30000}))
    \<and> nextReconnectMs st \<in> {5000, 30000}"
proof -
  from assms have "timer_ok st"
    by induction (simp_all add: timer_ok_init timer_ok_step)
  then show ?thesis
    by (auto simp: timer_ok_def delay_ok_def RECONNECT_MS_def REJECTED_RECONNECT_MS_def)
qed


lemma one_reconnect_timer_witness: "nextReconnectMs (reconnectIfNeeded (ws_init ''ws://x'' True)) \<in> {5000, 30000}"
  by (rule one_reconnect_timer [OF ws_more [OF ws_start ws_alarm], THEN conjunct2])

section \<open>One live socket\<close>

text \<open>The calls that may change which socket is current.\<close>

definition lifecycle :: "suspended \<Rightarrow> bool" where
  "lifecycle k \<longleftrightarrow> (case k of InTool _ \<Rightarrow> False | _ \<Rightarrow> True)"

definition calm :: "ws \<Rightarrow> bool" where
  "calm st \<longleftrightarrow> (\<forall>k \<in> set (suspended st). \<not> lifecycle k)"

text \<open>
  The steps in which a lifecycle call starts only when none is suspended, and storage writes are
  fulfilled.
\<close>

inductive calm_step :: "(string \<Rightarrow> bool) \<Rightarrow> ws \<Rightarrow> ws \<Rightarrow> bool" for V where
  calm_connect: "calm st \<Longrightarrow> calm_step V st (connect url st)"
| calm_disconnect: "calm st \<Longrightarrow> calm_step V st (disconnect st)"
| calm_alarm: "calm st \<Longrightarrow> calm_step V st (reconnectIfNeeded st)"
| calm_timer: "calm st \<Longrightarrow> (t, ms) \<in> set (timers st) \<Longrightarrow> calm_step V st (on_timer t st)"
| calm_resume: "i < length (suspended st) \<Longrightarrow> suspended st ! i = k \<Longrightarrow> lifecycle k
    \<Longrightarrow> calm_step V st (resume V True k (drop_suspended i st))"
| calm_tool: "i < length (suspended st) \<Longrightarrow> suspended st ! i = InTool j
    \<Longrightarrow> calm_step V st (tool_done j r (drop_suspended i st))"
| calm_open: "sock_phase st s = Some SConnecting \<Longrightarrow> calm_step V st (on_open s st)"
| calm_close: "sock_phase st s = Some p \<Longrightarrow> p \<noteq> SClosed \<Longrightarrow> calm_step V st (on_close s st)"
| calm_closing: "sock_phase st s = Some p \<Longrightarrow> p \<in> {SConnecting, SOpen} \<Longrightarrow> calm_step V st (set_sock s SClosing st)"
| calm_message: "sock_phase st s = Some SOpen \<Longrightarrow> calm_step V st (handleMessage m st)"

lemma calm_step_is_step: "calm_step V st st' \<Longrightarrow> ws_step V st st'"
  by (cases rule: calm_step.cases, assumption) (auto intro: ws_step.intros simp: lifecycle_def)

inductive calm_reachable :: "(string \<Rightarrow> bool) \<Rightarrow> ws \<Rightarrow> ws \<Rightarrow> bool" for V st0 where
  calm_start: "calm_reachable V st0 st0"
| calm_more: "calm_reachable V st0 st \<Longrightarrow> calm_step V st st' \<Longrightarrow> calm_reachable V st0 st'"

definition others_dead :: "ws \<Rightarrow> bool" where
  "others_dead st \<longleftrightarrow> (\<forall>s < length (sockets st). socket st \<noteq> Some s \<longrightarrow> snd (sockets st ! s) \<in> {SClosing, SClosed})"

definition link_agrees :: "ws \<Rightarrow> bool" where
  "link_agrees st \<longleftrightarrow> (case socket st of
      None \<Rightarrow> state st = Disconnected
    | Some s \<Rightarrow> s < length (sockets st)
        \<and> (state st = Connecting \<and> snd (sockets st ! s) \<in> {SConnecting, SClosing}
           \<or> state st = Connected \<and> snd (sockets st ! s) \<in> {SOpen, SClosing}))"

definition link_ok :: "ws \<Rightarrow> bool" where
  "link_ok st \<longleftrightarrow> others_dead st \<and> length (filter lifecycle (suspended st)) \<le> 1
     \<and> (if InConnect \<in> set (suspended st) then state st = Connecting \<and> socket st = None else link_agrees st)"

named_theorems link_frame "fields the link invariant does not read"

lemma others_dead_frame [link_frame, simp]:
  "others_dead (st\<lparr>state := b\<rparr>) = others_dead st" "others_dead (st\<lparr>suspended := j\<rparr>) = others_dead st"
  "others_dead (st\<lparr>currentUrl := c\<rparr>) = others_dead st" "others_dead (st\<lparr>shouldReconnect := d\<rparr>) = others_dead st"
  "others_dead (st\<lparr>stored_url := f\<rparr>) = others_dead st" "others_dead (st\<lparr>stored_reconnect := g\<rparr>) = others_dead st"
  "others_dead (st\<lparr>timers := t\<rparr>) = others_dead st" "others_dead (st\<lparr>reconnectTimer := v\<rparr>) = others_dead st"
  "others_dead (st\<lparr>nextReconnectMs := w\<rparr>) = others_dead st" "others_dead (st\<lparr>timer_count := x\<rparr>) = others_dead st"
  "others_dead (st\<lparr>sent := y\<rparr>) = others_dead st" "others_dead (st\<lparr>ws_notice := e\<rparr>) = others_dead st"
  "others_dead (st\<lparr>notice_writes := h\<rparr>) = others_dead st"
  by (simp_all add: others_dead_def)

lemma link_agrees_frame [link_frame, simp]:
  "link_agrees (st\<lparr>suspended := j\<rparr>) = link_agrees st"
  "link_agrees (st\<lparr>currentUrl := c\<rparr>) = link_agrees st" "link_agrees (st\<lparr>shouldReconnect := d\<rparr>) = link_agrees st"
  "link_agrees (st\<lparr>stored_url := f\<rparr>) = link_agrees st" "link_agrees (st\<lparr>stored_reconnect := g\<rparr>) = link_agrees st"
  "link_agrees (st\<lparr>timers := t\<rparr>) = link_agrees st" "link_agrees (st\<lparr>reconnectTimer := v\<rparr>) = link_agrees st"
  "link_agrees (st\<lparr>nextReconnectMs := w\<rparr>) = link_agrees st" "link_agrees (st\<lparr>timer_count := x\<rparr>) = link_agrees st"
  "link_agrees (st\<lparr>sent := y\<rparr>) = link_agrees st" "link_agrees (st\<lparr>ws_notice := e\<rparr>) = link_agrees st"
  "link_agrees (st\<lparr>notice_writes := h\<rparr>) = link_agrees st"
  by (simp_all add: link_agrees_def cong: option.case_cong)

lemma link_ok_cong:
  "socket a = socket b \<Longrightarrow> state a = state b \<Longrightarrow> sockets a = sockets b \<Longrightarrow> suspended a = suspended b \<Longrightarrow> link_ok a = link_ok b"
  by (simp add: link_ok_def others_dead_def link_agrees_def cong: option.case_cong)

lemma clearReconnect_frame [simp]:
  "socket (clearReconnect st) = socket st" "state (clearReconnect st) = state st"
  "sockets (clearReconnect st) = sockets st" "suspended (clearReconnect st) = suspended st"
  "currentUrl (clearReconnect st) = currentUrl st" "shouldReconnect (clearReconnect st) = shouldReconnect st"
  by (simp_all add: clearReconnect_def split: option.splits)

lemma scheduleReconnect_frame [simp]:
  "socket (scheduleReconnect st) = socket st" "state (scheduleReconnect st) = state st"
  "sockets (scheduleReconnect st) = sockets st" "suspended (scheduleReconnect st) = suspended st"
  "currentUrl (scheduleReconnect st) = currentUrl st" "shouldReconnect (scheduleReconnect st) = shouldReconnect st"
  by (simp_all add: scheduleReconnect_def Let_def)

lemma ws_send_frame [simp]:
  "socket (ws_send m st) = socket st" "state (ws_send m st) = state st" "sockets (ws_send m st) = sockets st"
  "suspended (ws_send m st) = suspended st"
  by (simp_all add: ws_send_def split: option.splits)

lemma set_sock_frame [simp]:
  "socket (set_sock s p st) = socket st" "state (set_sock s p st) = state st"
  "suspended (set_sock s p st) = suspended st" "length (sockets (set_sock s p st)) = length (sockets st)"
  "shouldReconnect (set_sock s p st) = shouldReconnect st"
  by (simp_all add: set_sock_def)

lemma nth_upd: "t < length xs \<Longrightarrow> xs[s := x] ! t = (if s = t then x else xs ! t)"
  by (cases "s = t") simp_all

lemma filter_pick_le1:
  "length (filter P xs) \<le> 1 \<Longrightarrow> i < length xs \<Longrightarrow> P (xs ! i) \<Longrightarrow> filter P (take i xs @ drop (Suc i) xs) = []"
proof -
  assume l: "length (filter P xs) \<le> 1" and i: "i < length xs" "P (xs ! i)"
  have "xs = take i xs @ xs ! i # drop (Suc i) xs" using i(1) by (rule id_take_nth_drop)
  then have "filter P xs = filter P (take i xs) @ xs ! i # filter P (drop (Suc i) xs)"
    by (metis filter_append filter.simps(2) i(2))
  with l show ?thesis by simp
qed

lemma calm_filter: "calm st \<longleftrightarrow> filter lifecycle (suspended st) = []"
  by (auto simp: calm_def filter_empty_conv)

lemma lifecycle_simps [simp]:
  "lifecycle InConnect" "lifecycle (InDisconnect n)" "lifecycle (InReconnect u r)" "\<not> lifecycle (InTool j)"
  by (simp_all add: lifecycle_def)

lemma calm_no_InConnect: "calm st \<Longrightarrow> InConnect \<notin> set (suspended st)"
  by (auto simp: calm_def)

lemma link_ok_calm: "calm st \<Longrightarrow> link_ok st \<longleftrightarrow> others_dead st \<and> link_agrees st"
  by (simp add: link_ok_def calm_filter calm_no_InConnect)

lemma link_idle: "link_agrees st \<Longrightarrow> \<not> busy st \<Longrightarrow> socket st = None \<and> state st = Disconnected"
  by (cases "state st") (auto simp: link_agrees_def busy_def split: option.splits)

lemma link_connect_rest:
  assumes "calm st" "others_dead st" "link_agrees st"
  shows "link_ok (connect_rest u st)"
proof (cases "busy st")
  case True
  with assms show ?thesis by (simp add: connect_rest_def link_ok_calm)
next
  case False
  with link_idle assms have "socket st = None" "state st = Disconnected" by auto
  with assms calm_no_InConnect [OF assms(1)] False show ?thesis
    by (auto simp: connect_rest_def Let_def link_ok_def calm_filter link_agrees_def)
qed

lemma link_disconnect_begin:
  assumes "calm st" "others_dead st" "link_agrees st"
  shows "link_ok (disconnect_begin n st)"
proof -
  have "InConnect \<notin> set (suspended st)" using assms(1) by (rule calm_no_InConnect)
  with assms show ?thesis
    by (simp add: disconnect_begin_def Let_def link_ok_def calm_filter others_dead_def link_agrees_def cong: option.case_cong)
qed

lemma link_connect: "calm st \<Longrightarrow> others_dead st \<Longrightarrow> link_agrees st \<Longrightarrow> link_ok (connect u st)"
  by (simp add: connect_def link_connect_rest link_disconnect_begin)

lemma link_disconnect_end: "others_dead st \<Longrightarrow> others_dead (disconnect_end st) \<and> link_agrees (disconnect_end st)"
  by (auto simp: disconnect_end_def others_dead_def link_agrees_def set_sock_def close_phase_def nth_upd
      split: option.splits)

lemma disconnect_end_suspended [simp]: "suspended (disconnect_end st) = suspended st"
  by (simp add: disconnect_end_def Let_def split: option.splits)

lemma link_open_socket:
  assumes "calm st" "others_dead st" "socket st = None" "state st = Connecting"
  shows "link_ok (open_socket V st)"
proof -
  have "InConnect \<notin> set (suspended st)" using assms(1) by (rule calm_no_InConnect)
  with assms show ?thesis
    by (auto simp: open_socket_def Let_def link_ok_def calm_filter others_dead_def link_agrees_def nth_append)
qed

lemma link_resume:
  assumes ok: "link_ok st" and i: "i < length (suspended st)" "suspended st ! i = k" "lifecycle k"
  shows "link_ok (resume V True k (drop_suspended i st))"
proof -
  let ?d = "drop_suspended i st"
  have nl: "length (filter lifecycle (suspended st)) \<le> 1" and od: "others_dead st"
    using ok by (simp_all add: link_ok_def)
  have calm: "calm ?d"
    using filter_pick_le1 [OF nl, of i] i unfolding calm_filter drop_suspended_def by simp
  have k: "k \<in> set (suspended st)" using i by auto
  have single: "k' = k" if "k' \<in> set (suspended st)" "lifecycle k'" for k'
  proof -
    have "k' \<in> set (filter lifecycle (suspended st))" "k \<in> set (filter lifecycle (suspended st))"
      using that i(3) k by simp_all
    with nl show ?thesis by (cases "filter lifecycle (suspended st)") auto
  qed
  have od': "others_dead ?d" using od by (simp add: drop_suspended_def)
  show ?thesis
  proof (cases k)
    case InConnect
    with ok k have "socket ?d = None" "state ?d = Connecting" by (auto simp: link_ok_def drop_suspended_def split: if_splits)
    with InConnect calm od' show ?thesis
      by (simp add: resume_def link_open_socket calm_def)
  next
    case (InDisconnect n)
    have a: "others_dead (disconnect_end (?d\<lparr>stored_reconnect := False\<rparr>))"
      "link_agrees (disconnect_end (?d\<lparr>stored_reconnect := False\<rparr>))"
      using link_disconnect_end [of "?d\<lparr>stored_reconnect := False\<rparr>"] od' by simp_all
    have c: "calm (disconnect_end (?d\<lparr>stored_reconnect := False\<rparr>))" using calm by (simp add: calm_def)
    from a c link_connect_rest InDisconnect show ?thesis
      by (simp add: resume_def Let_def link_ok_calm split: option.splits)
  next
    case (InReconnect u r)
    with single have "InConnect \<notin> set (suspended st)" by (metis lifecycle_simps(1) suspended.distinct(3))
    with ok have la: "link_agrees ?d" by (simp add: link_ok_def drop_suspended_def)
    from InReconnect calm od' la link_connect [of "?d\<lparr>shouldReconnect := True\<rparr>" u] show ?thesis
      by (simp add: resume_def link_ok_calm calm_def)
  next
    case (InTool j)
    with i(3) show ?thesis by simp
  qed
qed

lemma phase_in: "sock_phase st s = Some p \<longleftrightarrow> s < length (sockets st) \<and> snd (sockets st ! s) = p"
  by (auto simp: sock_phase_def)

text \<open>An event on a socket that is not closed or closing is on the current one.\<close>

lemma live_is_current: "others_dead st \<Longrightarrow> sock_phase st s = Some p \<Longrightarrow> p \<in> {SConnecting, SOpen} \<Longrightarrow> socket st = Some s"
  by (auto simp: others_dead_def phase_in)

lemma link_ok_current: "link_ok st \<Longrightarrow> socket st = Some s \<Longrightarrow> InConnect \<notin> set (suspended st) \<and> link_agrees st"
  by (auto simp: link_ok_def split: if_splits)

lemma others_dead_set_sock: "others_dead st \<Longrightarrow> socket st = Some s \<Longrightarrow> others_dead (set_sock s p st)"
  by (auto simp: others_dead_def set_sock_def nth_upd)

lemma link_open:
  assumes ok: "link_ok st" and s: "sock_phase st s = Some SConnecting"
  shows "link_ok (on_open s st)"
proof -
  have od: "others_dead st" and nl: "length (filter lifecycle (suspended st)) \<le> 1"
    using ok by (simp_all add: link_ok_def)
  have cur: "socket st = Some s" using live_is_current [OF od s] by simp
  note c = link_ok_current [OF ok cur]
  let ?t = "(set_sock s SOpen st)\<lparr>state := Connected, nextReconnectMs := RECONNECT_MS\<rparr>"
  have "link_ok (on_open s st) = link_ok ?t"
    by (rule link_ok_cong) (simp_all add: on_open_def Let_def)
  moreover have "link_agrees ?t"
    using cur s by (simp add: link_agrees_def set_sock_def phase_in)
  moreover have "others_dead ?t" using others_dead_set_sock [OF od cur] by simp
  ultimately show ?thesis using c nl by (simp add: link_ok_def)
qed

lemma link_closing:
  assumes ok: "link_ok st" and s: "sock_phase st s = Some p" "p \<in> {SConnecting, SOpen}"
  shows "link_ok (set_sock s SClosing st)"
proof -
  have od: "others_dead st" and nl: "length (filter lifecycle (suspended st)) \<le> 1"
    using ok by (simp_all add: link_ok_def)
  have cur: "socket st = Some s" using live_is_current [OF od s] .
  note c = link_ok_current [OF ok cur]
  have "link_agrees (set_sock s SClosing st)"
    using c cur s by (auto simp: link_agrees_def set_sock_def phase_in)
  then show ?thesis using c nl others_dead_set_sock [OF od cur] by (simp add: link_ok_def)
qed

lemma link_close:
  assumes ok: "link_ok st" and s: "sock_phase st s = Some p"
  shows "link_ok (on_close s st)"
proof (cases "socket st = Some s")
  case True
  note c = link_ok_current [OF ok True]
  let ?t = "(set_sock s SClosed st)\<lparr>state := Disconnected, socket := None\<rparr>"
  have "link_ok (on_close s st) = link_ok ?t"
    by (rule link_ok_cong) (simp_all add: on_close_def Let_def True)
  moreover have "others_dead ?t"
    using ok True by (auto simp: link_ok_def others_dead_def set_sock_def nth_upd)
  moreover have "link_agrees ?t" by (simp add: link_agrees_def)
  moreover have "InConnect \<notin> set (suspended ?t)" "length (filter lifecycle (suspended ?t)) \<le> 1"
    using c ok by (simp_all add: link_ok_def)
  ultimately show ?thesis unfolding link_ok_def [of ?t] by simp
next
  case False
  have "others_dead (set_sock s SClosed st)"
    using ok by (auto simp: link_ok_def others_dead_def set_sock_def nth_upd)
  moreover have "link_agrees (set_sock s SClosed st) = link_agrees st"
    using False by (auto simp: link_agrees_def set_sock_def nth_upd split: option.splits)
  ultimately show ?thesis using ok False by (simp add: on_close_def Let_def link_ok_def split: if_splits)
qed

lemma filter_drop_tool: "i < length xs \<Longrightarrow> \<not> P (xs ! i) \<Longrightarrow> filter P (take i xs @ drop (Suc i) xs) = filter P xs"
  by (metis filter_append filter.simps(2) id_take_nth_drop)

lemma link_tool:
  assumes ok: "link_ok st" and i: "i < length (suspended st)" "suspended st ! i = InTool j"
  shows "link_ok (tool_done j r (drop_suspended i st))"
proof -
  let ?x = "take i (suspended st) @ drop (Suc i) (suspended st)"
  have f: "filter lifecycle ?x = filter lifecycle (suspended st)"
    using i by (intro filter_drop_tool) simp_all
  have g: "InConnect \<in> set xs \<longleftrightarrow> InConnect \<in> set (filter lifecycle xs)" for xs by simp
  have "InConnect \<in> set ?x \<longleftrightarrow> InConnect \<in> set (suspended st)"
    unfolding g [of ?x] g [of "suspended st"] f ..
  then have "link_ok (drop_suspended i st)"
    using ok f by (simp add: link_ok_def drop_suspended_def)
  then show ?thesis
    using link_ok_cong [of "tool_done j r (drop_suspended i st)" "drop_suspended i st"] by (simp add: tool_done_def)
qed

lemma link_ok_frame [simp]:
  "link_ok (ws_send x st) = link_ok st" "link_ok (setNotice n st) = link_ok st"
  "link_ok (st\<lparr>nextReconnectMs := w\<rparr>) = link_ok st"
  by (rule link_ok_cong; simp add: setNotice_def)+

lemma link_message: "link_ok st \<Longrightarrow> link_ok (handleMessage m st)"
proof -
  assume ok: "link_ok st"
  then have "link_ok (st\<lparr>suspended := suspended st @ [InTool m]\<rparr>)" by (simp add: link_ok_def)
  with ok show ?thesis by (simp add: handleMessage_def onHelloAck_def onRejected_def Let_def)
qed

lemma link_step: "calm_step V st st' \<Longrightarrow> link_ok st \<Longrightarrow> link_ok st'"
proof (induction rule: calm_step.induct)
  case (calm_timer st t ms)
  then have "link_ok (connect u (st\<lparr>timers := x\<rparr>))" "link_ok (st\<lparr>timers := x\<rparr>)" for u x
    using link_connect [of "st\<lparr>timers := x\<rparr>" u] by (simp_all add: link_ok_calm calm_def)
  then show ?case by (simp add: on_timer_def Let_def)
next
  case (calm_alarm st)
  then show ?case
    by (simp add: reconnectIfNeeded_def link_ok_calm) (simp add: link_ok_def calm_filter calm_no_InConnect)
qed (simp_all add: link_ok_calm disconnect_def link_connect link_disconnect_begin link_resume link_tool link_open
      link_close link_closing link_message)

lemma link_ok_init: "link_ok (ws_init u r)"
  by (simp add: link_ok_def ws_init_def others_dead_def link_agrees_def)

text \<open>
  C11: When the lifecycle calls do not overlap and storage takes their writes, the reported state tells
  the truth in every reachable state with none suspended: disconnected exactly when there is no
  socket, connecting while the socket is, connected only over an opened one; and every other socket ever
  made is closed or closing, so there is at most one live link.
\<close>

theorem link_state_is_truthful:
  assumes "calm_reachable V (ws_init u r) st" "calm st"
  shows "(state st = Disconnected \<longleftrightarrow> socket st = None)
    \<and> (\<forall>s. socket st = Some s \<longrightarrow>
         (state st = Connecting \<and> sock_phase st s \<in> {Some SConnecting, Some SClosing}
          \<or> isConnected st \<and> sock_phase st s \<in> {Some SOpen, Some SClosing}))
    \<and> (\<forall>s. socket st \<noteq> Some s \<longrightarrow> sock_phase st s \<in> {None, Some SClosing, Some SClosed})"
proof -
  from assms(1) have "link_ok st"
    by induction (simp_all add: link_ok_init link_step)
  with assms(2) have "others_dead st" "link_agrees st" by (simp_all add: link_ok_calm)
  then show ?thesis
    by (auto simp: others_dead_def link_agrees_def isConnected_def sock_phase_def split: option.splits)
qed

lemmas ws_eval = ws_init_def connect_def connect_rest_def busy_def resume_def drop_suspended_def open_socket_def
  on_open_def set_sock_def clearReconnect_def ws_send_def calm_def sock_phase_def Let_def RECONNECT_MS_def

lemma link_state_is_truthful_witness:
  "state (connect ''ws://x'' (ws_init [] False)) = Connecting
   \<and> (let st = resume (\<lambda>_. True) True InConnect (drop_suspended 0 (connect ''ws://x'' (ws_init [] False)))
      in state st \<noteq> Disconnected \<and> socket st \<noteq> None)"
proof -
  let ?a = "connect ''ws://x'' (ws_init [] False)"
  let ?b = "resume (\<lambda>_. True) True InConnect (drop_suspended 0 ?a)"
  have "calm_reachable (\<lambda>_. True) (ws_init [] False) ?a"
    by (rule calm_more [OF calm_start calm_connect]) (simp add: ws_eval)
  moreover have "0 < length (suspended ?a)" "suspended ?a ! 0 = InConnect"
    by (simp_all add: ws_eval)
  ultimately have r: "calm_reachable (\<lambda>_. True) (ws_init [] False) ?b"
    by (intro calm_more [OF _ calm_resume]) simp_all
  have c: "calm ?b" by (simp add: ws_eval)
  have "socket ?b \<noteq> None" by (simp add: ws_eval)
  with link_state_is_truthful [OF r c] have "state ?b \<noteq> Disconnected" by blast
  moreover have "state ?a = Connecting" by (simp add: ws_eval)
  ultimately show ?thesis using \<open>socket ?b \<noteq> None\<close> by (simp add: Let_def)
qed

section \<open>Retrying\<close>

lemma on_close_schedules:
  assumes "timer_ok st" "socket st = Some s" "shouldReconnect st"
  shows "on_close s st = (set_sock s SClosed st)\<lparr>state := Disconnected, socket := None, reconnectTimer := Some (timer_count st),
     nextReconnectMs := RECONNECT_MS, timers := [(timer_count st, nextReconnectMs st)], timer_count := Suc (timer_count st)\<rparr>"
proof -
  let ?x = "(set_sock s SClosed st)\<lparr>state := Disconnected, socket := None\<rparr>"
  have "timers (clearReconnect ?x) = []" using assms(1) timer_ok_clear [of ?x] by simp
  then show ?thesis
    using assms(2,3)
    by (cases "reconnectTimer st")
      (simp_all add: on_close_def Let_def scheduleReconnect_def clearReconnect_def set_sock_def)
qed

lemma rejected_delay:
  "getp ''type'' m = Str ''connection_rejected''
    \<Longrightarrow> nextReconnectMs (handleMessage m st) = REJECTED_RECONNECT_MS \<and> socket (handleMessage m st) = socket st
      \<and> shouldReconnect (handleMessage m st) = shouldReconnect st \<and> timer_count (handleMessage m st) = timer_count st"
  by (simp add: handleMessage_def onRejected_def setNotice_def)

text \<open>
  C21: A live link that drops while it is wanted is retried: closing it schedules exactly one
  reconnect, after the rejection delay when the daemon had just rejected this browser, and that timer
  leads, once the settings are stored, to a new socket to the same URL with the delay back to normal.
\<close>

theorem dropped_link_is_retried:
  assumes "ws_reachable V (ws_init u r) st" "socket st = Some s"
    and "shouldReconnect st" "currentUrl st \<noteq> []" "V (currentUrl st)"
  shows "(let a = on_close s st; b = on_timer (timer_count st) a;
              c = resume V True InConnect (drop_suspended (length (suspended st)) b)
          in state a = Disconnected \<and> timers a = [(timer_count st, nextReconnectMs st)]
           \<and> suspended b = suspended st @ [InConnect]
           \<and> state c = Connecting \<and> socket c = Some (length (sockets st))
           \<and> last (sockets c) = (currentUrl st, SConnecting) \<and> nextReconnectMs c = RECONNECT_MS)
    \<and> (getp ''type'' m = Str ''connection_rejected''
         \<longrightarrow> timers (on_close s (handleMessage m st)) = [(timer_count st, REJECTED_RECONNECT_MS)])"
proof -
  have tk: "timer_ok st"
    using assms(1) by induction (simp_all add: timer_ok_init timer_ok_step)
  define a where "a = on_close s st"
  have a: "state a = Disconnected" "socket a = None" "timers a = [(timer_count st, nextReconnectMs st)]"
    "shouldReconnect a" "currentUrl a = currentUrl st" "suspended a = suspended st" "nextReconnectMs a = RECONNECT_MS"
    "length (sockets a) = length (sockets st)"
    unfolding a_def on_close_schedules [OF tk assms(2,3)] using assms(3) by (simp_all add: set_sock_def)
  define b where "b = on_timer (timer_count st) a"
  have b: "b = a\<lparr>timers := [], shouldReconnect := True, state := Connecting, currentUrl := currentUrl st,
      suspended := suspended st @ [InConnect]\<rparr>"
    unfolding b_def on_timer_def connect_def connect_rest_def Let_def busy_def using a assms(4) by simp
  have "timers (on_close s (handleMessage m st)) = [(timer_count st, REJECTED_RECONNECT_MS)]"
    if "getp ''type'' m = Str ''connection_rejected''"
    using on_close_schedules [OF timer_ok_message [OF tk], of m s] rejected_delay [OF that, of st] assms(2,3) by simp
  then show ?thesis
    unfolding Let_def a_def [symmetric] b_def [symmetric] using a assms(5)
    by (simp add: b resume_def open_socket_def drop_suspended_def)
qed

lemma dropped_link_is_retried_witness:
  "(let st = on_open 0 (resume (\<lambda>_. True) True InConnect (drop_suspended 0 (connect ''ws://x'' (ws_init [] False))))
    in timers (on_close 0 st) = [(0, 5000)])"
proof -
  let ?a = "connect ''ws://x'' (ws_init [] False)"
  let ?b = "resume (\<lambda>_. True) True InConnect (drop_suspended 0 ?a)"
  have a: "ws_reachable (\<lambda>_. True) (ws_init [] False) ?a" by (rule ws_more [OF ws_start ws_connect])
  have "0 < length (suspended ?a)" "suspended ?a ! 0 = InConnect" by (simp_all add: ws_eval)
  with a have b: "ws_reachable (\<lambda>_. True) (ws_init [] False) ?b" by (intro ws_more [OF _ ws_resume]) simp_all
  have "sock_phase ?b 0 = Some SConnecting" by (simp add: ws_eval)
  with b have c: "ws_reachable (\<lambda>_. True) (ws_init [] False) (on_open 0 ?b)" by (intro ws_more [OF _ ws_open])
  have f: "socket (on_open 0 ?b) = Some 0" "shouldReconnect (on_open 0 ?b)" "currentUrl (on_open 0 ?b) \<noteq> []"
    "timer_count (on_open 0 ?b) = 0" "nextReconnectMs (on_open 0 ?b) = 5000"
    by (simp_all add: ws_eval)
  show ?thesis
    using dropped_link_is_retried [OF c f(1-3) TrueI, of Undef, THEN conjunct1] unfolding Let_def f(4,5)
    by (elim conjE)
qed

section \<open>A stale reconnect\<close>

definition resume_oldest :: "(string \<Rightarrow> bool) \<Rightarrow> ws \<Rightarrow> ws" where
  "resume_oldest V st = resume V True (hd (suspended st)) (drop_suspended 0 st)"

text \<open>
  C22: An overlap that goes wrong even when storage answers in order: the service worker starts and reads
  the stored URL, the user connects to another one before that read returns, and the stale URL then
  replaces the one just chosen, on the wire and in storage.
\<close>

theorem stale_reconnect_replaces_the_users_url:
  assumes "u \<noteq> []" "w \<noteq> []" "u \<noteq> w" "V u" "V w"
  shows "let st = (resume_oldest V ^^ 4) (connect w (reconnectIfNeeded (ws_init u True)))
    in ws_reachable V (ws_init u True) st \<and> suspended st = [] \<and> currentUrl st = u \<and> stored_url st = u
     \<and> sockets st = [(w, SClosing), (u, SConnecting)] \<and> socket st = Some 1"
proof -
  let ?V = V and ?s0 = "ws_init u True"
  define s1 where "s1 = connect w (reconnectIfNeeded ?s0)"
  define s2 where "s2 = resume_oldest V s1"
  define s3 where "s3 = resume_oldest V s2"
  define s4 where "s4 = resume_oldest V s3"
  define s5 where "s5 = resume_oldest V s4"
  note ops = resume_oldest_def resume_def drop_suspended_def connect_def connect_rest_def busy_def
    disconnect_begin_def clearReconnect_def open_socket_def disconnect_end_def set_sock_def close_phase_def
  have s1: "s1 = ?s0\<lparr>suspended := [InReconnect u True, InConnect], shouldReconnect := True, state := Connecting, currentUrl := w\<rparr>"
    using assms(1-3) by (simp add: s1_def ws_init_def reconnectIfNeeded_def ops)
  have s2: "s2 = s1\<lparr>suspended := [InConnect, InDisconnect (Some u)], shouldReconnect := False\<rparr>"
    using assms(1-3) by (simp add: s2_def s1 ws_init_def ops)
  have s3: "s3 = s2\<lparr>suspended := [InDisconnect (Some u)], stored_url := w, sockets := [(w, SConnecting)], socket := Some 0\<rparr>"
    using assms by (simp add: s3_def s2 s1 ws_init_def ops)
  have s4: "s4 = s3\<lparr>suspended := [InConnect], sockets := [(w, SClosing)], socket := None, shouldReconnect := True,
      stored_reconnect := False, currentUrl := u\<rparr>"
    using assms by (simp add: s4_def s3 s2 s1 ws_init_def ops)
  have s5: "s5 = s4\<lparr>suspended := [], sockets := [(w, SClosing), (u, SConnecting)], socket := Some 1, stored_reconnect := True, stored_url := u\<rparr>"
    using assms by (simp add: s5_def s4 s3 s2 s1 ws_init_def ops)
  have oldest: "ws_step V x (resume_oldest V x)" if "suspended x \<noteq> []" "\<forall>j. hd (suspended x) \<noteq> InTool j" for x
    using that unfolding resume_oldest_def by (intro ws_resume) (simp_all add: hd_conv_nth)
  have "ws_reachable V ?s0 s1"
    unfolding s1_def by (intro ws_more [OF ws_more [OF ws_start ws_alarm]] ws_connect)
  moreover have "ws_step V s1 s2" unfolding s2_def by (rule oldest) (simp_all add: s1)
  moreover have "ws_step V s2 s3" unfolding s3_def by (rule oldest) (simp_all add: s2)
  moreover have "ws_step V s3 s4" unfolding s4_def by (rule oldest) (simp_all add: s3)
  moreover have "ws_step V s4 s5" unfolding s5_def by (rule oldest) (simp_all add: s4)
  ultimately have "ws_reachable V ?s0 s5" by (blast intro: ws_more)
  moreover have "(resume_oldest V ^^ 4) s1 = s5"
    by (simp add: s2_def s3_def s4_def s5_def numeral_eq_Suc)
  ultimately show ?thesis
    unfolding s1_def [symmetric] by (simp add: s5 s4 s3 s2 s1)
qed

lemma stale_reconnect_replaces_the_users_url_witness:
  "sockets ((resume_oldest (\<lambda>_. True) ^^ 4) (connect ''b'' (reconnectIfNeeded (ws_init ''a'' True))))
     = [(''b'', SClosing), (''a'', SConnecting)]"
  using stale_reconnect_replaces_the_users_url [of "''a''" "''b''" "\<lambda>_. True"] by (simp add: Let_def)

section \<open>A refused settings write\<close>

lemma refused_settings_write_wedges:
  assumes "w \<noteq> []"
  shows "let st = resume V False InConnect (drop_suspended 0 (connect w (ws_init [] False)))
    in state st = Connecting \<and> socket st = None \<and> timers st = [] \<and> suspended st = []
     \<and> reconnectIfNeeded st = st \<and> connect w st = st"
  using assms
  by (simp add: ws_init_def connect_def connect_rest_def busy_def resume_def drop_suspended_def reconnectIfNeeded_def)

end
