(* ===== verification/Dispatcher.thy ===== *)
theory Dispatcher
  imports WsProps
begin

text \<open>
  \<^verbatim>\<open>src/dispatcher.js\<close>: the registry of tool actions, and the way of one tool call from the link through the
  registry back to the link.  \<open>H\<close> gives, for the name of a registered action, the tool it runs, over the state
  \<open>'s\<close> of the tools.
\<close>

section \<open>The registry\<close>

definition actionNames :: "string list" where
  "actionNames = [''navigate'', ''find_tab'', ''list_tabs'', ''list_sessions'', ''activate_tab'', ''close_tab'', ''close_session'',
     ''snapshot'', ''evaluate'', ''frames'', ''click'', ''fill'', ''hover'', ''scroll'', ''press_key'', ''select_option'',
     ''upload'', ''drag'', ''tap'', ''screenshot'', ''save_as_pdf'', ''annotate'', ''annotations'', ''network'', ''emulate'',
     ''download'', ''dialog'', ''cookies'']"

text \<open>
  \<^verbatim>\<open>handlers[action]\<close> also finds what the object inherits from \<^verbatim>\<open>Object.prototype\<close>.  Called as a plain function,
  \<^verbatim>\<open>constructor\<close> returns its argument as an object, \<^verbatim>\<open>toString\<close> a constant, \<^verbatim>\<open>isPrototypeOf\<close> false for a primitive;
  the others need an object as \<^verbatim>\<open>this\<close> and throw, as calling \<^verbatim>\<open>__proto__\<close> does.
\<close>

definition inherited_names :: "string list" where
  "inherited_names = [''constructor'', ''toString'', ''isPrototypeOf'', ''hasOwnProperty'', ''propertyIsEnumerable'', ''valueOf'',
     ''toLocaleString'', ''__defineGetter__'', ''__defineSetter__'', ''__lookupGetter__'', ''__lookupSetter__'', ''__proto__'']"

definition call_inherited :: "string \<Rightarrow> jsval \<Rightarrow> js_error + jsval" where
  "call_inherited name args =
     (if name = ''constructor'' then Inr args
      else if name = ''toString'' then Inr (Str ''[object Undefined]'')
      else if name = ''isPrototypeOf'' \<and> \<not> is_object args then Inr (Bool False)
      else Inl (TypeError name))"

definition dispatch :: "(string \<Rightarrow> jsval \<Rightarrow> jsval \<Rightarrow> jsval \<Rightarrow> ('s, jsval) jsprog) \<Rightarrow> jsval \<Rightarrow> jsval \<Rightarrow> jsval \<Rightarrow> jsval \<Rightarrow> ('s, jsval) jsprog" where
  "dispatch H action args session options =
     (let name = to_string action; args' = js_or args (Obj [])
      in if name \<in> set actionNames then H name args' (js_or session (Str ''default'')) (js_or options (Obj []))
         else if name \<in> set inherited_names then (\<lambda>st. (call_inherited name args', st))
         else throw (UnknownAction name))"

lemma actionNames_distinct: "distinct actionNames \<and> set actionNames \<inter> set inherited_names = {}"
  by (simp add: actionNames_def inherited_names_def)

section \<open>One tool call\<close>

text \<open>\<^verbatim>\<open>handleToolCall\<close> up to its answer: the tool runs on the tools' state.\<close>

definition handleToolCall :: "(string \<Rightarrow> jsval \<Rightarrow> jsval \<Rightarrow> jsval \<Rightarrow> ('s, jsval) jsprog) \<Rightarrow> jsval \<Rightarrow> ('s, jsval) jsprog" where
  "handleToolCall H msg = (case tool_request msg of (action, args, session, limits) \<Rightarrow>
     dispatch H action args session (Obj [(''domainTabLimits'', limits)]))"

lemma drop_last_suspended: "suspended st = ks @ [k] \<Longrightarrow> drop_suspended (length ks) st = st\<lparr>suspended := ks\<rparr>"
  by (simp add: drop_suspended_def)

text \<open>
  C19: Every tool call that arrives on the open link gets exactly one answer, on that link, with its id:
  the value its tool returned or the error it threw.  The tool that runs is the registered one, with an
  empty argument object and the default session where the call names none; an action that is neither
  registered nor inherited is answered with the unknown-action error and leaves the tools' state alone.
\<close>

theorem tool_calls_get_one_answer:
  assumes "getp ''type'' msg = Str ''tool_call''" "socket ws = Some s" "sock_phase ws s = Some SOpen"
  shows "let called = handleMessage msg ws; (r, st') = handleToolCall H msg st;
             answered = tool_done msg r (drop_suspended (length (suspended ws)) called);
             name = to_string (getp ''action'' msg)
    in sent called = sent ws \<and> suspended called = suspended ws @ [InTool msg]
     \<and> sent answered = sent ws @ [(s, ToolResult (getp ''id'' msg) r)] \<and> suspended answered = suspended ws
     \<and> (name \<in> set actionNames \<longrightarrow> (r, st') = H name (js_or (getp ''args'' msg) (Obj [])) (js_or (getp ''session'' msg) (Str ''default''))
          (Obj [(''domainTabLimits'', js_or (getp ''domain_tab_limits'' msg) (Arr []))]) st)
     \<and> (name \<notin> set actionNames \<union> set inherited_names \<longrightarrow> (r, st') = (Inl (UnknownAction name), st))"
proof -
  let ?called = "ws\<lparr>suspended := suspended ws @ [InTool msg]\<rparr>"
  have c: "handleMessage msg ws = ?called" using assms(1) by (simp add: handleMessage_def)
  have d: "drop_suspended (length (suspended ws)) ?called = ws\<lparr>suspended := suspended ws\<rparr>"
    using drop_last_suspended [of ?called "suspended ws" "InTool msg"] by simp
  obtain r st' where r: "handleToolCall H msg st = (r, st')" by (cases "handleToolCall H msg st")
  have "handleToolCall H msg st = dispatch H (getp ''action'' msg) (getp ''args'' msg) (getp ''session'' msg)
      (Obj [(''domainTabLimits'', js_or (getp ''domain_tab_limits'' msg) (Arr []))]) st"
    by (simp add: handleToolCall_def tool_request_def)
  then have "to_string (getp ''action'' msg) \<in> set actionNames \<Longrightarrow> (r, st') = H (to_string (getp ''action'' msg)) (js_or (getp ''args'' msg) (Obj []))
        (js_or (getp ''session'' msg) (Str ''default'')) (Obj [(''domainTabLimits'', js_or (getp ''domain_tab_limits'' msg) (Arr []))]) st"
    and "to_string (getp ''action'' msg) \<notin> set actionNames \<union> set inherited_names \<Longrightarrow> (r, st') = (Inl (UnknownAction (to_string (getp ''action'' msg))), st)"
    by (simp_all add: r dispatch_def Let_def throw_def js_or_def [of "Obj _"] truthy_def)
  moreover have "sent (tool_done msg r ws) = sent ws @ [(s, ToolResult (getp ''id'' msg) r)]"
    "suspended (tool_done msg r ws) = suspended ws"
    using assms(2,3) by (simp_all add: tool_done_def ws_send_def)
  ultimately show ?thesis unfolding c d r Let_def prod.case by simp
qed

definition no_tools :: "string \<Rightarrow> jsval \<Rightarrow> jsval \<Rightarrow> jsval \<Rightarrow> (unit, jsval) jsprog" where
  "no_tools name args session options = ret Null"

lemma tool_calls_get_one_answer_witness:
  "sent (tool_done (Obj [(''type'', Str ''tool_call''), (''id'', Str ''1''), (''action'', Str ''fly'')])
      (fst (handleToolCall no_tools (Obj [(''type'', Str ''tool_call''), (''id'', Str ''1''), (''action'', Str ''fly'')]) ()))
      (drop_suspended 0 (handleMessage (Obj [(''type'', Str ''tool_call''), (''id'', Str ''1''), (''action'', Str ''fly'')])
         ((ws_init [] False)\<lparr>socket := Some 0, sockets := [([], SOpen)]\<rparr>))))
    = [(0, ToolResult (Str ''1'') (Inl (UnknownAction ''fly'')))]"
proof -
  let ?m = "Obj [(''type'', Str ''tool_call''), (''id'', Str ''1''), (''action'', Str ''fly'')]"
  let ?ws = "(ws_init [] False)\<lparr>socket := Some 0, sockets := [([], SOpen)]\<rparr>"
  have g: "getp ''type'' ?m = Str ''tool_call''" "getp ''id'' ?m = Str ''1''" "to_string (getp ''action'' ?m) = ''fly''"
    by (simp_all add: getp_def own_props_def)
  have w: "socket ?ws = Some 0" "sock_phase ?ws 0 = Some SOpen" "suspended ?ws = []" "sent ?ws = []"
    by (simp_all add: ws_init_def sock_phase_def)
  have "''fly'' \<notin> set actionNames \<union> set inherited_names"
    by (simp add: actionNames_def inherited_names_def)
  with tool_calls_get_one_answer [OF g(1) w(1,2), where H = no_tools and st = "()"] show ?thesis
    unfolding Let_def g w by (auto split: prod.splits)
qed

end
