(* ===== verification/Tools.thy ===== *)
theory Tools
  imports Tabs AnnModeProps Cookies PageProps Dispatcher
begin

text \<open>
  The handlers of \<^verbatim>\<open>src/dispatcher.js\<close> on the tools' own models: what every registered action runs, from the
  JSON of a tool call to the JSON of its answer, over one state that holds the variables of all modules.  What a
  tool takes from outside the extension is a field of \<open>tool_env\<close>.
\<close>

section \<open>The environment of a tool call\<close>

text \<open>
  The browser, the annotation store's storage and the page are in \<open>te_ann\<close>; then \<^verbatim>\<open>new URL\<close>, what the browser does
  between the polls of a navigation, the stack a snapshot may use, the debugger's targets, the download service,
  the collation of cookies, whether the two touch events of a tap are acknowledged too late, what happens while
  a located page settles, and what a long poll sees.
\<close>

record ('w, 's) tool_env =
  te_ann :: "'w ann_env"
  te_U :: "string \<Rightarrow> string option"
  te_polls :: "('w \<Rightarrow> 'w) list"
  te_stack :: nat
  te_targets :: "'w \<Rightarrow> target_info list option"
  te_downloads :: "'w dl_api"
  te_collate :: "string \<Rightarrow> string \<Rightarrow> int"
  te_late :: "bool \<times> bool"
  te_settle :: "'s \<Rightarrow> 's"
  te_wait :: "'s poll"

abbreviation te_C :: "('w, 's) tool_env \<Rightarrow> 'w chrome" where
  "te_C E \<equiv> env_C (te_ann E)"

section \<open>Reading arguments\<close>

text \<open>A text argument; what is falsy counts as absent.\<close>

definition text_arg :: "jsval \<Rightarrow> string" where
  "text_arg v = (if truthy v then to_string v else [])"

text \<open>A tab or group id; the browser rejects what is not an integer.\<close>

definition id_arg :: "jsval \<Rightarrow> ('s, int option) jsprog" where
  "id_arg v = (if nullish v then ret None
     else case tab_number v of Some t \<Rightarrow> ret (Some t) | None \<Rightarrow> throw (ApiError []))"

text \<open>The limits of a call; a count reaches a limit when it reaches the next whole number.\<close>

definition limit_of :: "jsval \<Rightarrow> tab_limit option" where
  "limit_of v = (if \<not> truthy v then None
     else Some \<lparr>lim_domain = text_arg (getp ''domain'' v), lim_max = (case to_number (getp ''max'' v) of Fin q \<Rightarrow> \<lceil>q\<rceil> | _ \<Rightarrow> 0)\<rparr>)"

definition limits_of :: "jsval \<Rightarrow> tab_limit option list" where
  "limits_of v = (case v of Arr vs \<Rightarrow> map limit_of vs | _ \<Rightarrow> [])"

section \<open>The tab tools\<close>

definition navigate_tool :: "('w, 's) tool_env \<Rightarrow> jsval \<Rightarrow> string \<Rightarrow> tab_limit option list \<Rightarrow> ('w, 'm, jsval) sess_prog" where
  "navigate_tool E args s limits =
     bindp (navigate (te_C E) (te_U E) (te_polls E) \<lparr>nav_url = text_arg (getp ''url'' args), nav_newTab = truthy (getp ''newTab'' args),
        nav_group_title = text_arg (getp ''group_title'' args)\<rparr> s limits) (\<lambda>(u, t, ti).
       ret (Obj [(''success'', Bool True), (''url'', Str u), (''tabId'', jint t), (''title'', Str ti)]))"

definition find_tab_tool :: "('w, 's) tool_env \<Rightarrow> jsval \<Rightarrow> string \<Rightarrow> tab_limit option list \<Rightarrow> ('w, 'm, jsval) sess_prog" where
  "find_tab_tool E args s limits =
     bindp (find_tab (te_C E) (te_U E) (text_arg (getp ''url'' args)) (truthy (getp ''active'' args)) s limits) (\<lambda>(u, t).
       ret (Obj [(''success'', Bool True), (''url'', Str u), (''tabId'', jint t)]))"

definition tab_json :: "tab_info \<Rightarrow> jsval" where
  "tab_json i = Obj [(''tabId'', jint (ti_tabId i)), (''url'', Str (ti_url i)), (''title'', Str (ti_title i)),
     (''active'', Bool (ti_active i)), (''groupTitle'', case ti_groupTitle i of None \<Rightarrow> Null | Some g \<Rightarrow> Str g)]"

definition list_tabs_tool :: "('w, 's) tool_env \<Rightarrow> string \<Rightarrow> ('w, 'm, jsval) sess_prog" where
  "list_tabs_tool E s = bindp (list_tabs (te_C E) s) (\<lambda>is.
     ret (Obj [(''success'', Bool True), (''tabs'', Arr (map tab_json is))]))"

definition session_json :: "session_info \<Rightarrow> jsval" where
  "session_json i = Obj [(''session'', Str (si_session i)), (''groupId'', jint (si_groupId i)), (''color'', Str (si_color i)),
     (''tabCount'', jnat (si_tabCount i)), (''orphaned'', Bool (si_orphaned i))]"

definition list_sessions_tool :: "('w, 's) tool_env \<Rightarrow> ('w, 'm, jsval) sess_prog" where
  "list_sessions_tool E = bindp (list_sessions (te_C E)) (\<lambda>is.
     ret (Obj [(''success'', Bool True), (''sessions'', Arr (map session_json is))]))"

definition activate_tab_tool :: "('w, 's) tool_env \<Rightarrow> jsval \<Rightarrow> string \<Rightarrow> tab_limit option list \<Rightarrow> ('w, 'm, jsval) sess_prog" where
  "activate_tab_tool E args s limits = bindp (id_arg (getp ''tabId'' args)) (\<lambda>i.
     bindp (activate_tab (te_C E) (te_U E) i s limits) (\<lambda>t. ret (Obj [(''success'', Bool True), (''tabId'', jint t)])))"

definition close_tab_tool :: "('w, 's) tool_env \<Rightarrow> string \<Rightarrow> ('w, 'm, jsval) sess_prog" where
  "close_tab_tool E s = bindp (close_tab (te_C E) s) (\<lambda>closed. ret (Obj [(''success'', Bool True), (''closed'', Bool closed)]))"

definition close_session_tool :: "('w, 's) tool_env \<Rightarrow> jsval \<Rightarrow> string \<Rightarrow> ('w, 'm, jsval) sess_prog" where
  "close_session_tool E args s = bindp (id_arg (getp ''groupId'' args)) (\<lambda>g.
     bindp (close_session (te_C E) g s) (\<lambda>n. ret (Obj [(''success'', Bool True), (''closed'', jnat n)])))"

section \<open>The registry\<close>

definition or_fail :: "js_error \<Rightarrow> ('s, 'a option) jsprog \<Rightarrow> ('s, 'a) jsprog" where
  "or_fail e m = bindp m (\<lambda>r. case r of None \<Rightarrow> throw e | Some x \<Rightarrow> ret x)"

definition run_tool :: "('w, ('w, 'm) mode_state_scheme) tool_env \<Rightarrow> string \<Rightarrow> jsval \<Rightarrow> jsval \<Rightarrow> jsval \<Rightarrow> ('w, 'm, jsval) mode_prog" where
  "run_tool E name args session options =
     (let C = te_C E; s = text_arg session; limits = limits_of (getp ''domainTabLimits'' options)
      in if name = ''navigate'' then navigate_tool E args s limits
         else if name = ''find_tab'' then find_tab_tool E args s limits
         else if name = ''list_tabs'' then list_tabs_tool E s
         else if name = ''list_sessions'' then list_sessions_tool E
         else if name = ''activate_tab'' then activate_tab_tool E args s limits
         else if name = ''close_tab'' then close_tab_tool E s
         else if name = ''close_session'' then close_session_tool E args s
         else if name = ''snapshot'' then or_fail StackOverflow (snapshot C (te_stack E) args s)
         else if name = ''evaluate'' then evaluate C args s
         else if name = ''frames'' then frames (te_targets E) s
         else if name = ''click'' then click C args s
         else if name = ''fill'' then fill C args s
         else if name = ''hover'' then hover C args s
         else if name = ''scroll'' then scroll C args s
         else if name = ''press_key'' then press_key C args s
         else if name = ''select_option'' then select_option C args s
         else if name = ''upload'' then upload C args s
         else if name = ''drag'' then drag C args s
         else if name = ''tap'' then tap C (fst (te_late E)) (snd (te_late E)) args s
         else if name = ''screenshot'' then screenshot C args s
         else if name = ''save_as_pdf'' then save_as_pdf C args s
         else if name = ''annotate'' then annotate (te_ann E) (te_settle E) args s
         else if name = ''annotations'' then or_fail OutOfFuel (annotations (te_ann E) (te_wait E) args)
         else if name = ''network'' then network C args s
         else if name = ''emulate'' then emulate C args s
         else if name = ''download'' then download (te_downloads E) args
         else if name = ''dialog'' then dialog C args s
         else if name = ''cookies'' then cookies C (te_collate E) args s
         else throw (UnknownAction name))"


end
