(* ===== verification/ToolFrames.thy ===== *)
theory ToolFrames
  imports Tools
begin

text \<open>
  What the tools leave alone.  \<open>session_frame\<close> is a property of the state that no session or debugger
  operation can see; \<open>page_client\<close> is what the tools that act on a page rely on, so that an invariant of the
  session layer becomes one of every page tool.
\<close>

section \<open>Case distinctions on arguments\<close>

lemma keeps_Str: "(\<And>c. keeps I (m c)) \<Longrightarrow> keeps I n \<Longrightarrow> keeps I (case v of Str c \<Rightarrow> m c | _ \<Rightarrow> n)"
  by (auto split: jsval.splits)

lemma keeps_list: "keeps I m \<Longrightarrow> (\<And>x xs. keeps I (n x xs)) \<Longrightarrow> keeps I (case ts of [] \<Rightarrow> m | x # xs \<Rightarrow> n x xs)"
  by (cases ts) simp_all

lemma keeps_Arr: "(\<And>vs. keeps I (m vs)) \<Longrightarrow> keeps I n \<Longrightarrow> keeps I (case v of Arr vs \<Rightarrow> m vs | _ \<Rightarrow> n)"
  by (auto split: jsval.splits)

lemma keeps_Arr_Cons: "(\<And>f fs. keeps I (m f fs)) \<Longrightarrow> keeps I n \<Longrightarrow> keeps I (case v of Arr (f # fs) \<Rightarrow> m f fs | _ \<Rightarrow> n)"
  by (auto split: jsval.splits list.splits)

section \<open>Properties the session layer cannot see\<close>

locale session_frame =
  fixes I :: "('w, 'm) sess_state_scheme \<Rightarrow> bool"
  assumes at_world: "I st \<Longrightarrow> I (st\<lparr>world := w\<rparr>)"
    and at_refs: "I st \<Longrightarrow> I (st\<lparr>refStore := r\<rparr>)"
    and at_attached: "I st \<Longrightarrow> I (st\<lparr>attached := a\<rparr>)"
    and at_domains: "I st \<Longrightarrow> I (st\<lparr>enabledDomains := e\<rparr>)"
    and at_sessions: "I st \<Longrightarrow> I (st\<lparr>sessionMap := ss\<rparr>)"
begin

lemma cdp_stable: "cdp_stable I"
  by (simp add: cdp_stable_def at_world at_attached at_domains)

lemmas cdp = keeps_cdp [OF cdp_stable]

lemma state: "keeps I (getSession name)" "keeps I (update_session name f)" "keeps I (delete_session name)"
  by (auto intro!: keepsI simp: getSession_def update_session_def delete_session_def modifies_def at_sessions split: option.splits)

lemma calls: "keeps I (call_opt f)" "keeps I (call_bool g)"
  by (intro hoare_rules at_world; assumption)+

lemma detach: "keeps I (detach C d)"
  by (rule keepsI) (simp add: detach_def cleanup_def at_world at_attached at_domains)

lemma remove: "keeps I (removeManagedTab C t)"
proof -
  have "keeps I (\<lambda>st. case tabs_remove C t (world st) of (ok, w') \<Rightarrow>
            if ok then (Inr True, forget_refs t (st\<lparr>world := w'\<rparr>))
            else if tabExists C w' (Some t) then (Inr False, st\<lparr>world := w'\<rparr>)
            else (Inr True, forget_refs t (st\<lparr>world := w'\<rparr>)))"
    by (rule keepsI) (auto simp: forget_refs_def at_world at_refs split: prod.splits)
  then show ?thesis unfolding removeManagedTab_def by (intro hoare_rules detach)
qed

lemma owned: "keeps I (update_owned C f)"
  unfolding update_owned_def saveOwnedGroups_def by (intro hoare_rules calls)

lemma limits: "keeps I (ensureDomainTabLimits C U l t x)"
  unfolding ensureDomainTabLimits_def by (intro hoare_rules; assumption)

lemmas basic = hoare_rules calls state remove owned limits cdp detach

lemma reconcile: "keeps I (reconcile C name)"
  unfolding reconcile_def adopt_group_def refresh_active_def rememberOwnedGroup_def Let_def by (intro basic; assumption)

lemma close_active: "keeps I (closeActiveTab C name)"
  unfolding closeActiveTab_def by (intro basic; assumption)

lemma acquire: "keeps I (acquireTabForNavigation C U name newTab l t)"
  unfolding acquireTabForNavigation_def open_tab_def groupTab_def rememberOwnedGroup_def Let_def case_prod_beta
  by (intro basic reconcile close_active; assumption)

lemma sessions:
  "keeps I (setGroupTitle C name title)" "keeps I (getActiveTab name)" "keeps I (bindTab name t)"
  "keeps I (closeSession C name)" "keeps I (closeGroup C g)"
  unfolding setGroupTitle_def getActiveTab_def bindTab_def closeSession_def close_step_def finish_close_def closeGroup_def
    close_group_step_def rememberOwnedGroup_def forgetOwnedSession_def forgetOwnedGroup_def case_prod_beta
  by (intro basic reconcile; assumption)+

lemma tab_tools:
  "keeps I (navigate C U ps args name l)" "keeps I (find_tab C U url a name l)" "keeps I (activate_tab C U i name l)"
  "keeps I (list_tabs C name)" "keeps I (close_tab C name)" "keeps I (close_session C g name)"
  unfolding navigate_def find_tab_def activate_tab_def list_tabs_def close_tab_def close_session_def Let_def
  by (intro basic reconcile acquire close_active sessions keeps_waitForComplete at_world; assumption)+

end

section \<open>What a page tool relies on\<close>

locale page_client =
  fixes C :: "'w chrome" and I :: "('w, 'm) sess_state_scheme \<Rightarrow> bool" and s :: string
  assumes at_world: "I st \<Longrightarrow> I (st\<lparr>world := w\<rparr>)"
    and at_refs: "I st \<Longrightarrow> I (st\<lparr>refStore := r\<rparr>)"
    and active: "keeps I (getActiveTab s)"
    and debugger: "keeps I (attach C d)" "keeps I (ensureDomain C d dm)" "keeps I (cdp_send C d m p)"
begin

lemmas basic = hoare_rules active debugger

lemma target: "keeps I (targetOf s args)"
  unfolding targetOf_def by (intro basic; assumption)

lemma lookup: "keeps I (resolveObjectId C d sel key)"
  unfolding resolveObjectId_def resolve_ref_def resolve_css_def Let_def by (intro basic; assumption)

lemma call: "keeps I (callOn C d oid f as)"
  unfolding callOn_def Let_def by (intro basic; assumption)

lemma box: "keeps I (boxCenter C d oid)" "keeps I (pointFor C d key sel x y)"
  unfolding pointFor_def boxCenter_def centerOf_def by (intro basic lookup call; assumption)+

lemma mouse: "keeps I (mouse C d ps)" "keeps I (press_mouse C d p)" "keeps I (mouse_click C d oid)"
  unfolding mouse_click_def press_mouse_def mouse_def by (intro basic box; assumption)+

lemma keyboard: "keeps I (key_event C d ty ps)" "keeps I (focus_first C d key sel)"
  unfolding key_event_def focus_first_def by (intro basic lookup call; assumption)+

lemma late: "keeps I m \<Longrightarrow> keeps I (withTimeout l m)"
  by (auto simp: hoare_def withTimeout_def split: prod.splits sum.splits)

lemma touch: "keeps I (touch_tap C d l1 l2 p)"
  unfolding touch_tap_def touch_event_def by (intro basic late; assumption)

lemma interact:
  "keeps I (click C args s)" "keeps I (fill C args s)" "keeps I (hover C args s)" "keeps I (scroll C args s)"
  "keeps I (press_key C args s)" "keeps I (select_option C args s)" "keeps I (drag C args s)" "keeps I (tap C l1 l2 args s)"
  unfolding click_def fill_def hover_def scroll_def press_key_def select_option_def drag_def tap_def Let_def case_prod_beta
  by (intro basic target lookup call box mouse keyboard touch; assumption)+

lemma upload: "keeps I (upload C args s)"
  unfolding upload_def case_prod_beta by (intro basic target lookup keeps_Arr_Cons; assumption)

lemma member: "keeps I (member k v)"
  unfolding member_def by (intro basic; assumption)

lemma evaluate: "keeps I (evaluate C args s)"
  unfolding evaluate_def eval_reply_def Let_def by (intro basic member keeps_Str; assumption)

lemma frames: "keeps I (frames T s)"
  unfolding frames_def getTargets_def Let_def by (intro basic; assumption)

lemma capture: "keeps I (screenshot C args s)" "keeps I (save_as_pdf C args s)"
  unfolding screenshot_def element_clip_def save_as_pdf_def case_prod_beta by (intro basic lookup member; assumption)+

lemma emulate: "keeps I (emulate C args s)"
  unfolding emulate_def emulate_clear_def emulate_device_def emulate_agent_def emulate_geo_def quiet_send_def Let_def
  by (intro basic; assumption)

lemma download: "keeps I (download D args)"
  unfolding download_def Let_def by (intro basic at_world; assumption)

lemma cookies: "keeps I (cookies C L args s)"
  unfolding cookies_def fetch_cookies_def Let_def by (intro basic; assumption)

lemma snapshot: "keeps I (snapshot C k args s)"
proof -
  have "keeps I (snap_reply C k frame t key r)" for frame t key r
    unfolding snap_reply_def by (intro basic keeps_Arr at_refs; assumption)
  then show ?thesis
    unfolding snapshot_def Let_def by (intro basic) (auto intro!: basic split: prod.split)
qed

end

section \<open>Properties the annotation modules cannot see\<close>

locale annotation_frame =
  fixes I :: "('w, 'm) mode_state_scheme \<Rightarrow> bool"
  assumes at_world: "I st \<Longrightarrow> I (st\<lparr>world := w\<rparr>)"
    and at_cache: "I st \<Longrightarrow> I (st\<lparr>ann_cache := c\<rparr>)"
    and at_shots: "I st \<Longrightarrow> I (st\<lparr>shots := sh\<rparr>)"
    and at_revision: "I st \<Longrightarrow> I (st\<lparr>revision := n\<rparr>)"
    and at_active: "I st \<Longrightarrow> I (st\<lparr>modeActive := ts\<rparr>)"
    and at_frames: "I st \<Longrightarrow> I (st\<lparr>modeFrames := fs\<rparr>)"
    and at_restored: "I st \<Longrightarrow> I (st\<lparr>modeRestored := b\<rparr>)"
begin

lemmas at = at_world at_cache at_shots at_revision at_active at_frames at_restored

lemma steps: "keeps I (load S)" "keeps I touch" "keeps I (restore C)" "keeps I (broadcast P t msg)" "keeps I (sendToFrame P t fr msg)"
  "keeps I (rememberFrame t fr url)"
  by (auto intro!: keepsI at hoare_rules simp: load_def touch_def restore_def broadcast_def sendToFrame_def rememberFrame_def modifies_def Let_def
      split: option.splits prod.splits)

lemma active_tabs: "keeps I (activeTabs C)"
proof -
  have "keeps I (\<lambda>st. (Inr (f st), st\<lparr>modeActive := g st\<rparr>))" for f g
    by (rule keepsI) (simp add: at)
  then show ?thesis unfolding activeTabs_def Let_def by (intro hoare_rules steps)
qed

lemma calls: "keeps I (call_bool g)" "keeps I (inject P t)"
  unfolding inject_def by (intro hoare_rules at; assumption)+

lemmas basic = hoare_rules steps active_tabs calls at

lemma store:
  "keeps I (persistItems S)" "keeps I (persistShots S)" "keeps I (list_anns S f)" "keeps I (summary S)" "keeps I (maxSeq S)"
  "keeps I (get_ann S i)" "keeps I (getShot S i)"
  unfolding persistItems_def persistShots_def list_anns_def summary_def maxSeq_def get_ann_def getShot_def
  by (intro basic; assumption)+

lemma changes:
  "keeps I (add S K input tabId session now)" "keeps I (patch S f ch now)" "keeps I (remove_anns S f)" "keeps I (setShot S i d)"
  unfolding add_def patch_def remove_anns_def drop_records_def setShot_def keep_shots_def set_items_def next_seq_def Let_def case_prod_beta
  by (intro basic store; assumption)+

lemma pages: "keeps I (annotationsForUrl S K url)" "keeps I (sync S P K t)" "keeps I (syncAll C S P K)" "keeps I (show_overlay S P K t)"
  unfolding annotationsForUrl_def sync_def syncAll_def show_overlay_def case_prod_beta by (intro basic store; assumption)+

lemma modes:
  "keeps I (isActive C t)" "keeps I (persistModes C)" "keeps I (mode_start C S P K t)" "keeps I (mode_stop C P t)"
  "keeps I (mode_stopAll C P)" "keeps I (mode_tabRemoved C t)" "keeps I (handleTabUpdated C S P K t status)"
  unfolding isActive_def persistModes_def mode_start_def mode_stop_def mode_stopAll_def mode_tabRemoved_def handleTabUpdated_def
    assertAnnotatable_def Let_def
  by (intro basic pages; assumption)+

lemma from_page: "keeps I (addFromPage C S P K now t input)"
  unfolding addFromPage_def captureElement_def case_prod_beta by (intro basic store changes; assumption)

lemma located: "keeps I (locate_in P t msg frs fallback)"
proof (induction frs arbitrary: fallback)
  case (Cons fr frs)
  show ?case unfolding locate_in.simps Let_def by (intro basic Cons.IH)
qed (simp add: hoare_ret)

lemma page_messages: "keeps I (handlePageMessage C S P K now msg from)"
  unfolding handlePageMessage_def page_ready_def if_tab_def Let_def
  by (intro basic store changes pages modes from_page; assumption)

end

end
