(* ===== verification/Worker.thy ===== *)
theory Worker
  imports ToolFrames
begin

text \<open>
  The service worker as a whole: every registered tool over one state, with the invariant all of them keep and
  the isolation of the sessions they work for.
\<close>

section \<open>The invariant\<close>

definition tables_bounded :: "('w, 'm) net_state_scheme \<Rightarrow> bool" where
  "tables_bounded st \<longleftrightarrow> (\<forall>t. length (buffer_of t st) \<le> MAX_ENTRIES) \<and> (\<forall>t. length (recent_of t st) \<le> 20)"

definition worker_ok :: "('w, 'm) mode_state_scheme \<Rightarrow> bool" where
  "worker_ok st \<longleftrightarrow> sess_inv st \<and> cdp_inv st \<and> tables_bounded st"

text \<open>The invariant, and every session but one is as it was.\<close>

definition worker_view :: "string \<Rightarrow> (string \<Rightarrow> session option) \<Rightarrow> ('w, 'm) mode_state_scheme \<Rightarrow> bool" where
  "worker_view name ss st \<longleftrightarrow> worker_ok st \<and> others name ss st"

interpretation tables: session_frame tables_bounded
  by unfold_locales (simp_all add: tables_bounded_def buffer_of_def recent_of_def)

lemma keeps_conj: "keeps I m \<Longrightarrow> keeps J m \<Longrightarrow> keeps (\<lambda>st. I st \<and> J st) m"
  by (auto intro!: keepsI dest: keepsD)

lemma keeps_same: "keeps I (Pair x)"
  by (rule keepsI) simp

lemma keeps_ok: "keeps sess_inv m \<Longrightarrow> keeps cdp_inv m \<Longrightarrow> keeps tables_bounded m \<Longrightarrow> keeps worker_ok m"
  unfolding worker_ok_def by (intro keeps_conj)

lemma keeps_view:
  "keeps sess_inv m \<Longrightarrow> keeps cdp_inv m \<Longrightarrow> keeps tables_bounded m \<Longrightarrow> keeps (others name ss) m \<Longrightarrow> keeps (worker_view name ss) m"
  unfolding worker_view_def by (intro keeps_conj keeps_ok)

lemma untouched_cdp_attach: "untouched (attach C d)"
  by (rule untouched_attach)

lemma worker_frame [simp]:
  "worker_ok (st\<lparr>world := w\<rparr>) = worker_ok st" "worker_ok (st\<lparr>refStore := r\<rparr>) = worker_ok st"
  "worker_ok (st\<lparr>ann_cache := c\<rparr>) = worker_ok st" "worker_ok (st\<lparr>shots := sh\<rparr>) = worker_ok st"
  "worker_ok (st\<lparr>revision := k\<rparr>) = worker_ok st" "worker_ok (st\<lparr>modeActive := ts\<rparr>) = worker_ok st"
  "worker_ok (st\<lparr>modeFrames := fs\<rparr>) = worker_ok st" "worker_ok (st\<lparr>modeRestored := b\<rparr>) = worker_ok st"
  by (simp_all add: worker_ok_def sess_inv_def cdp_inv_def domains_of_def tables_bounded_def buffer_of_def recent_of_def)

lemma view_frame [simp]:
  "worker_view n m (st\<lparr>world := w\<rparr>) = worker_view n m st" "worker_view n m (st\<lparr>refStore := r\<rparr>) = worker_view n m st"
  "worker_view n m (st\<lparr>ann_cache := c\<rparr>) = worker_view n m st" "worker_view n m (st\<lparr>shots := sh\<rparr>) = worker_view n m st"
  "worker_view n m (st\<lparr>revision := k\<rparr>) = worker_view n m st" "worker_view n m (st\<lparr>modeActive := ts\<rparr>) = worker_view n m st"
  "worker_view n m (st\<lparr>modeFrames := fs\<rparr>) = worker_view n m st" "worker_view n m (st\<lparr>modeRestored := b\<rparr>) = worker_view n m st"
  by (simp_all add: worker_view_def others_def)

section \<open>What hosts the tools\<close>

locale tool_host =
  fixes E :: "('w, ('w, 'm) mode_state_scheme) tool_env" and I :: "('w, 'm) mode_state_scheme \<Rightarrow> bool" and s :: string
  assumes page: "page_client (te_C E) I s" and ann: "annotation_frame I"
    and tabs: "keeps I (navigate (te_C E) U ps a s l)" "keeps I (find_tab (te_C E) U url b s l)" "keeps I (activate_tab (te_C E) U i s l)"
      "keeps I (list_tabs (te_C E) s)" "keeps I (close_tab (te_C E) s)" "keeps I (close_session (te_C E) g s)"
    and tables: "keeps I (network (te_C E) args s)" "keeps I (dialog (te_C E) args s)"
begin

lemmas on_page = page_client.interact [OF page] page_client.upload [OF page] page_client.evaluate [OF page]
  page_client.frames [OF page] page_client.capture [OF page] page_client.emulate [OF page] page_client.download [OF page]
  page_client.cookies [OF page] page_client.snapshot [OF page]

lemmas on_notes = hoare_rules page_client.active [OF page] annotation_frame.store [OF ann] annotation_frame.changes [OF ann]
  annotation_frame.pages [OF ann] annotation_frame.modes [OF ann] annotation_frame.active_tabs [OF ann]
  annotation_frame.calls [OF ann] annotation_frame.located [OF ann] annotation_frame.steps [OF ann]

lemma tab_tools:
  "keeps I (navigate_tool E args s l)" "keeps I (find_tab_tool E args s l)" "keeps I (list_tabs_tool E s)" "keeps I (list_sessions_tool E)"
  "keeps I (activate_tab_tool E args s l)" "keeps I (close_tab_tool E s)" "keeps I (close_session_tool E args s)"
  unfolding navigate_tool_def find_tab_tool_def list_tabs_tool_def list_sessions_tool_def activate_tab_tool_def close_tab_tool_def
    close_session_tool_def list_sessions_def id_arg_def case_prod_beta
  by (intro hoare_rules tabs; assumption)+

lemma resolve_tab: "keeps I (resolveTab (te_ann E) args s)"
  unfolding resolveTab_def front_tab_def Let_def by (intro on_notes keeps_list; assumption)

lemma annotate_tool:
  assumes "\<And>st. I st \<Longrightarrow> I (te_settle E st)"
  shows "keeps I (annotate (te_ann E) (te_settle E) args s)"
  unfolding annotate_def annotate_status_def annotate_locate_def annotate_on_def annotate_off_def stateOf_def find_annotation_def
    locate_tab_def mode_locate_def Let_def
  by (intro on_notes resolve_tab; (rule assms)?; assumption)

lemma annotations_tool:
  assumes "\<And>st. I st \<Longrightarrow> I (poll_after (te_wait E) st)"
  shows "keeps I (annotations (te_ann E) (te_wait E) args)"
  unfolding annotations_def listOp_def clearOp_def patchOp_def screenshotOp_def statsOp_def poll_for_def list_reply_def statusLine_def
    find_annotation_def returning_def Let_def case_prod_beta
  by (intro on_notes; (rule assms)?; assumption)

lemma run:
  assumes "\<And>st. I st \<Longrightarrow> I (te_settle E st)" "\<And>st. I st \<Longrightarrow> I (poll_after (te_wait E) st)" "text_arg session = s"
  shows "keeps I (run_tool E name args session options)"
  unfolding run_tool_def or_fail_def Let_def assms(3)
  by (intro hoare_rules tab_tools on_page tables annotate_tool annotations_tool; (erule assms)?; assumption)

end

section \<open>The invariant hosts the tools\<close>

lemma debugger_untouched: "untouched (attach C d)" "untouched (cdp_send C d m p)" "untouched (ensureDomain C d dm)"
  by (rule untouched_attach untouched_cdp)+

lemma debugger_ok:
  "keeps worker_ok (attach C d)" "keeps worker_ok (ensureDomain C d dm)" "keeps worker_ok (cdp_send C d m p)"
  by (intro keeps_ok keeps_untouched debugger_untouched tables.cdp keeps_cdp_attach keeps_cdp_ensure keeps_cdp_send)+

lemma sessions_ok:
  "keeps worker_ok (getActiveTab s)" "keeps worker_ok (navigate C U ps a s l)" "keeps worker_ok (find_tab C U url b s l)"
  "keeps worker_ok (activate_tab C U i s l)" "keeps worker_ok (list_tabs C s)" "keeps worker_ok (close_tab C s)"
proof -
  have cdp: "keeps cdp_inv (navigate C U ps a s l)" "keeps cdp_inv (find_tab C U url b s l)" "keeps cdp_inv (activate_tab C U i s l)"
    "keeps cdp_inv (list_tabs C s)" "keeps cdp_inv (close_tab C s)"
    unfolding navigate_def find_tab_def activate_tab_def list_tabs_def close_tab_def closeActiveTab_def Let_def
    by (intro hoare_rules keeps_waitForComplete; simp)+
  show "keeps worker_ok (getActiveTab s)" by (intro keeps_ok hoare_rules tables.sessions)
  show "keeps worker_ok (navigate C U ps a s l)" "keeps worker_ok (find_tab C U url b s l)"
    "keeps worker_ok (activate_tab C U i s l)" "keeps worker_ok (list_tabs C s)" "keeps worker_ok (close_tab C s)"
    by (intro keeps_ok keeps_tools cdp tables.tab_tools)+
qed

lemma sessions_others:
  "keeps (others s ss) (getActiveTab s)" "keeps (others s ss) (navigate C U ps a s l)" "keeps (others s ss) (find_tab C U url b s l)"
  "keeps (others s ss) (activate_tab C U i s l)" "keeps (others s ss) (list_tabs C s)" "keeps (others s ss) (close_tab C s)"
  "keeps (others s ss) (close_session C g s)"
  by (intro keeps_tools_others hoare_rules | simp only: close_session_def)+

lemma debugger_others:
  "keeps (others s ss) (attach C d)" "keeps (others s ss) (ensureDomain C d dm)" "keeps (others s ss) (cdp_send C d m p)"
  by (intro keeps_untouched debugger_untouched)+

lemma bounded_start: "worker_ok st \<Longrightarrow> worker_ok (st\<lparr>capturing := c, netBuffers := mput t [] (netBuffers st)\<rparr>)"
  by (auto simp: worker_ok_def sess_inv_def cdp_inv_def domains_of_def tables_bounded_def buffer_of_def recent_of_def)

lemma bounded_more: "worker_ok (st\<lparr>capturing := c\<rparr>) = worker_ok st" "worker_ok (st\<lparr>dlgPolicy := p\<rparr>) = worker_ok st"
  by (simp_all add: worker_ok_def sess_inv_def cdp_inv_def domains_of_def tables_bounded_def buffer_of_def recent_of_def)

lemma tables_ok: "keeps worker_ok (network C args s)" "keeps worker_ok (dialog C args s)"
  unfolding network_def net_start_def net_stop_def net_list_def net_detail_def dialog_def Let_def
  by (intro hoare_rules sessions_ok debugger_ok; simp add: bounded_start bounded_more)+

lemma others_tables: "others s ss (st\<lparr>capturing := c\<rparr>) = others s ss st" "others s ss (st\<lparr>netBuffers := b\<rparr>) = others s ss st"
  "others s ss (st'\<lparr>dlgPolicy := p\<rparr>) = others s ss st'"
  by (simp_all add: others_def)

lemma tables_others: "keeps (others s ss) (network C args s)" "keeps (others s ss) (dialog C args s)"
  unfolding network_def net_start_def net_stop_def net_list_def net_detail_def dialog_def Let_def
  by (intro hoare_rules debugger_others; simp add: others_tables)+

lemma view_conj: "keeps worker_ok m \<Longrightarrow> keeps (others s ss) m \<Longrightarrow> keeps (worker_view s ss) m"
  unfolding worker_view_def by (rule keeps_conj)

text \<open>Closing a session keeps the table in order because a closed tab is gone from the browser.\<close>

locale worker = browser_tabs "te_C E" for E :: "('w, ('w, 'm) mode_state_scheme) tool_env"
begin

lemma close_ok: "keeps worker_ok (close_session (te_C E) g s)"
proof (rule keeps_ok)
  show "keeps sess_inv (close_session (te_C E) g s)" unfolding close_session_def by (intro hoare_rules keeps_closeSession)
  show "keeps cdp_inv (close_session (te_C E) g s)" unfolding close_session_def by (intro hoare_rules)
qed (rule tables.tab_tools)

end

sublocale worker \<subseteq> ok_host: tool_host E worker_ok s for s
proof (rule tool_host.intro)
  show "page_client (te_C E) worker_ok s" by unfold_locales (simp_all add: sessions_ok debugger_ok)
  show "annotation_frame worker_ok" by unfold_locales simp_all
qed (intro sessions_ok close_ok tables_ok)+

sublocale worker \<subseteq> view_host: tool_host E "worker_view s ss" s for s ss
proof (rule tool_host.intro)
  show "page_client (te_C E) (worker_view s ss) s"
    by unfold_locales (simp_all add: view_conj sessions_ok sessions_others debugger_ok debugger_others)
  show "annotation_frame (worker_view s ss)" by unfold_locales simp_all
qed (intro view_conj sessions_ok close_ok sessions_others tables_ok tables_others)+

context worker
begin

lemma calls_ok:
  assumes "\<And>st. worker_ok st \<Longrightarrow> worker_ok (te_settle E st) \<and> worker_ok (poll_after (te_wait E) st)"
  shows "keeps worker_ok (dispatch (run_tool E) action args session options)"
proof -
  have tool: "keeps worker_ok (run_tool E name a s opts)" for name a s opts
    by (rule ok_host.run) (use assms in auto)
  show ?thesis unfolding dispatch_def Let_def by (intro keeps_if tool keeps_same hoare_throw)
qed

lemma calls_view:
  assumes "\<And>st. worker_view n ss st \<Longrightarrow> worker_view n ss (te_settle E st) \<and> worker_view n ss (poll_after (te_wait E) st)"
    and "text_arg (js_or session (Str ''default'')) = n"
  shows "keeps (worker_view n ss) (dispatch (run_tool E) action args session options)"
proof -
  have tool: "keeps (worker_view n ss) (run_tool E name a (js_or session (Str ''default'')) opts)" for name a opts
    by (rule view_host.run) (use assms in auto)
  show ?thesis unfolding dispatch_def Let_def by (intro keeps_if tool keeps_same hoare_throw)
qed

end

section \<open>What a tool call may change\<close>

text \<open>Nothing but the browser moves while a tool waits.\<close>

definition undisturbed :: "('w, ('w, 'm) mode_state_scheme) tool_env \<Rightarrow> bool" where
  "undisturbed E \<longleftrightarrow> (\<forall>st. \<exists>w w'. te_settle E st = st\<lparr>world := w\<rparr> \<and> poll_after (te_wait E) st = st\<lparr>world := w'\<rparr>)"

text \<open>
  C18: Whatever the daemon asks for, any action with any arguments, a tool call that runs undisturbed leaves
  every session but the named one exactly as it was, and keeps the session table, the debugger's bookkeeping
  and the bounds of the capture and dialog tables in order.
\<close>

theorem tool_calls_respect_sessions:
  assumes browser: "browser_tabs (te_C E)" and "undisturbed E" and "worker_ok st"
    and run: "dispatch (run_tool E) action args session options st = (r, st')"
  shows "worker_ok st' \<and> (\<forall>k. k \<noteq> sessionKey (text_arg (js_or session (Str ''default''))) \<longrightarrow> map_of (sessionMap st') k = map_of (sessionMap st) k)"
proof -
  let ?s = "text_arg (js_or session (Str ''default''))"
  have "worker_view ?s ss st \<Longrightarrow> worker_view ?s ss (te_settle E st) \<and> worker_view ?s ss (poll_after (te_wait E) st)" for ss st
    using assms(2) unfolding undisturbed_def by (metis view_frame(1))
  then have "keeps (worker_view ?s (map_of (sessionMap st))) (dispatch (run_tool E) action args session options)"
    by (intro worker.calls_view [OF worker.intro [OF browser]] refl)
  from keepsD [OF this, of st] run assms(3) show ?thesis
    by (simp add: worker_view_def others_def)
qed

section \<open>The mock browser hosts the worker\<close>

definition mock_env :: "(mock, mock mode_state) tool_env" where
  "mock_env = \<lparr>te_ann = \<lparr>env_C = mock_chrome,
        env_S = \<lparr>ann_get = (\<lambda>_. Some (None, None)), ann_set_items = (\<lambda>_ m. (False, m)), ann_set_shots = (\<lambda>_ m. (False, m))\<rparr>,
        env_P = mock_page, env_K = (\<lambda>_. None), env_now = ''2026-01-01T00:00:00.000Z''\<rparr>,
     te_U = (\<lambda>_. None), te_polls = [], te_stack = 0, te_targets = (\<lambda>_. None),
     te_downloads = \<lparr>dl_download = (\<lambda>_ m. (None, m)), dl_search = (\<lambda>_ _. None), dl_cancel = (\<lambda>_ m. (False, m))\<rparr>,
     te_collate = (\<lambda>_ _. 0), te_late = (False, False), te_settle = (\<lambda>st. st),
     te_wait = \<lparr>poll_fuel = 1, poll_start = 0, poll_items = (\<lambda>_. []), poll_clock = (\<lambda>_. 0), poll_after = (\<lambda>st. st)\<rparr>\<rparr>"

interpretation mocked_worker: worker mock_env
  by (simp add: worker_def mock_env_def mocked.browser_tabs_axioms)

interpretation ok_pages: page_client C worker_ok s for C :: "'w chrome" and s
  by unfold_locales (simp_all add: sessions_ok debugger_ok)

lemma mock_undisturbed: "undisturbed mock_env"
proof -
  have "st = st\<lparr>world := world st\<rparr>" for st :: "mock mode_state" by simp
  then show ?thesis unfolding undisturbed_def mock_env_def by (metis poll.select_convs(5) tool_env.select_convs(9,10))
qed

lemma fresh_worker_ok: "worker_ok (mode_start_state ts)"
  by (simp add: mode_start_state_def worker_ok_def sess_inv_def cdp_inv_def domains_of_def tables_bounded_def buffer_of_def recent_of_def)

lemma tool_calls_respect_sessions_witness:
  "map_of (sessionMap (snd (dispatch (run_tool mock_env) (Str ''close_tab'') (Obj []) (Str ''a'') Undef (mode_start_state [])))) ''b'' = None"
proof -
  have b: "browser_tabs (te_C mock_env)" by (rule mocked_worker.browser_tabs_axioms)
  have k: "''b'' \<noteq> sessionKey (text_arg (js_or (Str ''a'') (Str ''default'')))" by code_simp
  have "map_of (sessionMap (mode_start_state [] :: mock mode_state)) ''b'' = None" by (simp add: mode_start_state_def)
  with tool_calls_respect_sessions [OF b mock_undisturbed fresh_worker_ok surjective_pairing] k show ?thesis
    by (simp del: split_paired_All)
qed

end
