(* ===== verification/Background.thy ===== *)
theory Background
  imports Worker
begin

text \<open>
  \<^verbatim>\<open>src/background.js\<close>: the service worker's listeners, and the worker they make of the modules.  The state is the
  link's (\<open>ws\<close>) and the tools' (\<open>mode_state\<close>); a step is one event of the browser, the daemon, the popup, a page
  or the user.
\<close>

section \<open>Listeners\<close>

definition KEEPALIVE_ALARM :: string where "KEEPALIVE_ALARM = ''owb-keepalive''"

definition on_alarm :: "string \<Rightarrow> ws \<Rightarrow> ws" where
  "on_alarm name l = (if name = KEEPALIVE_ALARM then reconnectIfNeeded l else l)"

text \<open>Install, start-up and the first load of the worker.\<close>

definition on_start :: "ws \<Rightarrow> ws" where
  "on_start l = reconnectIfNeeded l"

definition on_tab_removed :: "'w chrome \<Rightarrow> int \<Rightarrow> ('w, 'm, unit) mode_prog" where
  "on_tab_removed C t = seqp (modifies (handleTabRemoved t)) (mode_tabRemoved C t)"

definition on_tab_updated :: "'w ann_env \<Rightarrow> int \<Rightarrow> string \<Rightarrow> ('w, 'm, unit) mode_prog" where
  "on_tab_updated A t status = handleTabUpdated (env_C A) (env_S A) (env_P A) (env_K A) t status"

text \<open>Switching the mode of a tab over; the value is the mode before.\<close>

definition toggle_mode :: "'w ann_env \<Rightarrow> int \<Rightarrow> ('w, 'm, bool) mode_prog" where
  "toggle_mode A t = bindp (isActive (env_C A) t) (\<lambda>on.
     seqp (if on then discard (mode_stop (env_C A) (env_P A) t)
           else discard (mode_start (env_C A) (env_S A) (env_P A) (env_K A) t)) (ret on))"

definition on_command :: "'w ann_env \<Rightarrow> string \<Rightarrow> ('w, 'm, unit) mode_prog" where
  "on_command A command =
     (if command \<noteq> ''toggle-annotate'' then ret ()
      else bindp (query_opt (page_front (env_P A))) (\<lambda>ts. case ts of
          [] \<Rightarrow> ret ()
        | tb # _ \<Rightarrow> catchp (discard (toggle_mode A (tab_id tb))) (\<lambda>_. ret ())))"

section \<open>Messages of the popup and of pages\<close>

record popup_status =
  ps_connected :: bool
  ps_url :: string
  ps_notice :: "notice option"
  ps_tabId :: "int option"
  ps_annotating :: bool

text \<open>
  What is answered.  \<open>LinkDone\<close> is answered when the call on the link has run to its end: to \<^verbatim>\<open>CONNECT\<close> with the state
  the link has then.
\<close>

datatype reply =
    PageAnswer page_reply
  | Status popup_status
  | LinkDone bool
  | Tested "probe_result list"
  | Toggled bool
  | NoActiveTab
  | UnknownMessage jsval
  | MessageError js_error

definition status_of :: "'w ann_env \<Rightarrow> ws \<Rightarrow> ('w, 'm, reply) mode_prog" where
  "status_of A l = bindp (query_opt (page_front (env_P A))) (\<lambda>ts. case ts of
      [] \<Rightarrow> ret (Status \<lparr>ps_connected = isConnected l, ps_url = currentUrl l, ps_notice = ws_notice l, ps_tabId = None, ps_annotating = False\<rparr>)
    | tb # _ \<Rightarrow> bindp (isActive (env_C A) (tab_id tb)) (\<lambda>on.
        ret (Status \<lparr>ps_connected = isConnected l, ps_url = currentUrl l, ps_notice = ws_notice l, ps_tabId = Some (tab_id tb), ps_annotating = on\<rparr>)))"

definition toggle_annotate :: "'w ann_env \<Rightarrow> ('w, 'm, reply) mode_prog" where
  "toggle_annotate A = bindp (query_opt (page_front (env_P A))) (\<lambda>ts. case ts of
      [] \<Rightarrow> ret NoActiveTab
    | tb # _ \<Rightarrow> bindp (toggle_mode A (tab_id tb)) (\<lambda>on. ret (Toggled (\<not> on))))"

definition annotation_message :: "jsval \<Rightarrow> bool" where
  "annotation_message msg \<longleftrightarrow> (case getp ''type'' msg of Str ty \<Rightarrow> prefix ''OWB_ANN_'' ty | _ \<Rightarrow> False)"

text \<open>The events a connection test sees are the argument \<open>es\<close>; the link after the message is part of the value.\<close>

definition on_message :: "'w ann_env \<Rightarrow> (string \<Rightarrow> bool) \<Rightarrow> probe_event list \<Rightarrow> jsval \<Rightarrow> sender \<Rightarrow> ws \<Rightarrow> ('w, 'm, reply \<times> ws) mode_prog" where
  "on_message A V es msg from l =
     catchp
       (if annotation_message msg
        then bindp (handlePageMessage (env_C A) (env_S A) (env_P A) (env_K A) (env_now A) msg from) (\<lambda>r. ret (PageAnswer r, l))
        else bindp (member ''type'' msg) (\<lambda>ty.
          if ty = Str ''GET_STATUS'' then bindp (status_of A l) (\<lambda>r. ret (r, l))
          else if ty = Str ''CONNECT'' then ret (LinkDone True, connect (text_arg (getp ''url'' msg)) l)
          else if ty = Str ''DISCONNECT'' then ret (LinkDone False, disconnect l)
          else if ty = Str ''TEST'' then ret (Tested (testConnection V (text_arg (getp ''url'' msg)) es), l)
          else if ty = Str ''TOGGLE_ANNOTATE'' then bindp (toggle_annotate A) (\<lambda>r. ret (r, l))
          else ret (UnknownMessage ty, l)))
       (\<lambda>e. ret (MessageError e, l))"

section \<open>The worker\<close>

text \<open>Events of the browser and of pages, on the state of the tools.\<close>

inductive browser_event :: "('w, ('w, 'm) mode_state_scheme) tool_env \<Rightarrow> ('w, 'm) mode_state_scheme \<Rightarrow> ('w, 'm) mode_state_scheme \<Rightarrow> bool" for E where
  ev_world: "browser_event E st (st\<lparr>world := w\<rparr>)"
| ev_removed: "browser_event E st (snd (on_tab_removed (te_C E) t st))"
| ev_updated: "browser_event E st (snd (on_tab_updated (te_ann E) t status st))"
| ev_command: "browser_event E st (snd (on_command (te_ann E) command st))"
| ev_detached: "browser_event E st (onDetach i d st)"
| ev_network: "browser_event E st (net_onEvent src e st)"
| ev_dialog: "browser_event E st (snd (on_dialog (te_C E) src entry st))"
| ev_message: "browser_event E st (snd (on_message (te_ann E) V es msg from l st))"

text \<open>While a tool waits, the browser and the pages go on.\<close>

definition waits_see_events :: "('w, ('w, 'm) mode_state_scheme) tool_env \<Rightarrow> bool" where
  "waits_see_events E \<longleftrightarrow> (\<forall>st. rtranclp (browser_event E) st (te_settle E st) \<and> rtranclp (browser_event E) st (poll_after (te_wait E) st))"

text \<open>A worker that was stopped starts with empty modules and what is in storage.\<close>

definition reloaded :: "('w, 'm) mode_state_scheme \<Rightarrow> ('w, 'm) mode_state_scheme" where
  "reloaded st = (restart_worker st)\<lparr>dlgPolicy := [], dlgRecent := [], netBuffers := [], capturing := []\<rparr>"

inductive worker_step :: "('w, ('w, 'm) mode_state_scheme) tool_env \<Rightarrow> (string \<Rightarrow> bool) \<Rightarrow> ws \<times> ('w, 'm) mode_state_scheme
    \<Rightarrow> ws \<times> ('w, 'm) mode_state_scheme \<Rightarrow> bool" for E V where
  w_event: "browser_event E st st' \<Longrightarrow> worker_step E V (l, st) (l, st')"
| w_link: "ws_step V l l' \<Longrightarrow> worker_step E V (l, st) (l', st)"
| w_alarm: "worker_step E V (l, st) (on_alarm name l, st)"
| w_message: "on_message (te_ann E) V es msg from l st = (Inr (r, l'), st') \<Longrightarrow> worker_step E V (l, st) (l', st')"
| w_tool: "i < length (suspended l) \<Longrightarrow> suspended l ! i = InTool msg \<Longrightarrow> handleToolCall (run_tool E) msg st = (r, st')
    \<Longrightarrow> worker_step E V (l, st) (tool_done msg r (drop_suspended i l), st')"
| w_restart: "worker_step E V (l, st) (on_start (ws_init (stored_url l) (stored_reconnect l)), reloaded st)"

inductive worker_reachable :: "('w, ('w, 'm) mode_state_scheme) tool_env \<Rightarrow> (string \<Rightarrow> bool) \<Rightarrow> ws \<times> ('w, 'm) mode_state_scheme
    \<Rightarrow> ws \<times> ('w, 'm) mode_state_scheme \<Rightarrow> bool" for E V s0 where
  wr_start: "worker_reachable E V s0 s0"
| wr_step: "worker_reachable E V s0 s \<Longrightarrow> worker_step E V s s' \<Longrightarrow> worker_reachable E V s0 s'"

section \<open>Every event keeps the invariant\<close>

interpretation annotating: annotation_frame worker_ok
  by unfold_locales simp_all

lemmas event_rules = hoare_rules annotating.modes annotating.pages annotating.changes annotating.store annotating.steps annotating.page_messages keeps_discard keeps_list

lemma toggle_ok: "keeps worker_ok (toggle_mode A t)" "keeps worker_ok (on_command A command)"
  unfolding on_command_def toggle_mode_def by (intro event_rules; assumption)+

lemma message_ok: "keeps worker_ok (on_message A V es msg from l)"
  unfolding on_message_def status_of_def toggle_annotate_def member_def
  by (intro event_rules toggle_ok; assumption)

lemma tables_removed: "tables_bounded (handleTabRemoved t st) = tables_bounded st" "tables_bounded (onDetach i d st) = tables_bounded st"
  by (simp_all add: handleTabRemoved_def onDetach_def Let_def cleanup_def forget_refs_def tables_bounded_def buffer_of_def recent_of_def
      split: option.splits)

lemma removed_ok: "keeps worker_ok (on_tab_removed C t)"
proof -
  have gone: "worker_ok st \<Longrightarrow> worker_ok (handleTabRemoved t st)" for st :: "('a, 'b) mode_state_scheme"
    by (simp add: worker_ok_def sess_inv_handleTabRemoved cdp_inv_handleTabRemoved tables_removed)
  show ?thesis unfolding on_tab_removed_def by (intro event_rules; erule gone)
qed

lemma detached_ok: "worker_ok st \<Longrightarrow> worker_ok (onDetach i d st)"
  by (simp add: worker_ok_def sess_inv_onDetach cdp_inv_onDetach tables_removed)

lemma network_ok: "worker_ok st \<Longrightarrow> worker_ok (net_onEvent src e st)"
  by (auto simp: net_onEvent_def worker_ok_def sess_inv_def cdp_inv_def domains_of_def tables_bounded_def buffer_of_def recent_of_def
      split: option.splits)

lemma dialog_ok: "keeps worker_ok (on_dialog C src entry)"
proof -
  have push: "length r \<le> 20 \<Longrightarrow> length (push_recent e r) \<le> 20" for e and r :: "dlg_entry list"
    by (auto simp: push_recent_def Let_def)
  have log: "worker_ok st \<Longrightarrow> worker_ok (st\<lparr>dlgRecent := mput t (push_recent entry (recent_of t st)) (dlgRecent st)\<rparr>)" for t and st :: "('a, 'b) mode_state_scheme"
    using push by (auto simp: worker_ok_def sess_inv_def cdp_inv_def domains_of_def tables_bounded_def buffer_of_def recent_of_def)
  show ?thesis unfolding on_dialog_def by (intro event_rules debugger_ok; (erule log)?; assumption?)
qed

lemma events_ok: "browser_event E st st' \<Longrightarrow> worker_ok st \<Longrightarrow> worker_ok st'"
  by (induction rule: browser_event.induct)
    (simp_all add: keepsD [OF removed_ok] keepsD [OF annotating.modes(7)] keepsD [OF toggle_ok(2)] on_tab_updated_def detached_ok network_ok
      keepsD [OF dialog_ok] keepsD [OF message_ok])

lemma many_events_ok: "rtranclp (browser_event E) st st' \<Longrightarrow> worker_ok st \<Longrightarrow> worker_ok st'"
  by (induction rule: rtranclp_induct) (auto dest: events_ok)

lemma reloaded_ok: "worker_ok (reloaded st)"
  by (simp add: reloaded_def restart_worker_def worker_ok_def sess_inv_def cdp_inv_def domains_of_def tables_bounded_def buffer_of_def recent_of_def)

lemma tool_call_ok:
  assumes "browser_tabs (te_C E)" "waits_see_events E" "worker_ok st" "handleToolCall (run_tool E) msg st = (r, st')"
  shows "worker_ok st'"
proof -
  have "worker_ok st \<Longrightarrow> worker_ok (te_settle E st) \<and> worker_ok (poll_after (te_wait E) st)" for st
    using assms(2) many_events_ok unfolding waits_see_events_def by blast
  from worker.calls_ok [OF worker.intro [OF assms(1)] this] have "keeps worker_ok (dispatch (run_tool E) action args session options)" for action args session options
    by blast
  then have "keeps worker_ok (handleToolCall (run_tool E) msg)"
    unfolding handleToolCall_def by (auto split: prod.split)
  from keepsD [OF this assms(3)] assms(4) show ?thesis by simp
qed

text \<open>On the link, a step of the worker is a step of the link's own machine, or none.\<close>

lemma hoare_any: "hoare P m (\<lambda>_ _. True) (\<lambda>_ _. True)"
  by (simp add: hoare_def split: prod.split sum.split)

lemma hoare_either: "hoare P m Q E \<Longrightarrow> hoare P n Q E \<Longrightarrow> hoare P (if b then m else n) Q E"
  by simp

lemma message_link: "on_message A V es msg from l st = (Inr (r, l'), st') \<Longrightarrow> l' = l \<or> ws_step V l l'"
proof -
  have moved: "hoare (\<lambda>_. True) (on_message A V es msg from l) (\<lambda>x _. snd x = l \<or> ws_step V l (snd x)) (\<lambda>_ _. True)"
    unfolding on_message_def
    by (intro hoare_catchp [where R = "\<lambda>_ _. True"] hoare_either hoare_bindp [OF hoare_any] hoare_ret) (simp_all add: ws_step.intros)
  assume "on_message A V es msg from l st = (Inr (r, l'), st')"
  from hoareD_Inr [OF moved _ this] show ?thesis by simp
qed

section \<open>The worker as a whole\<close>

text \<open>
  C2: Whatever happens to the worker - tool calls of the daemon, tabs closed or loaded, debuggers detached, network
  and dialog events, messages of pages and of the popup, alarms, restarts - no session loses its form, the
  debugger's bookkeeping agrees with itself and the capture and dialog tables stay within their bounds; and its link
  is always in a state of the link's own machine.
\<close>

theorem worker_stays_well_formed:
  assumes "browser_tabs (te_C E)" and "waits_see_events E"
    and "worker_reachable E V (on_start (ws_init u r), reloaded st0) s"
  shows "worker_ok (snd s) \<and> (\<exists>u r. ws_reachable V (ws_init u r) (fst s))"
  using assms(3)
proof (induction rule: worker_reachable.induct)
  case wr_start
  show ?case by (auto simp: on_start_def reloaded_ok intro: ws_more [OF ws_start ws_alarm])
next
  case (wr_step s s')
  then obtain u r where l: "ws_reachable V (ws_init u r) (fst s)" and ok: "worker_ok (snd s)" by blast
  from wr_step.hyps(2) show ?case
  proof cases
    case (w_tool i l msg st res st')
    with ok show ?thesis
      using tool_call_ok [OF assms(1,2) _ w_tool(5)] ws_more [OF l] ws_tool [OF w_tool(3,4), of V] by auto
  next
    case (w_restart l st)
    then show ?thesis by (auto simp: on_start_def reloaded_ok intro: ws_more [OF ws_start ws_alarm])
  next
    case (w_message es msg who l st res l' st')
    with ok l show ?thesis
      using keepsD [OF message_ok, where s = st] message_link [OF w_message(3)] ws_more [OF l] by (metis fst_conv snd_conv)
  next
    case (w_alarm l st name)
    with ok l show ?thesis using ws_more [OF l] ws_alarm [of V l] by (auto simp: on_alarm_def)
  next
    case (w_link l l' st)
    with ok ws_more [OF l] show ?thesis by auto
  next
    case (w_event st st' l)
    with ok l show ?thesis by (auto dest: events_ok)
  qed
qed

lemma mock_waits: "waits_see_events mock_env"
  by (simp add: waits_see_events_def mock_env_def)

lemma worker_stays_well_formed_witness:
  "worker_ok (snd (on_tab_removed mock_chrome 7 (reloaded (mode_start_state [jint 7]))))"
proof -
  let ?l = "on_start (ws_init [] False)" and ?st = "reloaded (mode_start_state [jint 7])"
  have "browser_event mock_env ?st (snd (on_tab_removed (te_C mock_env) 7 ?st))" by (rule ev_removed)
  then have e: "browser_event mock_env ?st (snd (on_tab_removed mock_chrome 7 ?st))" by (simp add: mock_env_def)
  from worker_stays_well_formed [OF mocked_worker.browser_tabs_axioms mock_waits wr_step [OF wr_start w_event [OF e]]]
  show ?thesis by simp
qed

end
