(* ===== verification/TabLock.thy ===== *)
theory TabLock
  imports Errors
begin

text \<open>
  \<^verbatim>\<open>withTabMutationLock\<close> of \<^verbatim>\<open>src/sessions.js\<close>: the promise chain that serialises every handler that
  opens or closes tabs.  A call appends a run that waits for the run the tail follows
  (\<^verbatim>\<open>tabMutationTail.catch(() => {}).then(fn)\<close>: fulfilled or rejected alike) and becomes the tail.  When a
  run starts and when its function settles is up to the scheduler, so these are steps of their own.
\<close>

datatype run_phase = Waiting | Running | Settled bool

record lock_run =
  waits_for :: "nat option"
  phase :: run_phase

record tab_lock =
  lock_runs :: "lock_run list"
  lock_tail :: "nat option"

definition lock_init :: tab_lock where
  "lock_init = \<lparr>lock_runs = [], lock_tail = None\<rparr>"

definition withTabMutationLock :: "tab_lock \<Rightarrow> tab_lock" where
  "withTabMutationLock l = l\<lparr>lock_runs := lock_runs l @ [\<lparr>waits_for = lock_tail l, phase = Waiting\<rparr>],
     lock_tail := Some (length (lock_runs l))\<rparr>"

fun settled :: "run_phase \<Rightarrow> bool" where
  "settled (Settled _) = True"
| "settled _ = False"

definition may_start :: "tab_lock \<Rightarrow> nat \<Rightarrow> bool" where
  "may_start l i \<longleftrightarrow> i < length (lock_runs l) \<and> phase (lock_runs l ! i) = Waiting
     \<and> (case waits_for (lock_runs l ! i) of None \<Rightarrow> True | Some j \<Rightarrow> settled (phase (lock_runs l ! j)))"

definition set_phase :: "nat \<Rightarrow> run_phase \<Rightarrow> tab_lock \<Rightarrow> tab_lock" where
  "set_phase i p l = l\<lparr>lock_runs := (lock_runs l)[i := (lock_runs l ! i)\<lparr>phase := p\<rparr>]\<rparr>"

inductive lock_step :: "tab_lock \<Rightarrow> tab_lock \<Rightarrow> bool" where
  lock_call: "lock_step l (withTabMutationLock l)"
| lock_start: "may_start l i \<Longrightarrow> lock_step l (set_phase i Running l)"
| lock_settle: "i < length (lock_runs l) \<Longrightarrow> phase (lock_runs l ! i) = Running \<Longrightarrow> lock_step l (set_phase i (Settled ok) l)"

inductive_cases lock_stepE: "lock_step l l'"

inductive lock_reachable :: "tab_lock \<Rightarrow> bool" where
  lock_reach_init: "lock_reachable lock_init"
| lock_reach_step: "lock_reachable l \<Longrightarrow> lock_step l l' \<Longrightarrow> lock_reachable l'"

text \<open>The chain: run \<open>i + 1\<close> waits for run \<open>i\<close>, and a run that has left \<open>Waiting\<close> has settled predecessors.\<close>

definition lock_inv :: "tab_lock \<Rightarrow> bool" where
  "lock_inv l \<longleftrightarrow>
     lock_tail l = (if lock_runs l = [] then None else Some (length (lock_runs l) - 1))
     \<and> (\<forall>i < length (lock_runs l). waits_for (lock_runs l ! i) = (if i = 0 then None else Some (i - 1)))
     \<and> (\<forall>i < length (lock_runs l). phase (lock_runs l ! i) \<noteq> Waiting \<longrightarrow> (\<forall>j < i. settled (phase (lock_runs l ! j))))"

lemma settled_iff [simp]: "settled p \<longleftrightarrow> (\<exists>ok. p = Settled ok)"
  by (cases p) auto

lemma set_phase_simps [simp]:
  "length (lock_runs (set_phase i p l)) = length (lock_runs l)"
  "lock_tail (set_phase i p l) = lock_tail l"
  "lock_runs (set_phase i p l) = [] \<longleftrightarrow> lock_runs l = []"
  by (simp_all add: set_phase_def)

lemma nth_set_phase:
  "k < length (lock_runs l) \<Longrightarrow> lock_runs (set_phase i p l) ! k =
     (if k = i then (lock_runs l ! i)\<lparr>phase := p\<rparr> else lock_runs l ! k)"
  by (auto simp: set_phase_def)

lemma may_start_predecessors:
  assumes "lock_inv l" "may_start l i" "j < i"
  shows "settled (phase (lock_runs l ! j))"
proof -
  have i: "i < length (lock_runs l)" and w: "waits_for (lock_runs l ! i) = Some (i - 1)"
    using assms by (auto simp: may_start_def lock_inv_def)
  then have s: "settled (phase (lock_runs l ! (i - 1)))"
    using assms(2) by (simp add: may_start_def)
  show ?thesis
  proof (cases "j = i - 1")
    case False
    with assms(3) have "j < i - 1" by simp
    moreover have "phase (lock_runs l ! (i - 1)) \<noteq> Waiting" using s by auto
    ultimately show ?thesis
      using assms(1) i unfolding lock_inv_def by (metis diff_less less_imp_diff_less less_trans)
  qed (use s in simp)
qed

lemma lock_inv_step:
  assumes "lock_inv l" "lock_step l l'"
  shows "lock_inv l'"
  using assms(2)
proof cases
  case lock_call
  then show ?thesis
    using assms(1) by (auto simp: lock_inv_def withTabMutationLock_def nth_append less_Suc_eq)
next
  case (lock_start i)
  have "settled (phase (lock_runs l ! j))" if "j < i" for j
    using may_start_predecessors [OF assms(1) lock_start(2) that] .
  moreover have "phase (lock_runs l ! i) = Waiting" "i < length (lock_runs l)"
    using lock_start(2) by (auto simp: may_start_def)
  ultimately show ?thesis
    using assms(1) unfolding lock_start(1) lock_inv_def by (auto simp: nth_set_phase) (metis run_phase.distinct(3))
next
  case (lock_settle i ok)
  then show ?thesis
    using assms(1) unfolding lock_settle(1) lock_inv_def
    by (simp add: nth_set_phase)
qed

lemma lock_inv_init: "lock_inv lock_init"
  by (simp add: lock_inv_def lock_init_def)

lemma lock_reachable_inv: "lock_reachable l \<Longrightarrow> lock_inv l"
  by (induction rule: lock_reachable.induct) (rule lock_inv_init, rule lock_inv_step)

text \<open>
  C23: the lock serialises its callers and cannot jam.  At most one function runs at a time; a function that
  has started finds every earlier call settled (first come, first served); and while calls are waiting and
  none is running, the earliest unsettled one may start, whether or not the calls before it failed.
\<close>

theorem mutation_lock_serialises:
  assumes "lock_reachable l"
  shows "(\<forall>i j. i < length (lock_runs l) \<longrightarrow> j < length (lock_runs l)
            \<longrightarrow> phase (lock_runs l ! i) = Running \<longrightarrow> phase (lock_runs l ! j) = Running \<longrightarrow> i = j)
    \<and> (\<forall>i j. i < length (lock_runs l) \<longrightarrow> phase (lock_runs l ! i) \<noteq> Waiting \<longrightarrow> j < i
            \<longrightarrow> settled (phase (lock_runs l ! j)))
    \<and> ((\<exists>i < length (lock_runs l). phase (lock_runs l ! i) = Waiting)
       \<longrightarrow> (\<forall>i < length (lock_runs l). phase (lock_runs l ! i) \<noteq> Running)
       \<longrightarrow> (\<exists>i. may_start l i \<and> (\<forall>j < i. settled (phase (lock_runs l ! j)))))"
proof -
  note inv = lock_reachable_inv [OF assms]
  have order: "settled (phase (lock_runs l ! j))"
    if "i < length (lock_runs l)" "phase (lock_runs l ! i) \<noteq> Waiting" "j < i" for i j
    using inv that by (simp add: lock_inv_def)
  have one: "i = j" if "i < length (lock_runs l)" "j < length (lock_runs l)"
    "phase (lock_runs l ! i) = Running" "phase (lock_runs l ! j) = Running" for i j
    using order [of i j] order [of j i] that by (cases i j rule: linorder_cases) auto
  have start: "\<exists>i. may_start l i \<and> (\<forall>j < i. settled (phase (lock_runs l ! j)))"
    if w: "\<exists>i < length (lock_runs l). phase (lock_runs l ! i) = Waiting"
      and r: "\<forall>i < length (lock_runs l). phase (lock_runs l ! i) \<noteq> Running"
  proof -
    define i where "i = (LEAST i. i < length (lock_runs l) \<and> phase (lock_runs l ! i) = Waiting)"
    have i: "i < length (lock_runs l)" "phase (lock_runs l ! i) = Waiting"
      using LeastI_ex [OF w] by (simp_all add: i_def)
    have before: "settled (phase (lock_runs l ! j))" if "j < i" for j
      using not_less_Least [OF that [unfolded i_def]] that i r
      by (cases "phase (lock_runs l ! j)") (auto simp: i_def)
    moreover have "waits_for (lock_runs l ! i) = (if i = 0 then None else Some (i - 1))"
      using inv i by (simp add: lock_inv_def)
    ultimately have "may_start l i"
      using i by (simp add: may_start_def)
    with before show ?thesis by blast
  qed
  show ?thesis
    using order one start by blast
qed

lemma mutation_lock_serialises_witness:
  "\<exists>i. may_start (set_phase 0 (Settled False) (set_phase 0 Running (withTabMutationLock (withTabMutationLock lock_init)))) i"
proof -
  let ?l2 = "withTabMutationLock (withTabMutationLock lock_init)"
  let ?l3 = "set_phase 0 Running ?l2"
  let ?l4 = "set_phase 0 (Settled False) ?l3"
  have r2: "lock_reachable ?l2"
    by (intro lock_reach_step [OF lock_reach_step [OF lock_reach_init lock_call] lock_call])
  have "may_start ?l2 0"
    by code_simp
  then have r3: "lock_reachable ?l3"
    by (rule lock_reach_step [OF r2 lock_start])
  have "0 < length (lock_runs ?l3)" "phase (lock_runs ?l3 ! 0) = Running"
    by code_simp+
  then have "lock_reachable ?l4"
    by (rule lock_reach_step [OF r3 lock_settle])
  moreover have "1 < length (lock_runs ?l4)" "phase (lock_runs ?l4 ! 1) = Waiting"
    by code_simp+
  moreover have "\<forall>i < length (lock_runs ?l4). phase (lock_runs ?l4 ! i) \<noteq> Running"
    by code_simp
  ultimately show ?thesis
    using mutation_lock_serialises by blast
qed

end
