(* ===== verification/AnnProps.thy ===== *)
theory AnnProps
  imports AnnStore
begin

text \<open>
  The annotation store's guarantees: ids are never reused and records stay in creation order, in memory and in
  storage, across service-worker restarts and rejected writes; what each operation does to the records;
  what survives a restart; which screenshots a record may advertise; that a long poll ends.
\<close>

section \<open>Running the operations\<close>

lemma load_result: "load S st = (Inr (), snd (load S st))"
  by (simp add: load_def modifies_def)

lemma load_idle: "ann_cache st = Some c \<Longrightarrow> snd (load S st) = st"
  by (simp add: load_def modifies_def)

lemma seqp_load: "seqp (load S) m st = m (snd (load S st))"
  unfolding seqp_def by (rule bindp_Inr [OF load_result])

lemma load_world [simp]: "world (snd (load S st)) = world st" "revision (snd (load S st)) = revision st"
  by (simp_all add: load_def modifies_def Let_def split: option.splits)

lemma load_cached: "ann_cache (snd (load S st)) = Some (the_cache (snd (load S st)))"
  by (simp add: load_def modifies_def Let_def the_cache_def split: option.splits)

lemma persistItems_result:
  "persistItems S st = (Inr (), st\<lparr>world := snd (ann_set_items S (the_cache st) (world st))\<rparr>)"
  by (simp add: persistItems_def bindp_reads catchp_def call_bool_def ret_def split: prod.splits)

lemma touch_result: "touch st = (Inr (), st\<lparr>revision := revision st + 1\<rparr>)"
  by (simp add: touch_def modifies_def)

lemma persistShots_result:
  "persistShots S st =
     (let w1 = snd (ann_set_shots S (shots st) (world st)) in
      if fst (ann_set_shots S (shots st) (world st)) then (Inr (), st\<lparr>world := w1\<rparr>)
      else (Inr (), st\<lparr>world := snd (ann_set_shots S (oldest_half (shots st)) w1), shots := oldest_half (shots st)\<rparr>))"
  by (simp add: persistShots_def bindp_reads catchp_def call_bool_def seqp_def bindp_modifies ret_def Let_def
      split: prod.splits)

lemma the_cache_frame [simp]:
  "the_cache (st\<lparr>world := w\<rparr>) = the_cache st" "the_cache (st\<lparr>shots := s\<rparr>) = the_cache st"
  "the_cache (st\<lparr>revision := r\<rparr>) = the_cache st" "the_cache (st\<lparr>ann_cache := Some c\<rparr>) = c"
  "the_cache (next_seq st) = (the_cache st)\<lparr>c_seq := c_seq (the_cache st) + 1\<rparr>"
  "the_cache (set_items its st) = (the_cache st)\<lparr>c_items := its\<rparr>"
  by (simp_all add: the_cache_def next_seq_def set_items_def)

lemma items_of_frame [simp]:
  "items_of (st\<lparr>world := w\<rparr>) = items_of st" "items_of (st\<lparr>shots := s\<rparr>) = items_of st"
  "items_of (st\<lparr>revision := r\<rparr>) = items_of st" "items_of (next_seq st) = items_of st"
  "items_of (set_items its st) = its"
  by (simp_all add: items_of_def)

lemma next_seq_frame [simp]: "world (next_seq st) = world st" "shots (next_seq st) = shots st"
  "world (set_items its st) = world st" "shots (set_items its st) = shots st" "revision (set_items its st) = revision st"
  by (simp_all add: next_seq_def set_items_def)

definition stored_record :: "(string \<Rightarrow> string option) \<Rightarrow> jsval \<Rightarrow> jsval \<Rightarrow> jsval \<Rightarrow> string
    \<Rightarrow> ('w, 'm) ann_state_scheme \<Rightarrow> annotation" where
  "stored_record K input tabId session now st = makeRecord K (c_seq (the_cache st) + 1) input tabId session now"

lemma add_result:
  "add S K input tabId session now st =
     (let st1 = snd (load S st); r = stored_record K input tabId session now st1;
          st2 = (set_items (pruneItems MAX_ANNOTATIONS (items_of st1 @ [r])) (next_seq st1))\<lparr>revision := revision (next_seq st1) + 1\<rparr>
      in if ann_comment r = [] then (Inl EmptyComment, next_seq st1)
         else (Inr r, st2\<lparr>world := snd (ann_set_items S (the_cache st2) (world st2))\<rparr>))"
  by (simp add: add_def seqp_load stored_record_def Let_def)
    (simp add: seqp_def bindp_modifies bindp_reads throw_def bindp_Inr [OF touch_result] bindp_Inr [OF persistItems_result] ret_def)

definition changed :: "ann_filter \<Rightarrow> ann_changes \<Rightarrow> string \<Rightarrow> annotation list \<Rightarrow> annotation list" where
  "changed f ch now its = change_targets (map ann_id (filterAnnotations its f)) (apply_changes ch now) its"

lemma patch_result:
  "patch S f ch now st =
     (let st1 = snd (load S st); targets = filterAnnotations (items_of st1) f;
          st2 = set_items (changed f ch now (items_of st1)) st1;
          st3 = st2\<lparr>revision := revision st2 + 1\<rparr>
      in (Inr (map (apply_changes ch now) targets),
          if targets = [] then st2 else st3\<lparr>world := snd (ann_set_items S (the_cache st3) (world st3))\<rparr>))"
  by (simp add: patch_def seqp_load Let_def bindp_reads changed_def)
    (simp add: seqp_def bindp_modifies bindp_assoc bindp_Inr [OF touch_result] bindp_Inr [OF persistItems_result],
     simp add: ret_def)

section \<open>Records in order, ids never reused\<close>

definition cache_ok :: "ann_cache \<Rightarrow> bool" where
  "cache_ok c \<longleftrightarrow> sorted_wrt (\<lambda>a b. ann_seq a < ann_seq b) (c_items c)
     \<and> (\<forall>it \<in> set (c_items c). ann_id it = ''a'' @ show_nat (ann_seq it) \<and> 0 < ann_seq it \<and> ann_seq it \<le> c_seq c)
     \<and> length (c_items c) \<le> MAX_ANNOTATIONS"

definition ann_ok :: "'w ann_api \<Rightarrow> ('w, 'm) ann_state_scheme \<Rightarrow> bool" where
  "ann_ok S st \<longleftrightarrow> (\<forall>c. ann_cache st = Some c \<longrightarrow> cache_ok c)
     \<and> (\<forall>c sh. ann_get S (world st) = Some (Some c, sh) \<longrightarrow> cache_ok c)"

lemma cache_ok_empty [simp]: "cache_ok \<lparr>c_seq = n, c_items = []\<rparr>"
  by (simp add: cache_ok_def)

lemma cache_ok_loaded: "(\<And>c. raw = Some c \<Longrightarrow> cache_ok c) \<Longrightarrow> cache_ok (loaded_cache raw)"
proof (cases raw)
  case (Some c)
  assume "\<And>c. raw = Some c \<Longrightarrow> cache_ok c"
  with Some have "cache_ok c" by simp
  moreover from this have "c_items c = []" if "c_seq c = 0"
    using that by (cases "c_items c") (auto simp: cache_ok_def)
  ultimately show ?thesis
    using Some by (auto simp: loaded_cache_def cache_ok_def)
qed (simp add: loaded_cache_def)

lemma cache_ok_next: "cache_ok c \<Longrightarrow> cache_ok (c\<lparr>c_seq := Suc (c_seq c)\<rparr>)"
  by (auto simp: cache_ok_def intro: le_SucI)

lemma cache_ok_append:
  assumes "cache_ok c" "ann_seq r = Suc (c_seq c)" "ann_id r = ''a'' @ show_nat (ann_seq r)"
  shows "pruneItems MAX_ANNOTATIONS (c_items c @ [r]) = keep_last MAX_ANNOTATIONS (c_items c @ [r])"
    "cache_ok (c\<lparr>c_seq := Suc (c_seq c), c_items := pruneItems MAX_ANNOTATIONS (c_items c @ [r])\<rparr>)"
proof -
  have s: "sorted_wrt (\<lambda>a b. ann_seq a < ann_seq b) (c_items c @ [r])"
    using assms by (auto simp: cache_ok_def sorted_wrt_append less_Suc_eq_le)
  show k: "pruneItems MAX_ANNOTATIONS (c_items c @ [r]) = keep_last MAX_ANNOTATIONS (c_items c @ [r])"
    by (rule pruneItems_sorted_id [OF s])
  show "cache_ok (c\<lparr>c_seq := Suc (c_seq c), c_items := pruneItems MAX_ANNOTATIONS (c_items c @ [r])\<rparr>)"
    using assms sorted_wrt_keep_last [OF s] set_keep_last [of MAX_ANNOTATIONS "c_items c @ [r]"]
    by (auto simp: cache_ok_def k le_SucI)
qed

lemma cache_ok_filter: "cache_ok c \<Longrightarrow> cache_ok (c\<lparr>c_items := filter P (c_items c)\<rparr>)"
  by (auto simp: cache_ok_def sorted_wrt_filter intro: order_trans [OF length_filter_le])

lemma cache_ok_map:
  "cache_ok c \<Longrightarrow> (\<And>it. ann_seq (f it) = ann_seq it \<and> ann_id (f it) = ann_id it) \<Longrightarrow> cache_ok (c\<lparr>c_items := map f (c_items c)\<rparr>)"
  by (auto simp: cache_ok_def sorted_wrt_map)

lemma apply_changes_id [simp]:
  "ann_seq (apply_changes ch now it) = ann_seq it" "ann_id (apply_changes ch now it) = ann_id it"
  "ann_url (apply_changes ch now it) = ann_url it" "ann_tabId (apply_changes ch now it) = ann_tabId it"
  "ann_has_screenshot (apply_changes ch now it) = ann_has_screenshot it"
  "ann_element (apply_changes ch now it) = ann_element it"
  by (simp_all add: apply_changes_def Let_def)

lemma cache_ok_distinct: "cache_ok c \<Longrightarrow> distinct (map ann_id (c_items c))"
proof -
  assume c: "cache_ok c"
  then have "sorted_wrt (<) (map ann_seq (c_items c))"
    by (simp add: cache_ok_def sorted_wrt_map)
  then have "distinct (map ann_seq (c_items c))"
    by (simp add: strict_sorted_iff)
  moreover have "map ann_id (c_items c) = map (\<lambda>n. ''a'' @ show_nat n) (map ann_seq (c_items c))"
    using c by (simp add: cache_ok_def)
  ultimately show ?thesis
    by (simp only: distinct_map inj_on_def) auto
qed

lemma the_cache_ok: "ann_ok S st \<Longrightarrow> cache_ok (the_cache st)"
  by (simp add: ann_ok_def the_cache_def split: option.splits)

lemma ann_ok_frame [simp]: "ann_ok S (st\<lparr>shots := s\<rparr>) = ann_ok S st" "ann_ok S (st\<lparr>revision := r\<rparr>) = ann_ok S st"
  by (simp_all add: ann_ok_def)

lemma ann_ok_load: "ann_ok S st \<Longrightarrow> ann_ok S (snd (load S st))"
  unfolding ann_ok_def load_world
  by (auto simp: load_def modifies_def Let_def intro!: cache_ok_loaded split: option.splits)

lemma ann_ok_cache: "ann_ok S st \<Longrightarrow> cache_ok c \<Longrightarrow> ann_ok S (st\<lparr>ann_cache := Some c\<rparr>)"
  by (simp add: ann_ok_def)

context ann_storage
begin

lemma items_stored: "ann_get S (snd (ann_set_items S c w)) = Some (Some c', sh) \<Longrightarrow> cache_ok c \<Longrightarrow>
    (\<And>c sh. ann_get S w = Some (Some c, sh) \<Longrightarrow> cache_ok c) \<Longrightarrow> cache_ok c'"
  using items_written [of c w "snd (ann_set_items S c w)"] items_rejected [of c w "snd (ann_set_items S c w)"]
  by (cases "fst (ann_set_items S c w)"; cases "ann_set_items S c w"; cases "ann_get S w") auto

lemma shots_stored: "ann_get S (snd (ann_set_shots S s w)) = Some (Some c', sh) \<Longrightarrow>
    \<exists>sh. ann_get S w = Some (Some c', sh)"
  using shots_written [of s w "snd (ann_set_shots S s w)"] shots_rejected [of s w "snd (ann_set_shots S s w)"]
  by (cases "fst (ann_set_shots S s w)"; cases "ann_set_shots S s w"; cases "ann_get S w") auto

lemma ann_ok_persist: "ann_ok S st \<Longrightarrow> ann_ok S (st\<lparr>world := snd (ann_set_items S (the_cache st) (world st))\<rparr>)"
  using items_stored [of "the_cache st" "world st"] the_cache_ok [of S st] by (auto simp: ann_ok_def)

lemma ann_ok_shots: "ann_ok S st \<Longrightarrow> ann_ok S (snd (persistShots S st))"
proof -
  assume ok: "ann_ok S st"
  have 1: "ann_ok S (s\<lparr>world := snd (ann_set_shots S sh (world s))\<rparr>)" if "ann_ok S s" for s :: "('w, 'b) ann_state_scheme" and sh
    using that shots_stored [of sh "world s"] by (auto simp: ann_ok_def)
  show ?thesis
    using 1 [OF ok, of "shots st"] 1 [OF 1 [OF ok, of "shots st"], of "oldest_half (shots st)"]
    by (simp add: persistShots_result Let_def)
qed

lemma keeps_add: "keeps (ann_ok S) (add S K input tabId session now)"
proof (rule keepsI)
  fix st :: "('w, 'b) ann_state_scheme"
  assume "ann_ok S st"
  then have ok: "ann_ok S (snd (load S st))" by (rule ann_ok_load)
  let ?st1 = "snd (load S st)"
  let ?r = "stored_record K input tabId session now ?st1"
  let ?c = "(the_cache (next_seq ?st1))\<lparr>c_items := pruneItems MAX_ANNOTATIONS (items_of ?st1 @ [?r])\<rparr>"
  have "cache_ok ((the_cache ?st1)\<lparr>c_seq := Suc (c_seq (the_cache ?st1)),
      c_items := pruneItems MAX_ANNOTATIONS (c_items (the_cache ?st1) @ [?r])\<rparr>)"
    by (rule cache_ok_append(2) [OF the_cache_ok [OF ok]]) (simp_all add: stored_record_def makeRecord_def Let_def)
  then have c: "cache_ok ?c"
    by (simp add: items_of_def)
  have n: "ann_ok S (next_seq ?st1)"
    unfolding next_seq_def by (rule ann_ok_cache [OF ok]) (simp add: cache_ok_next the_cache_ok [OF ok])
  have "ann_ok S ((set_items (pruneItems MAX_ANNOTATIONS (items_of ?st1 @ [?r])) (next_seq ?st1))\<lparr>revision := k\<rparr>)" for k
    unfolding set_items_def ann_ok_frame by (rule ann_ok_cache [OF n c])
  from n ann_ok_persist [OF this] show "ann_ok S (snd (add S K input tabId session now st))"
    by (simp add: add_result Let_def)
qed

lemma keeps_patch: "keeps (ann_ok S) (patch S f ch now)"
proof (rule keepsI)
  fix st :: "('w, 'b) ann_state_scheme"
  assume "ann_ok S st"
  then have ok: "ann_ok S (snd (load S st))" by (rule ann_ok_load)
  let ?st1 = "snd (load S st)"
  have "cache_ok ((the_cache ?st1)\<lparr>c_items := changed f ch now (items_of ?st1)\<rparr>)"
    unfolding changed_def change_targets_def items_of_def
    by (rule cache_ok_map [OF the_cache_ok [OF ok]]) simp
  then have s: "ann_ok S (set_items (changed f ch now (items_of ?st1)) ?st1)"
    unfolding set_items_def by (rule ann_ok_cache [OF ok])
  then have "ann_ok S ((set_items (changed f ch now (items_of ?st1)) ?st1)\<lparr>revision := k\<rparr>)" for k
    by simp
  from s ann_ok_persist [OF this] show "ann_ok S (snd (patch S f ch now st))"
    by (simp add: patch_result Let_def)
qed

end

lemma keeps_load [hoare_rules]: "keeps (ann_ok S) (load S)"
  by (rule keepsI) (rule ann_ok_load)

lemma keeps_touch [hoare_rules]: "keeps (ann_ok S) touch"
  unfolding touch_def by (rule hoare_modifies) simp

lemma ann_ok_items: "ann_ok S st \<Longrightarrow> cache_ok ((the_cache st)\<lparr>c_items := its\<rparr>) \<Longrightarrow> ann_ok S (set_items its st)"
  unfolding set_items_def by (rule ann_ok_cache)

lemma flag_first_map:
  "map ann_seq (flag_first i b its) = map ann_seq its" "map ann_id (flag_first i b its) = map ann_id its"
  by (induction i b its rule: flag_first.induct) simp_all

lemma cache_ok_same: "cache_ok c \<Longrightarrow> map ann_seq its = map ann_seq (c_items c) \<Longrightarrow> map ann_id its = map ann_id (c_items c)
    \<Longrightarrow> cache_ok (c\<lparr>c_items := its\<rparr>)"
proof -
  assume c: "cache_ok c" and s: "map ann_seq its = map ann_seq (c_items c)" and i: "map ann_id its = map ann_id (c_items c)"
  have "sorted_wrt (<) (map ann_seq its)"
    using c by (simp add: cache_ok_def sorted_wrt_map s)
  moreover have "ann_id it = ''a'' @ show_nat (ann_seq it) \<and> 0 < ann_seq it \<and> ann_seq it \<le> c_seq c" if it: "it \<in> set its" for it
  proof -
    obtain k where k: "k < length its" "its ! k = it" using it unfolding in_set_conv_nth by blast
    have l: "length its = length (c_items c)" using arg_cong [OF s, of length] by simp
    have "ann_seq it = ann_seq (c_items c ! k)" "ann_id it = ann_id (c_items c ! k)"
      using arg_cong [OF s, of "\<lambda>xs. xs ! k"] arg_cong [OF i, of "\<lambda>xs. xs ! k"] k l by simp_all
    then show ?thesis using c k l by (simp add: cache_ok_def)
  qed
  moreover have "length its = length (c_items c)"
    using arg_cong [OF s, of length] by simp
  ultimately show ?thesis using c by (simp add: cache_ok_def sorted_wrt_map)
qed

context ann_storage
begin

lemma keeps_persist: "keeps (ann_ok S) (persistItems S)" "keeps (ann_ok S) (persistShots S)"
  by (rule keepsI, simp add: persistItems_result ann_ok_persist, rule keepsI, rule ann_ok_shots)

lemma drop_records_ok:
  "hoare (\<lambda>st. ann_ok S st \<and> items_of st = its) (drop_records S targets its sh) (\<lambda>_. ann_ok S) (\<lambda>_. ann_ok S)"
  unfolding drop_records_def Let_def
proof (rule hoare_seqp)
  let ?kept = "filter (\<lambda>it. ann_id it \<notin> set (map ann_id targets)) its"
  show "hoare (\<lambda>st. ann_ok S st \<and> items_of st = its)
      (modifies (\<lambda>st. (set_items ?kept st)\<lparr>shots := filter (\<lambda>(i, d). \<not> (i \<in> set (map ann_id targets) \<and> d \<noteq> [])) sh\<rparr>))
      (\<lambda>_. ann_ok S) (\<lambda>_. ann_ok S)"
  proof (rule hoare_modifies, unfold ann_ok_frame, elim conjE)
    fix st
    assume ok: "ann_ok S st" and its: "items_of st = its"
    show "ann_ok S (set_items ?kept st)"
      by (rule ann_ok_items [OF ok]) (use cache_ok_filter [OF the_cache_ok [OF ok]] its in \<open>auto simp: items_of_def\<close>)
  qed
qed (intro hoare_rules keeps_persist)

lemma keeps_remove: "keeps (ann_ok S) (remove_anns S f)"
  unfolding remove_anns_def
  by (rule keeps_seqp [OF keeps_load], rule hoare_bindp [OF hoare_reads])
    (auto split: prod.splits intro!: hoare_ret intro: hoare_conseq [OF drop_records_ok])

lemma keeps_setShot: "keeps (ann_ok S) (setShot S i d)"
proof -
  have "ann_ok S (keep_shots j d st)" if ok: "ann_ok S st" for j and st :: "('w, 'a) ann_state_scheme"
    unfolding keep_shots_def Let_def ann_ok_frame
    by (rule ann_ok_items [OF ok], rule cache_ok_same [OF the_cache_ok [OF ok]])
      (simp_all add: drop_flags_def o_def if_distrib [of ann_seq] if_distrib [of ann_id] items_of_def flag_first_map [of j, unfolded items_of_def] cong: if_cong)
  then show ?thesis
    unfolding setShot_def by (intro hoare_rules keeps_persist)
qed

end

section \<open>Reachable stores\<close>

definition restart :: "('w, 'm) ann_state_scheme \<Rightarrow> ('w, 'm) ann_state_scheme" where
  "restart st = st\<lparr>ann_cache := None, shots := [], revision := 0\<rparr>"

inductive ann_step :: "'w ann_api \<Rightarrow> (string \<Rightarrow> string option) \<Rightarrow> ('w, 'm) ann_state_scheme
    \<Rightarrow> ('w, 'm) ann_state_scheme \<Rightarrow> bool" for S K where
  step_load: "ann_step S K st (snd (load S st))"
| step_add: "ann_step S K st (snd (add S K input tabId session now st))"
| step_patch: "ann_step S K st (snd (patch S f ch now st))"
| step_remove: "ann_step S K st (snd (remove_anns S f st))"
| step_shot: "ann_step S K st (snd (setShot S i d st))"
| step_restart: "ann_step S K st (restart st)"
| step_browser: "ann_get S w \<in> {ann_get S (world st), None} \<Longrightarrow> ann_step S K st (st\<lparr>world := w\<rparr>)"

inductive_cases ann_stepE: "ann_step S K st st'"

inductive ann_reachable :: "'w ann_api \<Rightarrow> (string \<Rightarrow> string option) \<Rightarrow> ('w, 'm) ann_state_scheme
    \<Rightarrow> ('w, 'm) ann_state_scheme \<Rightarrow> bool" for S K st0 where
  ann_start: "ann_reachable S K st0 st0"
| ann_more: "ann_reachable S K st0 st \<Longrightarrow> ann_step S K st st' \<Longrightarrow> ann_reachable S K st0 st'"

definition installed :: "'w ann_api \<Rightarrow> ('w, 'm) ann_state_scheme \<Rightarrow> bool" where
  "installed S st \<longleftrightarrow> ann_cache st = None \<and> (case ann_get S (world st) of None \<Rightarrow> True | Some (c, _) \<Rightarrow> c = None)"

lemma ann_ok_step:
  assumes "ann_storage S" "ann_ok S st" "ann_step S K st st'"
  shows "ann_ok S st'"
  using assms(3)
proof cases
  case step_load
  then show ?thesis using assms(2) by (simp add: ann_ok_load)
next
  case (step_add input tabId session now)
  then show ?thesis using keepsD [OF ann_storage.keeps_add [OF assms(1)] assms(2)] by simp
next
  case (step_patch f ch now)
  then show ?thesis using keepsD [OF ann_storage.keeps_patch [OF assms(1)] assms(2)] by simp
next
  case (step_remove f)
  then show ?thesis using keepsD [OF ann_storage.keeps_remove [OF assms(1)] assms(2)] by simp
next
  case (step_shot i d)
  then show ?thesis using keepsD [OF ann_storage.keeps_setShot [OF assms(1)] assms(2)] by simp
next
  case step_restart
  then show ?thesis using assms(2) by (simp add: ann_ok_def restart_def)
next
  case (step_browser w)
  then show ?thesis using assms(2) by (auto simp: ann_ok_def)
qed

text \<open>A browser whose storage takes a bounded number of screenshots, for the concrete instances.\<close>

record ann_mem =
  am_items :: "ann_cache option"
  am_shots :: "ann_shots option"
  am_quota :: nat

definition mem_storage :: "ann_mem ann_api" where
  "mem_storage = \<lparr>
     ann_get = (\<lambda>m. Some (am_items m, am_shots m)),
     ann_set_items = (\<lambda>c m. (True, m\<lparr>am_items := Some c\<rparr>)),
     ann_set_shots = (\<lambda>sh m. if length sh \<le> am_quota m then (True, m\<lparr>am_shots := Some sh\<rparr>) else (False, m))\<rparr>"

interpretation mem: ann_storage mem_storage
  by unfold_locales (auto simp: mem_storage_def split: if_splits)

definition fresh_store :: "nat \<Rightarrow> ann_mem ann_state" where
  "fresh_store q = \<lparr>world = \<lparr>am_items = None, am_shots = None, am_quota = q\<rparr>, attached = [], enabledDomains = [],
     refStore = [], sessionMap = [], dlgPolicy = [], dlgRecent = [], netBuffers = [], capturing = [], ann_cache = None, shots = [], revision = 0\<rparr>"

definition comment_input :: "string \<Rightarrow> jsval" where
  "comment_input c = Obj [(''comment'', Str c), (''url'', Str ''https://a.b/c'')]"



section \<open>What each operation does\<close>

text \<open>
  A submission with a blank comment is refused and stores nothing; any other is stored as the newest
  record under a fresh id, and of the earlier ones only the oldest past the cap of 500 goes.
\<close>

lemma add_appends_newest:
  assumes "ann_ok S st"
  shows "add S K input tabId session now st =
    (let st1 = snd (load S st); r = stored_record K input tabId session now st1 in
     if ann_comment r = [] then (Inl EmptyComment, next_seq st1)
     else (Inr r, snd (add S K input tabId session now st)))
   \<and> world (next_seq (snd (load S st))) = world st \<and> items_of (next_seq (snd (load S st))) = items_of (snd (load S st))
   \<and> (\<forall>r st'. add S K input tabId session now st = (Inr r, st') \<longrightarrow>
        items_of st' = keep_last MAX_ANNOTATIONS (items_of (snd (load S st)) @ [r])
        \<and> ann_id r \<notin> ann_id ` set (items_of (snd (load S st))) \<and> revision st' = revision st + 1)"
proof -
  let ?st1 = "snd (load S st)"
  let ?r = "stored_record K input tabId session now ?st1"
  have c: "cache_ok (the_cache ?st1)"
    by (rule the_cache_ok [OF ann_ok_load [OF assms]])
  have r: "ann_seq ?r = Suc (c_seq (the_cache ?st1))" "ann_id ?r = ''a'' @ show_nat (ann_seq ?r)"
    by (simp_all add: stored_record_def makeRecord_def Let_def)
  have "ann_id ?r \<notin> ann_id ` set (items_of ?st1)"
    using c r by (auto simp: cache_ok_def items_of_def)
  moreover have "pruneItems MAX_ANNOTATIONS (items_of ?st1 @ [?r]) = keep_last MAX_ANNOTATIONS (items_of ?st1 @ [?r])"
    using cache_ok_append(1) [OF c r] by (simp add: items_of_def)
  moreover have "revision (next_seq ?st1) = revision st"
    by (simp add: next_seq_def)
  ultimately show ?thesis
    by (auto simp: add_result Let_def split: if_splits)
qed

text \<open>Under unique ids, the records of a query are exactly those with one of its ids.\<close>

lemma ids_identify:
  assumes "distinct (map ann_id its)" "set ts \<subseteq> set its" "it \<in> set its"
  shows "ann_id it \<in> ann_id ` set ts \<longleftrightarrow> it \<in> set ts"
  using assms by (auto simp: distinct_map inj_on_def)

lemma targets_in: "set (filterAnnotations its f) \<subseteq> set its"
  using filterAnnotations_subset [of its f] by blast

lemma unlimited_targets:
  assumes "\<not> is_finite (to_number (f_limit f))"
  shows "set (filterAnnotations its f) = {it \<in> set its. matches f it}"
  using assms by (simp add: filterAnnotations_def newest_unlimited Collect_conj_eq)

text \<open>
  A change reaches exactly the records the query returned, each once, and leaves every
  other record and the order as they were; with no numeric limit these are all the matching ones.
\<close>

lemma patch_changes_exactly_the_targets:
  assumes "ann_ok S st"
  shows "items_of (snd (patch S f ch now st)) =
      map (\<lambda>it. if it \<in> set (filterAnnotations (items_of (snd (load S st))) f) then apply_changes ch now it else it)
        (items_of (snd (load S st)))
   \<and> fst (patch S f ch now st) = Inr (map (apply_changes ch now) (filterAnnotations (items_of (snd (load S st))) f))
   \<and> (is_finite (to_number (f_limit f))
      \<or> set (filterAnnotations (items_of (snd (load S st))) f) = {it \<in> set (items_of (snd (load S st))). matches f it})"
proof -
  let ?its = "items_of (snd (load S st))"
  have d: "distinct (map ann_id ?its)"
    using cache_ok_distinct [OF the_cache_ok [OF ann_ok_load [OF assms]]] by (simp add: items_of_def)
  have "changed f ch now ?its = map (\<lambda>it. if it \<in> set (filterAnnotations ?its f) then apply_changes ch now it else it) ?its"
    using ids_identify [OF d targets_in] by (simp add: changed_def change_targets_def)
  then show ?thesis
    using unlimited_targets [of f ?its]
    by (cases "is_finite (to_number (f_limit f))") (simp_all add: patch_result Let_def)
qed

lemma patch_changes_exactly_the_targets_witness:
  "fst (patch mem_storage no_filter \<lparr>ch_status = Str ''resolved'', ch_comment = Undef, ch_note = Undef\<rparr> ''u'' (fresh_store 1)) = Inr []"
proof -
  have "ann_ok mem_storage (fresh_store 1)"
    by (simp add: ann_ok_def fresh_store_def mem_storage_def)
  note p = patch_changes_exactly_the_targets [OF this, of no_filter "\<lparr>ch_status = Str ''resolved'', ch_comment = Undef, ch_note = Undef\<rparr>" "''u''"]
  have "filterAnnotations (items_of (snd (load mem_storage (fresh_store 1)))) no_filter = []"
    by code_simp
  with conjunct1 [OF conjunct2 [OF p]] show ?thesis
    by (simp only: list.map)
qed

lemma drop_records_result:
  "drop_records S targets its sh st =
     (let kept = filter (\<lambda>it. ann_id it \<notin> ann_id ` set targets) its;
          st2 = (set_items kept st)\<lparr>shots := filter (\<lambda>(i, d). \<not> (i \<in> ann_id ` set targets \<and> d \<noteq> [])) sh\<rparr>;
          st3 = st2\<lparr>revision := revision st2 + 1\<rparr>;
          st4 = st3\<lparr>world := snd (ann_set_items S (the_cache st3) (world st3))\<rparr>
      in (Inr (length targets, length kept),
          if \<exists>i \<in> ann_id ` set targets. shot_of sh i \<noteq> None then snd (persistShots S st4) else st4))"
proof -
  have p: "persistShots S s = (Inr (), snd (persistShots S s))" for s
    by (simp add: persistShots_result Let_def)
  show ?thesis
    unfolding drop_records_def Let_def seqp_def
    by (simp add: bindp_modifies bindp_assoc bindp_Inr [OF touch_result] bindp_Inr [OF persistItems_result]
        bindp_Inr [OF p] ret_def del: set_map) (auto simp: bindp_def)
qed

lemma map_of_oldest_half: "map_of (oldest_half sh) i =
    (if i \<notin> set (let ids = keys sh in take ((length ids + 1) div 2) ids) then map_of sh i else None)"
  unfolding oldest_half_def Let_def case_prod_unfold
  by (rule map_of_filter_keys [where P = "\<lambda>k. k \<notin> set (take ((length (keys sh) + 1) div 2) (keys sh))"])

lemma shot_of_oldest: "shot_of sh i = None \<Longrightarrow> shot_of (oldest_half sh) i = None"
  by (simp add: shot_of_def map_of_oldest_half)

lemma shot_of_dropped: "i \<in> K \<Longrightarrow> shot_of (filter (\<lambda>(i, d). i \<in> K \<longrightarrow> d = []) sh) i = None"
  by (induction sh) (auto simp: shot_of_def)

lemma persistShots_keeps [simp]: "the_cache (snd (persistShots S st)) = the_cache st" "items_of (snd (persistShots S st)) = items_of st"
  by (simp_all add: persistShots_result Let_def)

lemma remove_result:
  "remove_anns S f st =
     (let st1 = snd (load S st); targets = filterAnnotations (items_of st1) f
      in if targets = [] then (Inr (0, length (items_of st1)), st1) else drop_records S targets (items_of st1) (shots st1) st1)"
  by (simp add: remove_anns_def seqp_load bindp_reads Let_def ret_def)

lemma length_filter_id_targets:
  assumes "distinct (map ann_id its)"
  shows "length (filterAnnotations its f) + length (filter (\<lambda>it. ann_id it \<notin> ann_id ` set (filterAnnotations its f)) its) = length its"
proof -
  have d: "distinct its" using assms by (simp add: distinct_map)
  have dt: "distinct (filterAnnotations its f)"
    using newest_keep_last [of "f_limit f" "sort_key ann_seq (filter (matches f) its)"] d
    by (auto simp: filterAnnotations_def keep_last_def)
  have "set (filter (\<lambda>it. it \<in> set (filterAnnotations its f)) its) = set (filterAnnotations its f)"
    using targets_in [of its f] by auto
  then have "length (filterAnnotations its f) = length (filter (\<lambda>it. it \<in> set (filterAnnotations its f)) its)"
    using distinct_card [OF dt] distinct_card [OF distinct_filter [OF d]] by metis
  moreover have "filter (\<lambda>it. ann_id it \<notin> ann_id ` set (filterAnnotations its f)) its
      = filter (\<lambda>it. it \<notin> set (filterAnnotations its f)) its"
    using ids_identify [OF assms targets_in] by (auto intro: filter_cong)
  ultimately show ?thesis
    using sum_length_filter_compl [of "\<lambda>it. it \<in> set (filterAnnotations its f)" its] by simp
qed

text \<open>
  C26: a removal deletes exactly the records the query returned and every screenshot of theirs, keeps the other
  records in order, and reports how many went and how many are left.
\<close>

theorem remove_deletes_exactly_the_targets:
  assumes "ann_ok S st"
  shows "items_of (snd (remove_anns S f st)) =
      filter (\<lambda>it. it \<notin> set (filterAnnotations (items_of (snd (load S st))) f)) (items_of (snd (load S st)))
   \<and> fst (remove_anns S f st) = Inr (length (filterAnnotations (items_of (snd (load S st))) f),
        length (items_of (snd (remove_anns S f st))))
   \<and> length (filterAnnotations (items_of (snd (load S st))) f) + length (items_of (snd (remove_anns S f st)))
       = length (items_of (snd (load S st)))
   \<and> (\<forall>it \<in> set (filterAnnotations (items_of (snd (load S st))) f).
        filterAnnotations (items_of (snd (load S st))) f \<noteq> [] \<and> shot_of (shots (snd (remove_anns S f st))) (ann_id it) = None)"
proof -
  let ?its = "items_of (snd (load S st))"
  let ?t = "filterAnnotations ?its f"
  have d: "distinct (map ann_id ?its)"
    using cache_ok_distinct [OF the_cache_ok [OF ann_ok_load [OF assms]]] by (simp add: items_of_def)
  have k: "filter (\<lambda>it. ann_id it \<notin> ann_id ` set ?t) ?its = filter (\<lambda>it. it \<notin> set ?t) ?its"
    using ids_identify [OF d targets_in] by (auto intro: filter_cong)
  have i: "items_of (snd (remove_anns S f st)) = filter (\<lambda>it. it \<notin> set ?t) ?its"
    by (simp add: remove_result Let_def drop_records_result k [symmetric])
  have "shot_of (shots (snd (drop_records S ?t its sh s))) (ann_id it) = None" if "it \<in> set ?t" for it its sh s
    using that by (auto simp: drop_records_result Let_def persistShots_result shot_of_oldest shot_of_dropped)
  then have "shot_of (shots (snd (remove_anns S f st))) (ann_id it) = None" if "it \<in> set ?t" for it
    using that by (cases "?t = []") (simp_all add: remove_result Let_def)
  moreover have "fst (remove_anns S f st) = Inr (length ?t, length (filter (\<lambda>it. it \<notin> set ?t) ?its))"
    by (simp add: remove_result Let_def drop_records_result k)
  ultimately show ?thesis
    using length_filter_id_targets [OF d, of f] unfolding i k by auto
qed

lemma remove_deletes_exactly_the_targets_witness:
  "fst (remove_anns mem_storage no_filter (fresh_store 1)) = Inr (0, 0)"
proof -
  have "ann_ok mem_storage (fresh_store 1)"
    by (simp add: ann_ok_def fresh_store_def mem_storage_def)
  note r = remove_deletes_exactly_the_targets [OF this, of no_filter]
  have "filterAnnotations (items_of (snd (load mem_storage (fresh_store 1)))) no_filter = []"
    "items_of (snd (load mem_storage (fresh_store 1))) = []"
    by code_simp+
  with r show ?thesis by simp
qed

section \<open>What survives a restart\<close>

lemma loaded_same: "cache_ok c \<Longrightarrow> loaded_cache (Some c) = c"
  by (cases "c_items c") (auto simp: loaded_cache_def cache_ok_def)

lemma reload:
  assumes "cache_ok c" "ann_get S (world st) = Some (Some c, sh)"
  shows "the_cache (snd (load S (restart st))) = c"
  using loaded_same [OF assms(1)] assms(2)
  by (simp add: load_def restart_def modifies_def the_cache_def)

definition committed :: "'w ann_api \<Rightarrow> ('w, 'm) ann_state_scheme \<Rightarrow> bool" where
  "committed S st \<longleftrightarrow> (\<exists>sh. ann_get S (world st) = Some (Some (the_cache st), sh))"

lemma committed_reload: "ann_ok S st \<Longrightarrow> committed S st \<Longrightarrow> the_cache (snd (load S (restart st))) = the_cache st"
  unfolding committed_def by (metis reload the_cache_ok)

context ann_storage
begin

lemma commit:
  assumes "ann_get S w \<noteq> None" "fst (ann_set_items S c w)"
  shows "\<exists>sh. ann_get S (snd (ann_set_items S c w)) = Some (Some c, sh)"
  using items_written [of c w "snd (ann_set_items S c w)"] assms by (cases "ann_set_items S c w") auto

lemma commit_shots:
  assumes "ann_get S w = Some (Some c, sh)"
  shows "\<exists>sh'. ann_get S (snd (ann_set_shots S s w)) = Some (Some c, sh')"
  using shots_written [of s w "snd (ann_set_shots S s w)"] shots_rejected [of s w "snd (ann_set_shots S s w)"] assms
  by (cases "fst (ann_set_shots S s w)"; cases "ann_set_shots S s w") auto

lemma committed_shots: "committed S st \<Longrightarrow> committed S (snd (persistShots S st))"
  unfolding committed_def persistShots_result Let_def
  using commit_shots by (auto) metis+

end

text \<open>
  C10: no comment is lost to a service-worker restart.  When storage can be read and takes the write, the records and
  the counter after an addition, an effective change or an effective removal are exactly what the next
  start loads.
\<close>

theorem changes_survive_restart:
  assumes "ann_storage S" and "ann_ok S st" and "ann_get S (world st) \<noteq> None" and "\<And>c w. fst (ann_set_items S c w)"
  shows "(\<forall>r st'. add S K input tabId session now st = (Inr r, st') \<longrightarrow> the_cache (snd (load S (restart st'))) = the_cache st')
   \<and> (\<forall>t ts st'. patch S f ch now st = (Inr (t # ts), st') \<longrightarrow> the_cache (snd (load S (restart st'))) = the_cache st')
   \<and> (\<forall>n m st'. remove_anns S f st = (Inr (Suc n, m), st') \<longrightarrow> the_cache (snd (load S (restart st'))) = the_cache st')"
proof -
  have ok: "ann_ok S (snd (add S K input tabId session now st))" "ann_ok S (snd (patch S f ch now st))"
    "ann_ok S (snd (remove_anns S f st))"
    using keepsD [OF ann_storage.keeps_add [OF assms(1)] assms(2)] keepsD [OF ann_storage.keeps_patch [OF assms(1)] assms(2)]
      keepsD [OF ann_storage.keeps_remove [OF assms(1)] assms(2)] by simp_all
  have w: "\<exists>sh. ann_get S (snd (ann_set_items S c (world st))) = Some (Some c, sh)" for c
    by (rule ann_storage.commit [OF assms(1,3,4)])
  have a: "committed S st'" if "add S K input tabId session now st = (Inr r, st')" for r st'
    using that w by (auto simp: add_result Let_def committed_def split: if_splits)
  have p: "committed S st'" if "patch S f ch now st = (Inr (t # ts), st')" for t ts st'
    using that w by (auto simp: patch_result Let_def committed_def split: if_splits)
  have r: "committed S st'" if "remove_anns S f st = (Inr (Suc n, m), st')" for n m st'
    using that w by (auto simp: remove_result drop_records_result Let_def split: if_splits
      intro!: ann_storage.committed_shots [OF assms(1)]) (simp_all add: committed_def)
  show ?thesis
    using committed_reload ok a p r by (metis snd_conv)
qed

lemma changes_survive_restart_witness:
  "\<exists>st'. add mem_storage (\<lambda>_. None) (comment_input ''hello'') Null Null ''t'' (fresh_store 1) = (Inr (stored_record (\<lambda>_. None) (comment_input ''hello'') Null Null ''t'' (fresh_store 1)), st')
     \<and> the_cache (snd (load mem_storage (restart st'))) = the_cache st'"
proof -
  have ok: "ann_ok mem_storage (fresh_store 1)"
    by (simp add: ann_ok_def fresh_store_def mem_storage_def)
  have rd: "ann_get mem_storage (world (fresh_store 1)) \<noteq> None" and wr: "\<And>c w. fst (ann_set_items mem_storage c w)"
    by (simp_all add: mem_storage_def)
  note c = conjunct1 [OF changes_survive_restart [OF mem.ann_storage_axioms ok rd wr, where f = no_filter
    and K = "\<lambda>_. None" and input = "comment_input ''hello''" and tabId = Null and session = Null and now = "''t''"]]
  have "fst (add mem_storage (\<lambda>_. None) (comment_input ''hello'') Null Null ''t'' (fresh_store 1))
      = Inr (stored_record (\<lambda>_. None) (comment_input ''hello'') Null Null ''t'' (fresh_store 1))"
    by code_simp
  from run_eq [OF this] c show ?thesis by blast
qed

section \<open>Screenshots\<close>

text \<open>A record that advertises a screenshot has one.\<close>

definition honest :: "('w, 'm) ann_state_scheme \<Rightarrow> bool" where
  "honest st \<longleftrightarrow> (\<forall>it \<in> set (items_of st). ann_has_screenshot it \<longrightarrow> shot_of (shots st) (ann_id it) \<noteq> None)"

lemma drop_flags_honest: "it \<in> set (drop_flags sh its) \<Longrightarrow> ann_has_screenshot it \<Longrightarrow> shot_of sh (ann_id it) \<noteq> None"
  by (auto simp: drop_flags_def split: if_splits)

lemma setShot_result:
  "setShot S i d st =
     (let st1 = snd (load S st); st2 = (keep_shots (to_string i) d st1)\<lparr>revision := revision st1 + 1\<rparr>;
          st3 = snd (persistShots S st2)
      in if d = [] then (Inr False, st1)
         else (Inr (shot_of (shots st3) (to_string i) \<noteq> None),
               st3\<lparr>world := snd (ann_set_items S (the_cache st3) (world st3))\<rparr>))"
proof -
  have p: "persistShots S s = (Inr (), snd (persistShots S s))" for s
    by (simp add: persistShots_result Let_def)
  have r: "revision (keep_shots (to_string i) d s) = revision s" for s :: "('a, 'b) ann_state_scheme"
    by (simp add: keep_shots_def Let_def)
  show ?thesis
    by (simp add: setShot_def seqp_load Let_def ret_def)
      (simp add: seqp_def bindp_modifies bindp_Inr [OF touch_result] bindp_Inr [OF p] bindp_Inr [OF persistItems_result] reads_def r)
qed

lemma length_filter_keys:
  assumes "distinct (keys sh)"
  shows "length (filter (\<lambda>(k, _). k \<in> set ks) sh) \<le> length ks"
proof -
  have "keys (filter (\<lambda>(k, _). k \<in> set ks) sh) = filter (\<lambda>k. k \<in> set ks) (keys sh)"
    by (induction sh) auto
  then have "distinct (keys (filter (\<lambda>(k, _). k \<in> set ks) sh))" "set (keys (filter (\<lambda>(k, _). k \<in> set ks) sh)) \<subseteq> set ks"
    using assms by auto
  then have "length (keys (filter (\<lambda>(k, _). k \<in> set ks) sh)) \<le> card (set ks)"
    by (metis List.finite_set card_mono distinct_card)
  also have "\<dots> \<le> length ks" by (rule card_length)
  finally show ?thesis by simp
qed

text \<open>
  C28: storing a screenshot keeps at most 30 of them, and when storage takes the images every record that advertises a
  screenshot has one.
\<close>

theorem screenshots_capped_and_honest:
  assumes "distinct (keys (shots (snd (load S st))))" and "d \<noteq> []" and "\<And>sh w. fst (ann_set_shots S sh w)"
  shows "length (shots (snd (setShot S i d st))) \<le> MAX_SHOTS \<and> honest (snd (setShot S i d st))"
proof -
  let ?st1 = "snd (load S st)"
  let ?sh = "mput (to_string i) d (shots ?st1)"
  have "length (shots (keep_shots (to_string i) d ?st1)) \<le> MAX_SHOTS"
    using length_filter_keys [of ?sh "shotIdsToKeep (items_of ?st1) (keys ?sh) MAX_SHOTS"] assms(1)
      length_shotIdsToKeep [of "items_of ?st1" "keys ?sh" MAX_SHOTS]
    by (simp add: keep_shots_def Let_def)
  moreover have "honest (keep_shots (to_string i) d ?st1)"
    unfolding honest_def keep_shots_def Let_def by (auto dest: drop_flags_honest)
  moreover have "honest (s\<lparr>revision := r, world := w\<rparr>) = honest s" for s :: "('a, 'b) ann_state_scheme" and r w
    by (simp add: honest_def)
  ultimately show ?thesis
    using assms(2,3) by (simp add: setShot_result persistShots_result Let_def)
qed

lemma screenshots_capped_and_honest_witness:
  "honest (snd (setShot (mem_storage\<lparr>ann_set_shots := \<lambda>sh m. (True, m)\<rparr>) (Str ''a1'') ''image'' (fresh_store 1)))"
proof -
  have "distinct (keys (shots (snd (load (mem_storage\<lparr>ann_set_shots := \<lambda>sh m. (True, m)\<rparr>) (fresh_store 1)))))"
    by (simp add: load_def modifies_def fresh_store_def mem_storage_def)
  moreover have "(''image'' :: string) \<noteq> []" "\<And>sh w. fst (ann_set_shots (mem_storage\<lparr>ann_set_shots := \<lambda>sh m. (True, m)\<rparr>) sh w)"
    by simp_all
  ultimately show ?thesis
    using screenshots_capped_and_honest by blast
qed

text \<open>
  C29: when storage rejects the images, the store forgets the oldest half of them but the records keep advertising
  them: every flagged record whose image was in that half is still flagged afterwards and has no image.
\<close>

theorem rejected_images_leave_stale_flags:
  assumes "d \<noteq> []" and "\<And>sh w. \<not> fst (ann_set_shots S sh w)"
    and "it \<in> set (items_of (keep_shots (to_string i) d (snd (load S st))))" and "ann_has_screenshot it"
    and "ann_id it \<in> set (let ids = keys (shots (keep_shots (to_string i) d (snd (load S st)))) in take ((length ids + 1) div 2) ids)"
  shows "it \<in> set (items_of (snd (setShot S i d st))) \<and> shot_of (shots (snd (setShot S i d st))) (ann_id it) = None"
proof -
  have "shot_of (oldest_half (shots (keep_shots (to_string i) d (snd (load S st))))) (ann_id it) = None"
    using assms(5) unfolding shot_of_def map_of_oldest_half by simp
  then show ?thesis
    using assms(1-3) by (simp add: setShot_result persistShots_result Let_def)
qed

definition one_record :: "ann_mem ann_state" where
  "one_record = (fresh_store 0)\<lparr>ann_cache := Some \<lparr>c_seq = 1, c_items = [sample_record 1]\<rparr>\<rparr>"

lemma rejected_images_leave_stale_flags_witness:
  "\<exists>it. ann_has_screenshot it \<and> it \<in> set (items_of (snd (setShot (mem_storage\<lparr>ann_set_shots := \<lambda>sh m. (False, m)\<rparr>) (Str ''a1'') ''image'' one_record)))
     \<and> shot_of (shots (snd (setShot (mem_storage\<lparr>ann_set_shots := \<lambda>sh m. (False, m)\<rparr>) (Str ''a1'') ''image'' one_record))) (ann_id it) = None"
proof -
  let ?S = "mem_storage\<lparr>ann_set_shots := \<lambda>sh m. (False, m)\<rparr>"
  let ?it = "(sample_record 1)\<lparr>ann_has_screenshot := True\<rparr>"
  have i: "ann_id (sample_record 1) = ''a1''"
    by code_simp
  have l: "snd (load ?S one_record) = one_record"
    by (rule load_idle) (simp add: one_record_def)
  have k: "shots (keep_shots ''a1'' ''image'' one_record) = [(''a1'', ''image'')]"
    "items_of (keep_shots ''a1'' ''image'' one_record) = [?it]"
    by (simp_all add: keep_shots_def Let_def one_record_def fresh_store_def items_of_def the_cache_def set_items_def
        shotIdsToKeep_def MAX_SHOTS_def i shot_of_def drop_flags_def del: One_nat_def)
  have "?it \<in> set (items_of (snd (setShot ?S (Str ''a1'') ''image'' one_record)))
     \<and> shot_of (shots (snd (setShot ?S (Str ''a1'') ''image'' one_record))) (ann_id ?it) = None"
    by (rule rejected_images_leave_stale_flags) (simp_all add: l k i del: One_nat_def)
  then show ?thesis by (intro exI [of _ ?it]) simp
qed

section \<open>The long poll ends\<close>

lemma waitForNew_result:
  assumes "\<And>i. min (clock i + 250) deadline \<le> clock (Suc i)" "deadline - clock i \<le> of_nat fuel * 250"
  shows "\<exists>found. waitForNew (Suc fuel) items clock f deadline i = Some found
    \<and> (found = [] \<longrightarrow> (\<exists>j \<ge> i. deadline \<le> clock j \<and> (\<forall>k \<in> {i..j}. filterAnnotations (items k) f = [])))
    \<and> (found \<noteq> [] \<longrightarrow> (\<exists>j \<ge> i. found = filterAnnotations (items j) f \<and> (\<forall>k \<in> {i..<j}. filterAnnotations (items k) f = [])))"
  using assms(2)
proof (induction fuel arbitrary: i)
  case 0
  then show ?case by (auto simp: Let_def intro!: exI [of _ i])
next
  case (Suc fuel)
  show ?case
  proof (cases "filterAnnotations (items i) f = [] \<and> deadline - clock i > 0")
    case True
    have "deadline - clock (Suc i) \<le> of_nat fuel * 250"
      using Suc.prems assms(1) [of i] by (simp add: min_def algebra_simps split: if_splits)
    from Suc.IH [OF this] obtain found where r: "waitForNew (Suc fuel) items clock f deadline (Suc i) = Some found"
      and e: "found = [] \<longrightarrow> (\<exists>j \<ge> Suc i. deadline \<le> clock j \<and> (\<forall>k \<in> {Suc i..j}. filterAnnotations (items k) f = []))"
      and n: "found \<noteq> [] \<longrightarrow> (\<exists>j \<ge> Suc i. found = filterAnnotations (items j) f \<and> (\<forall>k \<in> {Suc i..<j}. filterAnnotations (items k) f = []))"
      by blast
    have 1: "\<exists>j \<ge> i. deadline \<le> clock j \<and> (\<forall>k \<in> {i..j}. filterAnnotations (items k) f = [])" if "found = []"
    proof -
      obtain j where "j \<ge> Suc i" "deadline \<le> clock j" "\<forall>k \<in> {Suc i..j}. filterAnnotations (items k) f = []"
        using e \<open>found = []\<close> by blast
      moreover from this have "{i..j} = insert i {Suc i..j}" by auto
      ultimately show ?thesis
        using True by (intro exI [of _ j]) simp
    qed
    have 2: "\<exists>j \<ge> i. found = filterAnnotations (items j) f \<and> (\<forall>k \<in> {i..<j}. filterAnnotations (items k) f = [])" if "found \<noteq> []"
    proof -
      obtain j where "j \<ge> Suc i" "found = filterAnnotations (items j) f" "\<forall>k \<in> {Suc i..<j}. filterAnnotations (items k) f = []"
        using n \<open>found \<noteq> []\<close> by blast
      moreover from this have "{i..<j} = insert i {Suc i..<j}" by auto
      ultimately show ?thesis
        using True by (intro exI [of _ j]) simp
    qed
    have "waitForNew (Suc (Suc fuel)) items clock f deadline i = Some found"
      using True r by (subst waitForNew.simps) (simp add: Let_def del: waitForNew.simps)
    with 1 2 show ?thesis by blast
  next
    case False
    then show ?thesis by (auto simp: Let_def intro!: exI [of _ i])
  qed
qed



lemma add_appends_newest_witness:
  "add mem_storage (\<lambda>_. None) (comment_input []) Null Null ''t'' (fresh_store 1)
     = (Inl EmptyComment, next_seq (snd (load mem_storage (fresh_store 1))))"
proof -
  have "ann_ok mem_storage (fresh_store 1)"
    by (simp add: ann_ok_def fresh_store_def mem_storage_def)
  note a = conjunct1 [OF add_appends_newest [OF this, where K = "\<lambda>_. None" and input = "comment_input []"
     and tabId = Null and session = Null and now = "''t''"]]
  have "ann_comment (stored_record (\<lambda>_. None) (comment_input []) Null Null ''t'' (snd (load mem_storage (fresh_store 1)))) = []"
    by code_simp
  with a show ?thesis by (simp only: Let_def simp_thms if_True)
qed

end
