(* ===== verification/Dom.thy ===== *)
theory Dom
  imports AnnModel
begin

text \<open>
  The page as the annotator sees it.  The document, its elements and its query engine belong to the browser: they are
  the fields of \<open>dom\<close>, and the locale \<open>page_dom\<close> states what the annotator relies on of the tree, of CSS selectors
  and of XPath.  Text is \<^verbatim>\<open>innerText || textContent\<close>.
\<close>

section \<open>Elements\<close>

type_synonym node = nat

text \<open>What \<^verbatim>\<open>getRootNode()\<close> answers: the document, the shadow root of a host, or the top of a detached tree.\<close>

datatype dom_root = Document | ShadowOf node | DetachedFrom node

record dom =
  d_tag :: "node \<Rightarrow> string"
  d_html :: "node \<Rightarrow> bool"
  d_attr :: "node \<Rightarrow> string \<Rightarrow> string option"
  d_id :: "node \<Rightarrow> string"
  d_classes :: "node \<Rightarrow> string list"
  d_parent :: "node \<Rightarrow> node option"
  d_children :: "node \<Rightarrow> node list"
  d_before :: "node \<Rightarrow> node list"
  d_root :: "node \<Rightarrow> dom_root"
  d_shadow :: "node \<Rightarrow> bool"
  d_labels :: "node \<Rightarrow> node list"
  d_text :: "node \<Rightarrow> string"
  d_content :: "node \<Rightarrow> string"
  d_value :: "node \<Rightarrow> jsval"
  d_rect :: "node \<Rightarrow> ann_rect"
  d_connected :: "node \<Rightarrow> bool"
  d_top :: node
  d_elements :: "dom_root \<Rightarrow> node list"
  d_query :: "dom_root \<Rightarrow> string \<Rightarrow> node list option"
  d_by_id :: "dom_root \<Rightarrow> string \<Rightarrow> node option"
  d_by_tag :: "string \<Rightarrow> node list"
  d_evaluate :: "string \<Rightarrow> node option option"
  d_scroll :: "rat \<times> rat"
  d_window :: "rat \<times> rat"
  d_ratio :: rat
  d_card :: "rat \<times> rat"
  d_url :: string
  d_title :: string
  d_is_top :: bool

text \<open>
  \<open>d_html\<close> tells elements of HTML from foreign ones, \<open>d_before\<close> is the chain of \<^verbatim>\<open>previousElementSibling\<close>, nearest first;
  \<open>None\<close> is a query that throws, \<open>d_card\<close> the size the overlay's open card is laid out at.
\<close>

fun ups :: "dom \<Rightarrow> nat \<Rightarrow> node \<Rightarrow> node option" where
  "ups D 0 n = Some n"
| "ups D (Suc k) n = (case d_parent D n of None \<Rightarrow> None | Some p \<Rightarrow> ups D k p)"

section \<open>CSS strings\<close>

text \<open>
  How CSS reads the rest of a string token after its opening quote.  \<open>None\<close> where this reader does not say: at a hexadecimal
  escape, a line continuation, NUL, the end of the text.
\<close>

datatype css_token = CssString string | BadString

definition is_hex :: "char \<Rightarrow> bool" where
  "is_hex c \<longleftrightarrow> is_digit c \<or> (97 \<le> code_of (lower_char c) \<and> code_of (lower_char c) \<le> 102)"

definition css_newline :: "char \<Rightarrow> bool" where
  "css_newline c \<longleftrightarrow> code_of c \<in> {10, 12, 13}"

definition css_more :: "char \<Rightarrow> (css_token \<times> string) option \<Rightarrow> (css_token \<times> string) option" where
  "css_more c r = (case r of Some (CssString v, rest) \<Rightarrow> Some (CssString (c # v), rest) | _ \<Rightarrow> r)"

fun css_string :: "string \<Rightarrow> (css_token \<times> string) option" where
  "css_string [] = None"
| "css_string (c # cs) =
     (if c = CHR 0x22 then Some (CssString [], cs)
      else if css_newline c then Some (BadString, c # cs)
      else if c = CHR 0x5C then (case cs of
          [] \<Rightarrow> None
        | d # ds \<Rightarrow> if css_newline d \<or> is_hex d \<or> d = CHR 0x00 then None else css_more d (css_string ds))
      else if c = CHR 0x00 then None
      else css_more c (css_string cs))"

section \<open>CSS names\<close>

text \<open>\<^verbatim>\<open>[0-9a-z]\<close> in either case, and \<^verbatim>\<open>\w\<close>: ASCII letters, digits and the underscore.\<close>

definition is_alnum :: "char \<Rightarrow> bool" where
  "is_alnum c \<longleftrightarrow> is_digit c \<or> (97 \<le> code_of (lower_char c) \<and> code_of (lower_char c) \<le> 122)"

definition is_word :: "char \<Rightarrow> bool" where
  "is_word c \<longleftrightarrow> is_alnum c \<or> c = CHR ''_''"

text \<open>
  How CSS reads a name, as after \<^verbatim>\<open>.\<close> and \<^verbatim>\<open>#\<close>: a letter or an escape comes first, possibly after a hyphen, or two hyphens
  do.  A backslash before a line break is no escape, and no selector goes on with it.  \<open>None\<close> where this reader does not say: at a hexadecimal escape, NUL,
  what is not ASCII and not escaped, a backslash at the end.
\<close>

datatype css_name = CssName string | BadName

definition name_more :: "char \<Rightarrow> (css_name \<times> string) option \<Rightarrow> (css_name \<times> string) option" where
  "name_more c r = (case r of Some (CssName v, rest) \<Rightarrow> Some (CssName (c # v), rest) | _ \<Rightarrow> r)"

fun css_chars :: "string \<Rightarrow> (css_name \<times> string) option" where
  "css_chars [] = Some (CssName [], [])"
| "css_chars (c # cs) =
     (if c = CHR 0x5C then (case cs of
          [] \<Rightarrow> None
        | d # ds \<Rightarrow> if css_newline d then Some (BadName, c # cs) else if is_hex d \<or> d = CHR 0x00 then None else name_more d (css_chars ds))
      else if is_word c \<or> c = CHR ''-'' then name_more c (css_chars cs)
      else if c = CHR 0x00 \<or> 128 \<le> code_of c then None
      else Some (CssName [], c # cs))"

fun starts_name :: "string \<Rightarrow> bool" where
  "starts_name [] \<longleftrightarrow> False"
| "starts_name (c # cs) \<longleftrightarrow> (is_word c \<and> \<not> is_digit c) \<or> (c = CHR 0x5C \<and> cs \<noteq> [] \<and> \<not> css_newline (hd cs))"

definition starts_ident :: "string \<Rightarrow> bool" where
  "starts_ident s \<longleftrightarrow> (if take 1 s = ''-'' then take 1 (drop 1 s) = ''-'' \<or> starts_name (drop 1 s) else starts_name s)"

definition css_ident :: "string \<Rightarrow> (css_name \<times> string) option" where
  "css_ident s = (case css_chars s of
      Some (CssName v, rest) \<Rightarrow> Some (if starts_ident s then (CssName v, rest) else (BadName, s))
    | r \<Rightarrow> r)"

section \<open>Compound selectors and their paths\<close>

datatype seg = ById string | ByTag string "string list" "nat option"

definition nth_of_type :: "dom \<Rightarrow> node \<Rightarrow> nat" where
  "nth_of_type D n = Suc (length (filter (\<lambda>c. d_tag D c = d_tag D n \<and> d_html D c = d_html D n) (d_before D n)))"

fun seg_names :: "seg \<Rightarrow> string list" where
  "seg_names (ById i) = [i]"
| "seg_names (ByTag t cs k) = cs"

fun seg_matches :: "dom \<Rightarrow> seg \<Rightarrow> node \<Rightarrow> bool" where
  "seg_matches D (ById i) n \<longleftrightarrow> d_attr D n ''id'' = Some i"
| "seg_matches D (ByTag t cs k) n \<longleftrightarrow> d_tag D n = t \<and> set cs \<subseteq> set (d_classes D n)
     \<and> (case k of None \<Rightarrow> True | Some k \<Rightarrow> nth_of_type D n = k)"

text \<open>A chain of child combinators, the element's own compound first.\<close>

fun chain_matches :: "dom \<Rightarrow> seg list \<Rightarrow> node \<Rightarrow> bool" where
  "chain_matches D [] n \<longleftrightarrow> True"
| "chain_matches D (s # ss) n \<longleftrightarrow> seg_matches D s n
     \<and> (ss = [] \<or> (case d_parent D n of None \<Rightarrow> False | Some p \<Rightarrow> chain_matches D ss p))"

section \<open>Steps of an XPath\<close>

definition pick :: "dom \<Rightarrow> string \<times> nat \<Rightarrow> node list \<Rightarrow> node option" where
  "pick D s ns = (let m = filter (\<lambda>c. d_html D c \<and> d_tag D c = fst s) ns
     in if 1 \<le> snd s \<and> snd s \<le> length m then Some (m ! (snd s - 1)) else None)"

fun follow :: "dom \<Rightarrow> (string \<times> nat) list \<Rightarrow> node list \<Rightarrow> node option" where
  "follow D [] ns = None"
| "follow D (s # ss) ns = (case pick D s ns of
      None \<Rightarrow> None
    | Some c \<Rightarrow> if ss = [] then Some c else follow D ss (d_children D c))"

definition plain_name :: "string \<Rightarrow> bool" where
  "plain_name t \<longleftrightarrow> t \<noteq> [] \<and> 97 \<le> code_of (hd t) \<and> code_of (hd t) \<le> 122
     \<and> (\<forall>c \<in> set t. is_digit c \<or> (97 \<le> code_of c \<and> code_of c \<le> 122) \<or> c = CHR ''-'')"

end
