(* ===== verification/Fingerprint.thy ===== *)
theory Fingerprint
  imports Dom
begin

text \<open>
  \<^verbatim>\<open>annotator.js\<close>, element details and element lookup: the selectors an annotation records for the element it is
  about, the description sent to the service worker, and the search that finds the element again.
\<close>

section \<open>Generated names\<close>

definition has_run :: "(char \<Rightarrow> bool) \<Rightarrow> nat \<Rightarrow> string \<Rightarrow> bool" where
  "has_run P k s \<longleftrightarrow> list_ex (\<lambda>i. k \<le> length (takeWhile P (drop i s))) [0..<Suc (length s)]"

text \<open>\<^verbatim>\<open>:r[0-9a-z]+:\<close> at the start.\<close>

definition react_id :: "string \<Rightarrow> bool" where
  "react_id s \<longleftrightarrow> js_lower (take 2 s) = '':r'' \<and> takeWhile is_alnum (drop 2 s) \<noteq> [] \<and> take 1 (dropWhile is_alnum (drop 2 s)) = '':''"

definition starts_one_of :: "string list \<Rightarrow> string \<Rightarrow> bool" where
  "starts_one_of ps s \<longleftrightarrow> list_ex (\<lambda>p. take (length p) (js_lower s) = p) ps"

definition AUTO_ID :: "string \<Rightarrow> bool" where
  "AUTO_ID s \<longleftrightarrow> (s \<noteq> [] \<and> is_digit (hd s)) \<or> has_run is_hex 8 s \<or> list_ex (\<lambda>i. react_id (drop i s)) [0..<length s]
     \<or> starts_one_of [''ember'', ''react'', ''radix'', ''mui'', ''headlessui''] s"

definition AUTO_CLASS :: "string \<Rightarrow> bool" where
  "AUTO_CLASS s \<longleftrightarrow> has_run is_hex 6 s \<or> starts_one_of [''css-'', ''sc-'', ''jsx-'', ''emotion-''] s
     \<or> (take 1 s = ''_'' \<and> 4 \<le> length (takeWhile is_alnum (drop 1 s)))"

definition TESTID_ATTRS :: "string list" where
  "TESTID_ATTRS = [''data-testid'', ''data-test-id'', ''data-test'', ''data-cy'', ''data-qa'']"

text \<open>Elements named like a property that every object inherits, as \<^verbatim>\<open>constructor\<close>, are left aside.\<close>

definition IMPLICIT_ROLE :: "(string \<times> string) list" where
  "IMPLICIT_ROLE = [(''a'', ''link''), (''button'', ''button''), (''select'', ''combobox''), (''textarea'', ''textbox''), (''img'', ''img''),
    (''form'', ''form''), (''nav'', ''navigation''), (''main'', ''main''), (''header'', ''banner''), (''footer'', ''contentinfo''),
    (''aside'', ''complementary''), (''table'', ''table''), (''ul'', ''list''), (''ol'', ''list''), (''li'', ''listitem''),
    (''h1'', ''heading''), (''h2'', ''heading''), (''h3'', ''heading''), (''h4'', ''heading''), (''h5'', ''heading''), (''h6'', ''heading''),
    (''label'', ''label''), (''summary'', ''button''), (''dialog'', ''dialog''), (''p'', ''paragraph'')]"

section \<open>Escaping\<close>

text \<open>
  The module's own constant \<^verbatim>\<open>CSS\<close>, the text of the style sheet, hides the browser's object of that name.  A string has no
  \<^verbatim>\<open>escape\<close>, so \<^verbatim>\<open>esc\<close> always puts a backslash before what is not a word character or a hyphen.
\<close>

definition esc :: "string \<Rightarrow> string" where
  "esc s = concat (map (\<lambda>c. if is_word c \<or> c = CHR ''-'' then [c] else [CHR 0x5C, c]) s)"

definition attrVal :: "string \<Rightarrow> string" where
  "attrVal v = concat (map (\<lambda>c. if c = CHR 0x5C \<or> c = CHR 0x22 then [CHR 0x5C, c] else [c]) v)"

definition tidy :: "string \<Rightarrow> nat \<Rightarrow> string" where
  "tidy s mx = take mx (js_trim (collapse s))"

definition visible_text :: "dom \<Rightarrow> nat \<Rightarrow> node \<Rightarrow> string" where
  "visible_text D mx n = tidy (d_text D n) mx"

text \<open>An attribute that is present and not empty.\<close>

definition attr_set :: "dom \<Rightarrow> node \<Rightarrow> string \<Rightarrow> string option" where
  "attr_set D n a = (case d_attr D n a of Some v \<Rightarrow> if v = [] then None else Some v | None \<Rightarrow> None)"

section \<open>Paths\<close>

definition unique :: "dom \<Rightarrow> dom_root \<Rightarrow> string \<Rightarrow> bool" where
  "unique D scope sel \<longleftrightarrow> (case d_query D scope sel of Some ns \<Rightarrow> length ns = 1 | None \<Rightarrow> False)"

definition stableClasses :: "dom \<Rightarrow> node \<Rightarrow> string list" where
  "stableClasses D n = take 2 (filter (\<lambda>c. \<not> (length c < 2 \<or> length c > 30 \<or> AUTO_CLASS c)) (d_classes D n))"

fun index_of :: "'a \<Rightarrow> 'a list \<Rightarrow> nat" where
  "index_of x [] = 0"
| "index_of x (y # ys) = (if x = y then 0 else Suc (index_of x ys))"

definition has_own_id :: "dom \<Rightarrow> node \<Rightarrow> bool" where
  "has_own_id D n \<longleftrightarrow> d_id D n \<noteq> [] \<and> \<not> AUTO_ID (d_id D n)"

definition seg_of :: "dom \<Rightarrow> node \<Rightarrow> seg" where
  "seg_of D n = ByTag (d_tag D n) (stableClasses D n) (case d_parent D n of None \<Rightarrow> None
     | Some p \<Rightarrow> let sameTag = filter (\<lambda>c. d_tag D c = d_tag D n) (d_children D p)
        in if length sameTag > 1 then Some (index_of n sameTag + 1) else None)"

text \<open>The compounds of a path, the element's own first, at most as many as the fuel.\<close>

fun css_up :: "dom \<Rightarrow> nat \<Rightarrow> node \<Rightarrow> seg list" where
  "css_up D 0 n = []"
| "css_up D (Suc k) n =
     (if has_own_id D n then [ById (d_id D n)]
      else seg_of D n # (case d_parent D n of None \<Rightarrow> [] | Some p \<Rightarrow> css_up D k p))"

fun seg_text :: "seg \<Rightarrow> string" where
  "seg_text (ById i) = ''#'' @ esc i"
| "seg_text (ByTag t cs k) = t @ (if cs = [] then [] else ''.'' @ join_with ''.'' (map esc cs))
     @ (case k of None \<Rightarrow> [] | Some k \<Rightarrow> '':nth-of-type('' @ show_nat k @ '')'')"

definition path_text :: "seg list \<Rightarrow> string" where
  "path_text ss = join_with '' > '' (map seg_text (rev ss))"

definition cssPath :: "dom \<Rightarrow> node \<Rightarrow> string" where
  "cssPath D n = path_text (css_up D 8 n)"

definition xp_step :: "dom \<Rightarrow> node \<Rightarrow> string \<times> nat" where
  "xp_step D n = (d_tag D n, Suc (length (filter (\<lambda>c. d_tag D c = d_tag D n) (d_before D n))))"

fun xp_up :: "dom \<Rightarrow> nat \<Rightarrow> node \<Rightarrow> (string \<times> nat) list" where
  "xp_up D 0 n = []"
| "xp_up D (Suc k) n = (case d_parent D n of None \<Rightarrow> [] | Some p \<Rightarrow> xp_up D k p) @ [xp_step D n]"

definition xp_text :: "(string \<times> nat) list \<Rightarrow> string" where
  "xp_text ss = ''/'' @ join_with ''/'' (map (\<lambda>(t, i). t @ ''['' @ show_nat i @ '']'') ss)"

definition xpathOf :: "dom \<Rightarrow> node \<Rightarrow> string" where
  "xpathOf D n = (if d_root D n \<noteq> Document then [] else xp_text (xp_up D 12 n))"

section \<open>Names and roles\<close>

function split_ws :: "string \<Rightarrow> string list" where
  "split_ws s = (case dropWhile (\<lambda>c. \<not> is_ws c) s of [] \<Rightarrow> [s]
     | _ # r \<Rightarrow> takeWhile (\<lambda>c. \<not> is_ws c) s # split_ws (dropWhile is_ws r))"
  by auto
termination
proof (relation "measure length")
  fix s :: string and c r
  assume "dropWhile (\<lambda>c. \<not> is_ws c) s = c # r"
  then have "length r < length s" by (metis length_dropWhile_le length_Cons Suc_le_lessD)
  then show "(dropWhile is_ws r, s) \<in> measure length"
    by (simp add: le_less_trans [OF length_dropWhile_le])
qed simp

declare split_ws.simps [simp del]

definition labelled_by :: "dom \<Rightarrow> node \<Rightarrow> string \<Rightarrow> string" where
  "labelled_by D n by = join_with '' '' (map (\<lambda>i. case d_by_id D (d_root D n) i of None \<Rightarrow> [] | Some t \<Rightarrow> d_content D t) (split_ws by))"

fun first_attr :: "dom \<Rightarrow> node \<Rightarrow> string list \<Rightarrow> string option" where
  "first_attr D n [] = None"
| "first_attr D n (a # as) = (case attr_set D n a of Some v \<Rightarrow> Some v | None \<Rightarrow> first_attr D n as)"

definition accessibleName :: "dom \<Rightarrow> node \<Rightarrow> string" where
  "accessibleName D n = (case attr_set D n ''aria-label'' of Some aria \<Rightarrow> tidy aria 200 | None \<Rightarrow>
     (let text = (case attr_set D n ''aria-labelledby'' of None \<Rightarrow> [] | Some by \<Rightarrow> tidy (labelled_by D n by) 200)
      in if text \<noteq> [] then text
         else case d_labels D n of l # _ \<Rightarrow> tidy (d_content D l) 200
            | [] \<Rightarrow> (case first_attr D n [''alt'', ''title'', ''placeholder'', ''value''] of
                Some v \<Rightarrow> tidy v 200 | None \<Rightarrow> visible_text D 200 n)))"

definition roleOf :: "dom \<Rightarrow> node \<Rightarrow> string" where
  "roleOf D n = (case attr_set D n ''role'' of Some r \<Rightarrow> tidy r 40 | None \<Rightarrow>
     if d_tag D n = ''input'' then
       (let t = js_lower (case attr_set D n ''type'' of Some t \<Rightarrow> t | None \<Rightarrow> ''text'')
        in if t = ''checkbox'' \<or> t = ''radio'' then t
           else if t = ''button'' \<or> t = ''submit'' \<or> t = ''reset'' then ''button''
           else if t = ''search'' then ''searchbox'' else ''textbox'')
     else (case map_of IMPLICIT_ROLE (d_tag D n) of Some r \<Rightarrow> r | None \<Rightarrow> []))"

section \<open>Selectors\<close>

record fingerprint =
  fp_css :: string
  fp_xpath :: string
  fp_testid :: string
  fp_aria :: string
  fp_selector :: string
  fp_kind :: string
  fp_unique :: bool

definition attr_selector :: "string \<Rightarrow> string \<Rightarrow> string \<Rightarrow> string" where
  "attr_selector t a v = t @ ''['' @ a @ ''='' @ [CHR 0x22] @ attrVal v @ [CHR 0x22] @ '']''"

definition testid_selectors :: "dom \<Rightarrow> node \<Rightarrow> string list" where
  "testid_selectors D n = concat (map (\<lambda>a. case attr_set D n a of None \<Rightarrow> [] | Some v \<Rightarrow> [attr_selector [] a v]) TESTID_ATTRS)"

definition named_selector :: "dom \<Rightarrow> node \<Rightarrow> string \<Rightarrow> string list" where
  "named_selector D n a = (case attr_set D n a of None \<Rightarrow> [] | Some v \<Rightarrow> [attr_selector (d_tag D n) a v])"

definition candidates :: "dom \<Rightarrow> node \<Rightarrow> (string \<times> string) list" where
  "candidates D n = map (Pair ''testid'') (testid_selectors D n)
     @ (if has_own_id D n then [(''id'', ''#'' @ esc (d_id D n))] else [])
     @ map (Pair ''name'') (named_selector D n ''name'') @ map (Pair ''aria'') (named_selector D n ''aria-label'')"

definition choose_selector :: "dom \<Rightarrow> node \<Rightarrow> string \<times> string \<times> bool" where
  "choose_selector D n =
     (let cands = candidates D n; path = cssPath D n; scope = d_root D n
      in case find (\<lambda>c. unique D scope (snd c)) cands of
           Some (kind, sel) \<Rightarrow> (kind, sel, True)
         | None \<Rightarrow> if path \<noteq> [] \<and> unique D scope path then (''path'', path, True)
                   else case cands of (kind, sel) # _ \<Rightarrow> (kind, sel, False) | [] \<Rightarrow> (''path'', path, False))"

definition selectorsFor :: "dom \<Rightarrow> node \<Rightarrow> fingerprint" where
  "selectorsFor D n = (case choose_selector D n of (kind, sel, uniq) \<Rightarrow>
     \<lparr>fp_css = cssPath D n, fp_xpath = xpathOf D n, fp_testid = concat (take 1 (testid_selectors D n)),
      fp_aria = concat (named_selector D n ''aria-label''), fp_selector = sel, fp_kind = kind, fp_unique = uniq\<rparr>)"

section \<open>Descriptions\<close>

definition short_name :: "dom \<Rightarrow> node \<Rightarrow> string" where
  "short_name D n = (let cls = stableClasses D n in if cls = [] then [] else ''.'' @ join_with ''.'' cls)"

fun ancestors_up :: "dom \<Rightarrow> nat \<Rightarrow> node option \<Rightarrow> string list" where
  "ancestors_up D (Suc k) (Some n) = ancestors_up D k (d_parent D n)
     @ [d_tag D n @ (if has_own_id D n then ''#'' @ d_id D n else short_name D n)]"
| "ancestors_up D _ _ = []"

definition ancestorsOf :: "dom \<Rightarrow> node \<Rightarrow> string list" where
  "ancestorsOf D n = ancestors_up D 5 (d_parent D n)"

definition ATTRS_OF_INTEREST :: "string list" where
  "ATTRS_OF_INTEREST = [''href'', ''type'', ''name'', ''placeholder'', ''title'', ''alt'', ''role'', ''aria-label'', ''disabled'', ''src'']"

definition described_attrs :: "dom \<Rightarrow> node \<Rightarrow> (string \<times> jsval) list" where
  "described_attrs D n = concat (map (\<lambda>a. case attr_set D n a of None \<Rightarrow> [] | Some v \<Rightarrow> [(a, Str (tidy v 200))]) ATTRS_OF_INTEREST)
     @ (if nullish (d_value D n) \<or> to_string (d_value D n) = [] then [] else [(''value'', Str (tidy (to_string (d_value D n)) 200))])"

definition rect_json :: "rat \<Rightarrow> rat \<Rightarrow> ann_rect \<Rightarrow> jsval" where
  "rect_json dx dy r = Obj [(''x'', jnum (rect_x r + dx)), (''y'', jnum (rect_y r + dy)), (''w'', jnum (rect_w r)), (''h'', jnum (rect_h r))]"

definition describe :: "dom \<Rightarrow> node \<Rightarrow> jsval" where
  "describe D n = (let s = selectorsFor D n in Obj
     [(''tag'', Str (d_tag D n)), (''role'', Str (roleOf D n)), (''name'', Str (accessibleName D n)), (''text'', Str (visible_text D 400 n)),
      (''selector'', Str (fp_selector s)), (''selector_kind'', Str (fp_kind s)), (''unique'', Bool (fp_unique s)),
      (''shadow'', Bool (d_root D n \<noteq> Document)),
      (''selectors'', Obj [(''css'', Str (fp_css s)), (''xpath'', Str (fp_xpath s)), (''testid'', Str (fp_testid s)),
         (''aria'', Str (fp_aria s)), (''text'', Str (visible_text D 120 n))]),
      (''attrs'', Obj (described_attrs D n)), (''ancestors'', Arr (map Str (ancestorsOf D n))),
      (''rect'', rect_json 0 0 (d_rect D n)), (''page'', rect_json (fst (d_scroll D)) (snd (d_scroll D)) (d_rect D n))])"

definition describeShort :: "dom \<Rightarrow> node \<Rightarrow> string" where
  "describeShort D n = (let name = accessibleName D n in
     d_tag D n @ (if d_id D n = [] then [] else ''#'' @ d_id D n) @ short_name D n
     @ (if name = [] then [] else '' '' @ [CHR 0x22] @ take 40 name @ [CHR 0x22])
     @ '' '' @ [CHR 0xB7] @ '' '' @ show_int (js_round (rect_w (d_rect D n))) @ [CHR 0xD7] @ show_int (js_round (rect_h (d_rect D n))))"

section \<open>Shadow roots\<close>

text \<open>The elements of one root: how many are seen, the roots they host.\<close>

fun scan_hosts :: "dom \<Rightarrow> nat \<Rightarrow> node list \<Rightarrow> nat \<Rightarrow> dom_root list \<times> nat" where
  "scan_hosts D cap [] seen = ([], seen)"
| "scan_hosts D cap (n # ns) seen =
     (if Suc seen > cap then ([], Suc seen)
      else case scan_hosts D cap ns (Suc seen) of (rs, s) \<Rightarrow> (if d_shadow D n then ShadowOf n # rs else rs, s))"

lemma scan_hosts_count: "scan_hosts D cap ns seen = (rs, s) \<Longrightarrow> seen + length rs \<le> s \<and> length rs \<le> cap - seen"
  by (induction ns arbitrary: seen rs s) (fastforce split: if_splits prod.splits)+

function collect_roots :: "dom \<Rightarrow> nat \<Rightarrow> dom_root list \<Rightarrow> nat \<Rightarrow> dom_root list" where
  "collect_roots D cap [] seen = []"
| "collect_roots D cap (r # q) seen =
     (if seen \<ge> cap then []
      else r # (case d_query D r ''*'' of
          None \<Rightarrow> collect_roots D cap q seen
        | Some ns \<Rightarrow> (case scan_hosts D cap ns seen of (rs, s) \<Rightarrow> collect_roots D cap (q @ rs) s)))"
  by pat_completeness auto
termination
  by (relation "measure (\<lambda>(D, cap, q, seen). length q + (cap - seen))") (auto dest!: scan_hosts_count [OF sym])

definition collectRoots :: "dom \<Rightarrow> dom_root list" where
  "collectRoots D = collect_roots D 4000 [Document] 0"

fun query_each :: "dom \<Rightarrow> string \<Rightarrow> dom_root list \<Rightarrow> node list" where
  "query_each D sel [] = []"
| "query_each D sel (r # rs) = (case d_query D r sel of None \<Rightarrow> [] | Some ns \<Rightarrow> ns @ query_each D sel rs)"

definition queryAllDeep :: "dom \<Rightarrow> string \<Rightarrow> node list" where
  "queryAllDeep D sel = query_each D sel (collectRoots D)"

section \<open>Lookup\<close>

record hit =
  hit_el :: "node option"
  hit_strategy :: string
  hit_matches :: nat
  hit_selector :: string
  hit_ambiguous :: bool

definition no_hit :: hit where
  "no_hit = \<lparr>hit_el = None, hit_strategy = ''none'', hit_matches = 0, hit_selector = [], hit_ambiguous = False\<rparr>"

definition same_text :: "dom \<Rightarrow> jsval \<Rightarrow> node \<Rightarrow> bool" where
  "same_text D e n \<longleftrightarrow> getp ''text'' e = Str (visible_text D 400 n)"

text \<open>What one selector finds: the only match, or of several the one with the recorded text, or the first.\<close>

definition chosen :: "dom \<Rightarrow> jsval \<Rightarrow> string \<Rightarrow> string \<Rightarrow> node list \<Rightarrow> hit option" where
  "chosen D e strategy sel found = (case found of
      [] \<Rightarrow> None
    | [n] \<Rightarrow> Some \<lparr>hit_el = Some n, hit_strategy = strategy, hit_matches = 1, hit_selector = sel, hit_ambiguous = False\<rparr>
    | n # _ \<Rightarrow> let byText = (if truthy (getp ''text'' e) then find (same_text D e) found else None)
        in Some \<lparr>hit_el = Some (case byText of Some m \<Rightarrow> m | None \<Rightarrow> n), hit_strategy = strategy, hit_matches = length found,
             hit_selector = sel, hit_ambiguous = (byText = None)\<rparr>)"

definition try_selector :: "dom \<Rightarrow> jsval \<Rightarrow> string \<times> jsval \<Rightarrow> hit option" where
  "try_selector D e s =
     (if \<not> truthy (snd s) then None
      else let sel = to_string (snd s) in case d_query D Document sel of
          None \<Rightarrow> None
        | Some found \<Rightarrow> chosen D e (fst s) sel (if found = [] \<and> truthy (getp ''shadow'' e) then queryAllDeep D sel else found))"

fun first_hit :: "('a \<Rightarrow> 'b option) \<Rightarrow> 'a list \<Rightarrow> 'b option" where
  "first_hit f [] = None"
| "first_hit f (x # xs) = (case f x of Some y \<Rightarrow> Some y | None \<Rightarrow> first_hit f xs)"

definition try_xpath :: "dom \<Rightarrow> jsval \<Rightarrow> hit option" where
  "try_xpath D e = (let xp = getp ''xpath'' (getp ''selectors'' e) in
     if \<not> truthy xp then None
     else case d_evaluate D (to_string xp) of
         Some (Some n) \<Rightarrow> Some \<lparr>hit_el = Some n, hit_strategy = ''xpath'', hit_matches = 1, hit_selector = to_string xp, hit_ambiguous = False\<rparr>
       | _ \<Rightarrow> None)"

definition try_text :: "dom \<Rightarrow> jsval \<Rightarrow> hit option" where
  "try_text D e =
     (if \<not> (truthy (getp ''text'' e) \<and> truthy (getp ''tag'' e)) then None
      else case filter (same_text D e) (d_by_tag D (to_string (getp ''tag'' e))) of
          [] \<Rightarrow> None
        | n # ns \<Rightarrow> Some \<lparr>hit_el = Some n, hit_strategy = ''text'', hit_matches = Suc (length ns),
            hit_selector = to_string (getp ''tag'' e) @ '' :text('' @ [CHR 0x22] @ take 40 (to_string (getp ''text'' e)) @ [CHR 0x22] @ '')'',
            hit_ambiguous = False\<rparr>)"

definition lookup :: "dom \<Rightarrow> jsval \<Rightarrow> hit" where
  "lookup D ann =
     (let e = js_or (getp ''element'' ann) (Obj []); ss = getp ''selectors'' e;
          tries = [(''selector'', getp ''selector'' e), (''testid'', getp ''testid'' ss), (''aria'', getp ''aria'' ss), (''css'', getp ''css'' ss)]
      in case first_hit (try_selector D e) tries of Some h \<Rightarrow> h
         | None \<Rightarrow> (case try_xpath D e of Some h \<Rightarrow> h | None \<Rightarrow> (case try_text D e of Some h \<Rightarrow> h | None \<Rightarrow> no_hit)))"

section \<open>Records on their way to the page\<close>

text \<open>A stored record as the object the service worker sends.\<close>

definition element_json :: "ann_element \<Rightarrow> jsval" where
  "element_json el = Obj
     [(''tag'', Str (el_tag el)), (''role'', Str (el_role el)), (''name'', Str (el_name el)), (''text'', Str (el_text el)),
      (''selector'', Str (el_selector el)), (''selector_kind'', Str (el_selector_kind el)), (''unique'', Bool (el_unique el)),
      (''shadow'', Bool (el_shadow el)), (''selectors'', wire_selectors (el_selectors el)),
      (''attrs'', Obj (map (\<lambda>(k, v). (k, Str v)) (el_attrs el))), (''ancestors'', Arr (map Str (el_ancestors el))),
      (''rect'', wire_rect (el_rect el)), (''page'', wire_rect (el_page el))]"

definition record_json :: "annotation \<Rightarrow> jsval" where
  "record_json it = Obj
     [(''id'', Str (ann_id it)), (''seq'', jnat (ann_seq it)), (''created_at'', Str (ann_created_at it)),
      (''updated_at'', Str (ann_updated_at it)), (''status'', ann_status it), (''comment'', Str (ann_comment it)),
      (''note'', Str (ann_note it)), (''url'', Str (ann_url it)), (''url_key'', Str (ann_url_key it)), (''title'', Str (ann_title it)),
      (''tabId'', case ann_tabId it of None \<Rightarrow> Null | Some n \<Rightarrow> Num n), (''session'', case ann_session it of None \<Rightarrow> Null | Some s \<Rightarrow> Str s),
      (''frame_url'', Str (ann_frame_url it)), (''top_frame'', Bool (ann_top_frame it)), (''element'', element_json (ann_element it)),
      (''viewport'', wire_viewport (ann_viewport it)), (''has_screenshot'', Bool (ann_has_screenshot it))]"

end
