(* ===== verification/Overlay.thy ===== *)
theory Overlay
  imports AnnMode Fingerprint
begin

text \<open>
  \<^verbatim>\<open>annotator.js\<close>, the overlay: its module variables are the fields of \<open>overlay\<close>, what it draws is the record \<open>ui\<close>, and
  each function is one on that state.  The page may be another one at every call, so it is an argument, as is the
  clock.  Calls that wait (for frames, timers, answers of the service worker) leave a continuation in \<open>ov_pending\<close>.
\<close>

section \<open>State\<close>

text \<open>The host element: its inline style, each value with its priority, and whether it is in the document.\<close>

record host =
  host_style :: "(string \<times> string \<times> bool) list"
  host_connected :: bool

text \<open>A card is about an element, if that was found; a composer has a draft, a viewer its record.\<close>

datatype card_kind = Composer string | Viewer annotation

record card =
  card_kind :: card_kind
  card_lines :: "string list"
  card_node :: "node option"
  card_pos :: "rat \<times> rat"

record pin =
  pin_ann :: annotation
  pin_text :: string
  pin_title :: string
  pin_resolved :: bool
  pin_node :: "node option"
  pin_pos :: "rat \<times> rat"

text \<open>The bar is there in the top frame: its count and the caption of its pin switch.\<close>

record ui =
  ui_highlight :: "ann_rect option"
  ui_label :: "(string \<times> rat \<times> rat) option"
  ui_pins :: "pin list"
  ui_flashes :: "(nat \<times> ann_rect) list"
  ui_bar :: "(string \<times> string) option"
  ui_card :: "card option"

text \<open>
  What is under way: the question for the mode, a submission that waits for two frames or for its answer, a card's
  message, a flash that is due and one that is shown.
\<close>

datatype pending = Announcing | AwaitFrames string jsval | Submitting | CardAction | FlashDue node | FlashEnd nat

record overlay =
  ov_mode :: bool
  ov_host :: "host option"
  ov_ui :: "ui option"
  ov_items :: "annotation list"
  ov_hovered :: "node option"
  ov_picked :: "node option"
  ov_composer :: bool
  ov_pinsVisible :: bool
  ov_timer :: bool
  ov_raf :: bool
  ov_cache :: "(string \<times> node) list"
  ov_misses :: "(string \<times> rat) list"
  ov_listening :: bool
  ov_installed :: bool
  ov_sent :: "jsval list"
  ov_pending :: "pending list"
  ov_flash_count :: nat

definition with_ui :: "(ui \<Rightarrow> ui) \<Rightarrow> overlay \<Rightarrow> overlay" where
  "with_ui f st = st\<lparr>ov_ui := map_option f (ov_ui st)\<rparr>"

definition await :: "pending \<Rightarrow> overlay \<Rightarrow> overlay" where
  "await p st = st\<lparr>ov_pending := ov_pending st @ [p]\<rparr>"

definition send :: "jsval \<Rightarrow> overlay \<Rightarrow> overlay" where
  "send msg st = st\<lparr>ov_sent := ov_sent st @ [msg]\<rparr>"

section \<open>The host\<close>

definition HOST_STYLE :: "(string \<times> string) list" where
  "HOST_STYLE = [(''position'', ''fixed''), (''top'', ''0''), (''left'', ''0''), (''right'', ''auto''), (''bottom'', ''auto''),
    (''width'', ''100%''), (''height'', ''100%''), (''max-width'', ''none''), (''max-height'', ''none''),
    (''min-width'', ''0''), (''min-height'', ''0''),
    (''margin'', ''0''), (''padding'', ''0''), (''border'', ''0''), (''outline'', ''0''), (''float'', ''none''),
    (''display'', ''block''), (''visibility'', ''visible''), (''opacity'', ''1''),
    (''pointer-events'', ''none''), (''z-index'', ''2147483600''),
    (''transform'', ''none''), (''filter'', ''none''), (''clip-path'', ''none''), (''mix-blend-mode'', ''normal''),
    (''isolation'', ''isolate''), (''contain'', ''layout style''),
    (''font'', ''normal normal 400 14px/1.45 -apple-system, BlinkMacSystemFont, 'Segoe UI', 'PingFang SC', sans-serif''),
    (''color'', ''#0f172a''), (''direction'', ''ltr''), (''text-align'', ''left''), (''text-transform'', ''none''),
    (''letter-spacing'', ''normal''), (''word-spacing'', ''normal''), (''white-space'', ''normal''), (''color-scheme'', ''light'')]"

definition DOT :: string where "DOT = '' '' @ [CHR 0xB7] @ '' ''"

definition buildBar :: "string \<times> string" where
  "buildBar = (''Annotating'', ''Hide pins'')"

definition new_ui :: "dom \<Rightarrow> ui" where
  "new_ui D = \<lparr>ui_highlight = None, ui_label = None, ui_pins = [], ui_flashes = [],
     ui_bar = (if d_is_top D then Some buildBar else None), ui_card = None\<rparr>"

definition new_host :: host where
  "new_host = \<lparr>host_style = map (\<lambda>(prop, value). (prop, value, True)) HOST_STYLE, host_connected = True\<rparr>"

definition ensureHost :: "dom \<Rightarrow> overlay \<Rightarrow> overlay" where
  "ensureHost D st = (if (case ov_host st of None \<Rightarrow> False | Some h \<Rightarrow> host_connected h) then st
     else st\<lparr>ov_host := Some new_host, ov_ui := Some (new_ui D)\<rparr>)"

definition teardownHost :: "overlay \<Rightarrow> overlay" where
  "teardownHost st = st\<lparr>ov_host := None, ov_ui := None\<rparr>"

text \<open>\<^verbatim>\<open>host.style.visibility = v\<close>: without priority, and the empty string takes the declaration away.\<close>

definition set_visibility :: "string \<Rightarrow> overlay \<Rightarrow> overlay" where
  "set_visibility v st = st\<lparr>ov_host := map_option (\<lambda>h. h\<lparr>host_style :=
     (if v = [] then mdel ''visibility'' (host_style h) else mput ''visibility'' (v, False) (host_style h))\<rparr>) (ov_host st)\<rparr>"

definition bar_count :: "annotation list \<Rightarrow> string" where
  "bar_count its = (let opn = length (filter (\<lambda>i. ann_status i \<noteq> Str ''resolved'') its)
     in if opn = 0 then ''Annotating'' else ''Annotating'' @ DOT @ show_nat opn @ '' note'' @ (if opn = 1 then [] else ''s''))"

definition updateBar :: "overlay \<Rightarrow> overlay" where
  "updateBar st = with_ui (\<lambda>u. u\<lparr>ui_bar := map_option (\<lambda>(_, caption). (bar_count (ov_items st), caption)) (ui_bar u)\<rparr>) st"

section \<open>Lookup with its caches\<close>

definition MISS_BACKOFF_MS :: rat where "MISS_BACKOFF_MS = 3000"

definition resolve_ann :: "dom \<Rightarrow> rat \<Rightarrow> annotation \<Rightarrow> overlay \<Rightarrow> hit \<times> overlay" where
  "resolve_ann D now ann st =
     (let i = ann_id ann; cached = (case map_of (ov_cache st) i of Some n \<Rightarrow> if d_connected D n then Some n else None | None \<Rightarrow> None)
      in if cached \<noteq> None then (no_hit\<lparr>hit_el := cached, hit_strategy := ''cache''\<rparr>, st)
         else if (case map_of (ov_misses st) i of Some t \<Rightarrow> t \<noteq> 0 \<and> now - t < MISS_BACKOFF_MS | None \<Rightarrow> False) then (no_hit, st)
         else (let found = lookup D (record_json ann) in (found, case hit_el found of
             Some n \<Rightarrow> st\<lparr>ov_cache := mput i n (ov_cache st), ov_misses := mdel i (ov_misses st)\<rparr>
           | None \<Rightarrow> st\<lparr>ov_cache := mdel i (ov_cache st), ov_misses := mput i now (ov_misses st)\<rparr>)))"

section \<open>Highlights\<close>

definition label_pos :: "dom \<Rightarrow> node \<Rightarrow> rat \<times> rat" where
  "label_pos D n = (let r = d_rect D n in (max 2 (min (rect_x r) (fst (d_window D) - 330)),
     if rect_y r > 24 then rect_y r - 22 else min (rect_y r + rect_h r + 4) (snd (d_window D) - 24)))"

definition has_card :: "overlay \<Rightarrow> bool" where
  "has_card st \<longleftrightarrow> (case ov_ui st of None \<Rightarrow> False | Some u \<Rightarrow> ui_card u \<noteq> None)"

definition showHighlight :: "dom \<Rightarrow> node \<Rightarrow> overlay \<Rightarrow> overlay" where
  "showHighlight D n st0 = (let st = ensureHost D st0 in
     with_ui (\<lambda>u. u\<lparr>ui_highlight := Some (d_rect D n),
       ui_label := (if ov_composer st \<or> has_card st then None else Some (describeShort D n, label_pos D n))\<rparr>) st)"

definition hideHighlight :: "overlay \<Rightarrow> overlay" where
  "hideHighlight = with_ui (\<lambda>u. u\<lparr>ui_highlight := None, ui_label := None\<rparr>)"

definition flash :: "dom \<Rightarrow> node \<Rightarrow> overlay \<Rightarrow> overlay" where
  "flash D n st0 = (let st = ensureHost D st0; k = ov_flash_count st in
     await (FlashEnd k) (with_ui (\<lambda>u. u\<lparr>ui_flashes := ui_flashes u @ [(k, d_rect D n)]\<rparr>) (st\<lparr>ov_flash_count := Suc k\<rparr>)))"

definition flash_end :: "nat \<Rightarrow> overlay \<Rightarrow> overlay" where
  "flash_end k st0 = (let st = with_ui (\<lambda>u. u\<lparr>ui_flashes := filter (\<lambda>f. fst f \<noteq> k) (ui_flashes u)\<rparr>) st0 in
     if \<not> ov_mode st \<and> \<not> ov_composer st then teardownHost st else st)"

section \<open>Pins\<close>

definition OFFSCREEN :: "rat \<times> rat" where "OFFSCREEN = (- 9999, - 9999)"

definition pin_place :: "dom \<Rightarrow> node option \<Rightarrow> rat \<times> rat" where
  "pin_place D t = (case t of None \<Rightarrow> OFFSCREEN | Some n \<Rightarrow> (let r = d_rect D n in
     if rect_w r = 0 \<and> rect_h r = 0 then OFFSCREEN
     else (max 0 (min (rect_x r - 8) (fst (d_window D) - 30)), max 0 (min (rect_y r - 8) (snd (d_window D) - 30)))))"

definition make_pin :: "dom \<Rightarrow> annotation \<Rightarrow> node option \<Rightarrow> pin" where
  "make_pin D ann t = \<lparr>pin_ann = ann, pin_text = (if take 1 (ann_id ann) = ''a'' then drop 1 (ann_id ann) else ann_id ann),
     pin_title = (if ann_comment ann = [] then ann_id ann else take 160 (ann_comment ann)),
     pin_resolved = (ann_status ann = Str ''resolved''), pin_node = t, pin_pos = pin_place D t\<rparr>"

fun draw_pins :: "dom \<Rightarrow> rat \<Rightarrow> annotation list \<Rightarrow> overlay \<Rightarrow> overlay" where
  "draw_pins D now [] st = st"
| "draw_pins D now (ann # anns) st = (case resolve_ann D now ann st of (res, st1) \<Rightarrow>
     draw_pins D now anns (with_ui (\<lambda>u. u\<lparr>ui_pins := ui_pins u @ [make_pin D ann (hit_el res)]\<rparr>) st1))"

definition renderPins :: "dom \<Rightarrow> rat \<Rightarrow> overlay \<Rightarrow> overlay" where
  "renderPins D now st0 = (if ov_ui st0 = None then st0
     else let st = updateBar (with_ui (\<lambda>u. u\<lparr>ui_pins := []\<rparr>) st0)
       in if \<not> ov_mode st \<or> \<not> ov_pinsVisible st then st else draw_pins D now (ov_items st) st)"

definition scheduleLayout :: "overlay \<Rightarrow> overlay" where
  "scheduleLayout st = st\<lparr>ov_raf := True\<rparr>"

section \<open>Cards\<close>

definition closeCard :: "overlay \<Rightarrow> overlay" where
  "closeCard st = hideHighlight (with_ui (\<lambda>u. u\<lparr>ui_card := None\<rparr>) st\<lparr>ov_composer := False, ov_picked := None\<rparr>)"

text \<open>The left, top and bottom edge a card hangs on.\<close>

definition anchorRect :: "dom \<Rightarrow> node option \<Rightarrow> rat \<times> rat \<times> rat" where
  "anchorRect D t = (case t of
      Some n \<Rightarrow> (let r = d_rect D n in if d_connected D n \<and> (rect_w r \<noteq> 0 \<or> rect_h r \<noteq> 0) then (rect_x r, rect_y r, rect_y r + rect_h r) else (40, 40, 60))
    | None \<Rightarrow> (40, 40, 60))"

definition positionCard :: "dom \<Rightarrow> rat \<times> rat \<times> rat \<Rightarrow> rat \<times> rat" where
  "positionCard D anchor = (case anchor of (l, t, b) \<Rightarrow>
     let margin = 12; w = (if fst (d_card D) = 0 then 320 else fst (d_card D)); h = (if snd (d_card D) = 0 then 220 else snd (d_card D));
         below = b + 8; top1 = (if below + h > snd (d_window D) - margin then max margin (t - h - 8) else below)
     in (max margin (min l (fst (d_window D) - w - margin)), if top1 < margin then margin else top1))"

definition mountCard :: "dom \<Rightarrow> card_kind \<Rightarrow> string list \<Rightarrow> node option \<Rightarrow> overlay \<Rightarrow> overlay" where
  "mountCard D kind lines t st = with_ui (\<lambda>u. u\<lparr>ui_card := Some \<lparr>card_kind = kind, card_lines = lines, card_node = t,
     card_pos = positionCard D (anchorRect D t)\<rparr>\<rparr>) (ensureHost D st)"

definition openComposer :: "dom \<Rightarrow> node \<Rightarrow> overlay \<Rightarrow> overlay" where
  "openComposer D n st = mountCard D (Composer []) [describeShort D n] (Some n)
     (showHighlight D n (st\<lparr>ov_picked := Some n, ov_composer := True\<rparr>))"

definition set_draft :: "string \<Rightarrow> overlay \<Rightarrow> overlay" where
  "set_draft text = with_ui (\<lambda>u. u\<lparr>ui_card := map_option (\<lambda>c. c\<lparr>card_kind := Composer text\<rparr>) (ui_card u)\<rparr>)"

definition parent_button :: "dom \<Rightarrow> string \<Rightarrow> overlay \<Rightarrow> overlay" where
  "parent_button D text st = (case (case ov_picked st of None \<Rightarrow> None | Some n \<Rightarrow> d_parent D n) of
      None \<Rightarrow> st
    | Some p \<Rightarrow> set_draft text (openComposer D p (closeCard st)))"

text \<open>The dash between a viewer's tag and selector is outside the alphabet and written as two hyphens.\<close>

definition viewer_lines :: "annotation \<Rightarrow> node option \<Rightarrow> string list" where
  "viewer_lines ann t = (el_tag (ann_element ann) @ '' -- '' @ el_selector (ann_element ann)) # ann_comment ann
     # (if ann_note ann = [] then [] else [''AI: '' @ ann_note ann])
     @ [ann_id ann @ DOT @ to_string (ann_status ann) @ (if t = None then DOT @ ''element not found on this page'' else [])]"

definition openViewer :: "dom \<Rightarrow> annotation \<Rightarrow> node option \<Rightarrow> overlay \<Rightarrow> overlay" where
  "openViewer D ann t st0 = (let st = mountCard D (Viewer ann) (viewer_lines ann t) t st0
     in case t of None \<Rightarrow> st | Some n \<Rightarrow> showHighlight D n st)"

definition delete_button :: "annotation \<Rightarrow> overlay \<Rightarrow> overlay" where
  "delete_button ann st = await CardAction (send (Obj [(''type'', Str ''OWB_ANN_DELETE''), (''id'', Str (ann_id ann))]) st)"

definition status_button :: "annotation \<Rightarrow> overlay \<Rightarrow> overlay" where
  "status_button ann st = await CardAction (send (Obj [(''type'', Str ''OWB_ANN_UPDATE''), (''id'', Str (ann_id ann)),
     (''status'', Str (if ann_status ann = Str ''resolved'' then ''open'' else ''resolved''))]) st)"

section \<open>Submissions\<close>

definition submit :: "dom \<Rightarrow> string \<Rightarrow> node \<Rightarrow> overlay \<Rightarrow> overlay" where
  "submit D text n st = (let comment = js_trim text in
     if comment = [] then st else await (AwaitFrames comment (describe D n)) (set_visibility ''hidden'' (closeCard st)))"

definition add_input :: "dom \<Rightarrow> string \<Rightarrow> jsval \<Rightarrow> jsval" where
  "add_input D comment element = Obj
     [(''comment'', Str comment), (''url'', Str (d_url D)), (''title'', Str (d_title D)), (''frame_url'', Str (d_url D)),
      (''top_frame'', Bool (d_is_top D)), (''element'', element),
      (''viewport'', Obj [(''w'', jnum (fst (d_window D))), (''h'', jnum (snd (d_window D))),
         (''dpr'', jnum (if d_ratio D = 0 then 1 else d_ratio D))])]"

text \<open>After two frames the note is sent, on the page there is then; after the answer the overlay shows again.\<close>

definition twoFrames :: "dom \<Rightarrow> string \<Rightarrow> jsval \<Rightarrow> overlay \<Rightarrow> overlay" where
  "twoFrames D comment element st =
     await Submitting (send (Obj [(''type'', Str ''OWB_ANN_ADD''), (''input'', add_input D comment element)]) st)"

definition submitted :: "overlay \<Rightarrow> overlay" where
  "submitted st = set_visibility [] st"

section \<open>Lifecycle\<close>

definition setMode :: "dom \<Rightarrow> rat \<Rightarrow> bool \<Rightarrow> overlay \<Rightarrow> overlay" where
  "setMode D now on st =
     (if on = ov_mode st then (if on then renderPins D now st else st)
      else if on then renderPins D now ((ensureHost D (st\<lparr>ov_mode := True\<rparr>))\<lparr>ov_listening := True, ov_timer := True\<rparr>)
      else (teardownHost (closeCard (st\<lparr>ov_mode := False, ov_listening := False, ov_timer := False\<rparr>)))
             \<lparr>ov_hovered := None, ov_cache := [], ov_misses := []\<rparr>)"

definition destroy :: "dom \<Rightarrow> rat \<Rightarrow> overlay \<Rightarrow> overlay" where
  "destroy D now st = (setMode D now False st)\<lparr>ov_installed := False\<rparr>"

text \<open>\<^verbatim>\<open>Done\<close> and the last \<^verbatim>\<open>Escape\<close>.\<close>

definition stop_mode :: "dom \<Rightarrow> rat \<Rightarrow> overlay \<Rightarrow> overlay" where
  "stop_mode D now st = setMode D now False (send (Obj [(''type'', Str ''OWB_ANN_STOP'')]) st)"

definition pins_button :: "dom \<Rightarrow> rat \<Rightarrow> overlay \<Rightarrow> overlay" where
  "pins_button D now st = renderPins D now (let on = \<not> ov_pinsVisible st in
     with_ui (\<lambda>u. u\<lparr>ui_bar := map_option (\<lambda>(n, _). (n, if on then ''Hide pins'' else ''Show pins'')) (ui_bar u)\<rparr>) (st\<lparr>ov_pinsVisible := on\<rparr>))"

definition announce :: "dom \<Rightarrow> overlay \<Rightarrow> overlay" where
  "announce D st = await Announcing (send (Obj [(''type'', Str ''OWB_ANN_READY''), (''url'', Str (d_url D)), (''top'', Bool (d_is_top D))]) st)"

text \<open>The answer to it: none, or whether the mode is on, with the notes of the page.\<close>

definition announced :: "dom \<Rightarrow> rat \<Rightarrow> page_reply option \<Rightarrow> overlay \<Rightarrow> overlay" where
  "announced D now res st = (case res of
      None \<Rightarrow> st
    | Some (Ready on anns) \<Rightarrow> renderPins D now (setMode D now on (st\<lparr>ov_items := anns\<rparr>))
    | Some _ \<Rightarrow> renderPins D now (setMode D now False (st\<lparr>ov_items := []\<rparr>)))"

definition fresh_overlay :: overlay where
  "fresh_overlay = \<lparr>ov_mode = False, ov_host = None, ov_ui = None, ov_items = [], ov_hovered = None, ov_picked = None, ov_composer = False,
     ov_pinsVisible = True, ov_timer = False, ov_raf = False, ov_cache = [], ov_misses = [], ov_listening = False, ov_installed = True,
     ov_sent = [], ov_pending = [], ov_flash_count = 0\<rparr>"

section \<open>Messages of the service worker\<close>

definition located_reply :: "dom \<Rightarrow> hit \<Rightarrow> jsval" where
  "located_reply D res = Obj
     [(''found'', Bool (hit_el res \<noteq> None)), (''strategy'', Str (hit_strategy res)), (''matches'', jnat (hit_matches res)),
      (''selector'', Str (hit_selector res)), (''ambiguous'', Bool (hit_ambiguous res)), (''url'', Str (d_url D)),
      (''rect'', case hit_el res of None \<Rightarrow> Null | Some n \<Rightarrow> (let r = d_rect D n in
         Obj [(''x'', jint (js_round (rect_x r))), (''y'', jint (js_round (rect_y r))), (''w'', jint (js_round (rect_w r))), (''h'', jint (js_round (rect_h r)))])),
      (''visible'', Bool (case hit_el res of None \<Rightarrow> False | Some n \<Rightarrow> rect_w (d_rect D n) > 0 \<and> rect_h (d_rect D n) > 0))]"

text \<open>The answer is given on the page \<open>D'\<close> that scrolling to the element has left.\<close>

definition onMessage :: "dom \<Rightarrow> dom \<Rightarrow> rat \<Rightarrow> page_msg \<Rightarrow> overlay \<Rightarrow> jsval \<times> overlay" where
  "onMessage D D' now msg st = (case msg of
      SetMode on \<Rightarrow> (Obj [(''ok'', Bool True)], if on then setMode D now True st else destroy D now st)
    | Sync anns \<Rightarrow> (Obj [(''ok'', Bool True), (''count'', jnat (length anns))],
        renderPins D now (st\<lparr>ov_items := anns, ov_cache := [], ov_misses := []\<rparr>))
    | Locate ann scroll flsh \<Rightarrow> (let res = lookup D (record_json ann) in
        (located_reply (if scroll \<and> hit_el res \<noteq> None then D' else D) res,
         case hit_el res of Some n \<Rightarrow> if flsh then await (FlashDue n) st else st | None \<Rightarrow> st)))"

section \<open>Events of the page\<close>

datatype on_path = PathHost | PathNode node | PathOther

record page_event =
  pe_path :: "on_path list"
  pe_target :: "node option"

definition fromOverlay :: "page_event \<Rightarrow> overlay \<Rightarrow> bool" where
  "fromOverlay e st \<longleftrightarrow> ov_host st \<noteq> None \<and> PathHost \<in> set (pe_path e)"

text \<open>The first element on the path that is not the document's; none where the path meets the overlay before one.\<close>

fun pick_on :: "dom \<Rightarrow> on_path list \<Rightarrow> node option \<Rightarrow> node option" where
  "pick_on D [] target = target"
| "pick_on D (PathHost # p) target = None"
| "pick_on D (PathNode n # p) target = (if n \<noteq> d_top D then Some n else pick_on D p target)"
| "pick_on D (PathOther # p) target = pick_on D p target"

definition pickTarget :: "dom \<Rightarrow> page_event \<Rightarrow> node option" where
  "pickTarget D e = pick_on D (pe_path e) (pe_target e)"

definition onMove :: "dom \<Rightarrow> page_event \<Rightarrow> overlay \<Rightarrow> overlay" where
  "onMove D e st = (if \<not> ov_mode st \<or> ov_composer st \<or> fromOverlay e st then st
     else case pickTarget D e of None \<Rightarrow> st
       | Some n \<Rightarrow> if Some n = ov_hovered st then st else showHighlight D n (st\<lparr>ov_hovered := Some n\<rparr>))"

text \<open>Whether the page is kept from seeing the event, and the state after it.\<close>

definition onClick :: "dom \<Rightarrow> page_event \<Rightarrow> overlay \<Rightarrow> bool \<times> overlay" where
  "onClick D e st = (if \<not> ov_mode st \<or> fromOverlay e st then (False, st)
     else (True, if ov_composer st then closeCard st
       else case pickTarget D e of None \<Rightarrow> st | Some n \<Rightarrow> openComposer D n st))"

definition swallow :: "page_event \<Rightarrow> overlay \<Rightarrow> bool" where
  "swallow e st \<longleftrightarrow> ov_mode st \<and> \<not> fromOverlay e st"

definition onKey :: "dom \<Rightarrow> rat \<Rightarrow> string \<Rightarrow> bool \<Rightarrow> overlay \<Rightarrow> bool \<times> overlay" where
  "onKey D now key alt st =
     (if \<not> ov_mode st then (False, st)
      else if key = ''Escape'' then (True, if ov_composer st \<or> has_card st then closeCard st else stop_mode D now st)
      else case (if alt \<and> key = ''ArrowUp'' \<and> \<not> ov_composer st then (case ov_hovered st of None \<Rightarrow> None | Some h \<Rightarrow> d_parent D h) else None) of
          Some p \<Rightarrow> (True, showHighlight D p (st\<lparr>ov_hovered := Some p\<rparr>))
        | None \<Rightarrow> (False, st))"

text \<open>A key in the composer's text area: save, close, or nothing of ours.\<close>

definition draft_key :: "dom \<Rightarrow> string \<Rightarrow> bool \<Rightarrow> string \<Rightarrow> node \<Rightarrow> overlay \<Rightarrow> overlay" where
  "draft_key D key meta text n st = (if key = ''Enter'' \<and> meta then submit D text n st
     else if key = ''Escape'' then closeCard st else st)"

text \<open>A layout frame.\<close>

definition on_frame :: "dom \<Rightarrow> rat \<Rightarrow> overlay \<Rightarrow> overlay" where
  "on_frame D now st0 = (let st = st0\<lparr>ov_raf := False\<rparr> in
     if \<not> ov_mode st then st
     else let st1 = renderPins D now (ensureHost D st);
              st2 = (case ov_picked st1 of None \<Rightarrow> st1 | Some n \<Rightarrow> showHighlight D n st1)
       in with_ui (\<lambda>u. u\<lparr>ui_card := map_option (\<lambda>c. c\<lparr>card_pos := positionCard D (anchorRect D (card_node c))\<rparr>) (ui_card u)\<rparr>) st2)"

section \<open>Steps\<close>

definition drop_pending :: "nat \<Rightarrow> overlay \<Rightarrow> overlay" where
  "drop_pending i st = st\<lparr>ov_pending := take i (ov_pending st) @ drop (Suc i) (ov_pending st)\<rparr>"

definition open_card :: "overlay \<Rightarrow> card option" where
  "open_card st = Option.bind (ov_ui st) ui_card"

definition shown_pins :: "overlay \<Rightarrow> pin list" where
  "shown_pins st = (case ov_ui st of None \<Rightarrow> [] | Some u \<Rightarrow> ui_pins u)"

definition shown_bar :: "overlay \<Rightarrow> (string \<times> string) option" where
  "shown_bar st = Option.bind (ov_ui st) ui_bar"

text \<open>One event of the page, the user, the service worker or a clock.  Every step may find another page.\<close>

inductive ov_step :: "overlay \<Rightarrow> overlay \<Rightarrow> bool" where
  s_move: "ov_step st (onMove D e st)"
| s_click: "ov_step st (snd (onClick D e st))"
| s_key: "ov_step st (snd (onKey D now key alt st))"
| s_layout: "ov_timer st \<or> ov_listening st \<Longrightarrow> ov_step st (scheduleLayout st)"
| s_frame: "ov_raf st \<Longrightarrow> ov_step st (on_frame D now st)"
| s_done: "shown_bar st \<noteq> None \<Longrightarrow> ov_step st (stop_mode D now st)"
| s_pins: "shown_bar st \<noteq> None \<Longrightarrow> ov_step st (pins_button D now st)"
| s_pin: "p \<in> set (shown_pins st) \<Longrightarrow> ov_step st (openViewer D (pin_ann p) (pin_node p) st)"
| s_enter: "p \<in> set (shown_pins st) \<Longrightarrow> pin_node p = Some n \<Longrightarrow> ov_step st (showHighlight D n st)"
| s_leave: "p \<in> set (shown_pins st) \<Longrightarrow> ov_step st (hideHighlight st)"
| s_draft: "open_card st = Some c \<Longrightarrow> card_kind c = Composer old \<Longrightarrow> ov_step st (set_draft text st)"
| s_parent: "open_card st = Some c \<Longrightarrow> card_kind c = Composer text \<Longrightarrow> ov_step st (parent_button D text st)"
| s_save: "open_card st = Some c \<Longrightarrow> card_kind c = Composer text \<Longrightarrow> card_node c = Some n \<Longrightarrow> ov_step st (submit D text n st)"
| s_draft_key: "open_card st = Some c \<Longrightarrow> card_kind c = Composer text \<Longrightarrow> card_node c = Some n \<Longrightarrow> ov_step st (draft_key D key meta text n st)"
| s_close: "open_card st = Some c \<Longrightarrow> ov_step st (closeCard st)"
| s_delete: "open_card st = Some c \<Longrightarrow> card_kind c = Viewer ann \<Longrightarrow> ov_step st (delete_button ann st)"
| s_status: "open_card st = Some c \<Longrightarrow> card_kind c = Viewer ann \<Longrightarrow> ov_step st (status_button ann st)"
| s_message: "ov_installed st \<Longrightarrow> ov_step st (snd (onMessage D D' now msg st))"
| s_rearm: "ov_installed st \<Longrightarrow> ov_step st (announce D st)"
| s_announced: "i < length (ov_pending st) \<Longrightarrow> ov_pending st ! i = Announcing \<Longrightarrow> ov_step st (announced D now res (drop_pending i st))"
| s_frames: "i < length (ov_pending st) \<Longrightarrow> ov_pending st ! i = AwaitFrames c el \<Longrightarrow> ov_step st (twoFrames D c el (drop_pending i st))"
| s_submitted: "i < length (ov_pending st) \<Longrightarrow> ov_pending st ! i = Submitting \<Longrightarrow> ov_step st (submitted (drop_pending i st))"
| s_card: "i < length (ov_pending st) \<Longrightarrow> ov_pending st ! i = CardAction \<Longrightarrow> ov_step st (closeCard (drop_pending i st))"
| s_flash: "i < length (ov_pending st) \<Longrightarrow> ov_pending st ! i = FlashDue n \<Longrightarrow> ov_step st (flash D n (drop_pending i st))"
| s_flash_end: "i < length (ov_pending st) \<Longrightarrow> ov_pending st ! i = FlashEnd k \<Longrightarrow> ov_step st (flash_end k (drop_pending i st))"
| s_removed: "ov_step st (st\<lparr>ov_host := map_option (\<lambda>h. h\<lparr>host_connected := False\<rparr>) (ov_host st)\<rparr>)"

inductive_cases ov_stepE: "ov_step st st'"

inductive ov_reachable :: "overlay \<Rightarrow> bool" where
  ov_start: "ov_reachable (announce D fresh_overlay)"
| ov_more: "ov_reachable st \<Longrightarrow> ov_step st st' \<Longrightarrow> ov_reachable st'"

end
