(* ===== verification/FingerprintProps.thy ===== *)
theory FingerprintProps
  imports Fingerprint
begin

text \<open>
  Whether an annotation finds its element again: what the browser promises of selectors and paths (\<open>page_dom\<close>), that an
  attribute's value stays inside its quotes, that an element answers its own selectors, what its XPath finds, and
  what comes back when the record has been through the store.
\<close>

section \<open>What the annotator relies on\<close>

text \<open>
  The tree of elements; CSS in a no-quirks document, for the forms the annotator writes; XPath in an HTML document, where a
  plain name means elements of HTML.
\<close>

definition plain_seg :: "seg \<Rightarrow> bool" where
  "plain_seg s \<longleftrightarrow> (case s of ById _ \<Rightarrow> True | ByTag t _ _ \<Rightarrow> plain_name t) \<and> list_all (\<lambda>i. CHR 0x00 \<notin> set i) (seg_names s)"

text \<open>A compound whose names CSS reads as they are meant.\<close>

definition readable_seg :: "seg \<Rightarrow> bool" where
  "readable_seg s \<longleftrightarrow> list_all (\<lambda>i. css_ident (esc i) = Some (CssName i, [])) (seg_names s)"

definition NAMED_ATTRS :: "string list" where
  "NAMED_ATTRS = ''name'' # ''aria-label'' # TESTID_ATTRS"

locale page_dom =
  fixes D :: dom
  assumes parent_child: "d_parent D n = Some p \<longleftrightarrow> n \<in> set (d_children D p)"
    and siblings: "d_children D p = cs @ n # ds \<Longrightarrow> d_before D n = rev cs"
    and distinct_children: "distinct (d_children D p)"
    and alone: "d_parent D n = None \<Longrightarrow> d_before D n = []"
    and one_top: "d_root D n = Document \<Longrightarrow> d_parent D n = None \<Longrightarrow> n = d_top D"
    and top_root: "d_parent D (d_top D) = None"
    and same_root: "d_parent D n = Some p \<Longrightarrow> d_root D n = d_root D p"
    and id_attr: "d_id D n \<noteq> [] \<Longrightarrow> d_attr D n ''id'' = Some (d_id D n)"
    and in_root: "n \<in> set (d_elements D r) \<Longrightarrow> d_root D n = r"
    and query_in_root: "d_query D r sel = Some ms \<Longrightarrow> set ms \<subseteq> set (d_elements D r)"
    and query_attr: "t = [] \<or> plain_name t \<Longrightarrow> a \<in> set NAMED_ATTRS \<Longrightarrow> css_string (s @ [CHR 0x22] @ '']'') = Some (CssString v, '']'')
      \<Longrightarrow> d_query D r (t @ ''['' @ a @ ''='' @ [CHR 0x22] @ s @ [CHR 0x22] @ '']'')
          = Some (filter (\<lambda>n. (t = [] \<or> d_tag D n = t) \<and> d_attr D n a = Some v) (d_elements D r))"
    and query_broken: "t = [] \<or> plain_name t \<Longrightarrow> a \<in> set NAMED_ATTRS \<Longrightarrow> css_string (s @ [CHR 0x22] @ '']'') = Some (BadString, rest)
      \<Longrightarrow> d_query D r (t @ ''['' @ a @ ''='' @ [CHR 0x22] @ s @ [CHR 0x22] @ '']'') = None"
    and query_path: "ss \<noteq> [] \<Longrightarrow> list_all plain_seg ss
      \<Longrightarrow> d_query D r (path_text ss) = (if list_all readable_seg ss then Some (filter (chain_matches D ss) (d_elements D r)) else None)"
    and evaluates: "xs \<noteq> [] \<Longrightarrow> list_all (\<lambda>x. plain_name (fst x)) xs \<Longrightarrow> d_evaluate D (xp_text xs) = Some (follow D xs [d_top D])"

text \<open>
  Pages the selectors are written for: element names without special characters, no mixture of HTML and foreign elements of
  one name among siblings, no NUL in attributes, ids and classes.
\<close>

definition plain_page :: "dom \<Rightarrow> bool" where
  "plain_page D \<longleftrightarrow> (\<forall>n. plain_name (d_tag D n))
     \<and> (\<forall>p. \<forall>c \<in> set (d_children D p). \<forall>n \<in> set (d_children D p). d_tag D c = d_tag D n \<longrightarrow> d_html D c = d_html D n)
     \<and> (\<forall>n. \<forall>a \<in> set NAMED_ATTRS. \<forall>v. d_attr D n a = Some v \<longrightarrow> CHR 0x00 \<notin> set v)
     \<and> (\<forall>n. \<forall>i \<in> insert (d_id D n) (set (d_classes D n)). CHR 0x00 \<notin> set i)"

lemma plain_pageD:
  assumes "plain_page D"
  shows "plain_name (d_tag D n)"
    and "c \<in> set (d_children D p) \<Longrightarrow> n \<in> set (d_children D p) \<Longrightarrow> d_tag D c = d_tag D n \<Longrightarrow> d_html D c = d_html D n"
    and "a \<in> set NAMED_ATTRS \<Longrightarrow> d_attr D n a = Some v \<Longrightarrow> CHR 0x00 \<notin> set v"
    and "i = d_id D n \<or> i \<in> set (d_classes D n) \<Longrightarrow> CHR 0x00 \<notin> set i"
  using assms unfolding plain_page_def by blast+

section \<open>Attribute values stay inside their quotes\<close>

lemma attrVal_Cons: "attrVal (c # v) = (if c = CHR 0x5C \<or> c = CHR 0x22 then [CHR 0x5C, c] else [c]) @ attrVal v" "attrVal [] = []"
  by (simp_all add: attrVal_def)

lemma not_hex_escape: "\<not> is_hex (CHR 0x5C)" "\<not> is_hex (CHR 0x22)" "\<not> css_newline (CHR 0x5C)" "\<not> css_newline (CHR 0x22)"
  by (simp_all add: is_hex_def is_digit_def lower_char_def css_newline_def)

text \<open>
  A value that the annotator quotes is read back as exactly that value, and the selector goes on after it, unless the
  value has a line break: then the browser rejects the selector.
\<close>

lemma attribute_value_reads_back:
  assumes "CHR 0x00 \<notin> set v"
  shows "css_string (attrVal v @ [CHR 0x22] @ rest) = Some (if list_ex css_newline v
      then (BadString, attrVal (dropWhile (\<lambda>c. \<not> css_newline c) v) @ [CHR 0x22] @ rest) else (CssString v, rest))"
  using assms
proof (induction v)
  case (Cons c v)
  then show ?case by (auto simp: attrVal_Cons not_hex_escape css_more_def css_newline_def)
qed (simp add: attrVal_Cons)

lemma attribute_value_reads_back_witness:
  "css_string (attrVal (''a'' @ [CHR 0x22, CHR 0x5C]) @ [CHR 0x22] @ '']'') = Some (CssString (''a'' @ [CHR 0x22, CHR 0x5C]), '']'')"
  by (subst attribute_value_reads_back) (simp_all add: css_newline_def)

section \<open>Which names survive escaping\<close>

text \<open>
  A name that does not start like a number and has no line break.  The characters that may follow a name in a path
  are a dot, a colon and a space.
\<close>

definition ident_ok :: "string \<Rightarrow> bool" where
  "ident_ok v \<longleftrightarrow> \<not> list_ex css_newline v \<and> (case v of [] \<Rightarrow> False
     | c # r \<Rightarrow> \<not> is_digit c \<and> (c = CHR ''-'' \<longrightarrow> r \<noteq> [] \<and> \<not> is_digit (hd r)))"

definition name_ends :: "string \<Rightarrow> bool" where
  "name_ends rest \<longleftrightarrow> rest = [] \<or> hd rest \<in> {CHR ''.'', CHR '':'', CHR '' ''}"

lemma esc_Cons: "esc (c # v) = (if is_word c \<or> c = CHR ''-'' then [c] else [CHR 0x5C, c]) @ esc v" "esc [] = []"
  by (simp_all add: esc_def)

lemma word_chars: "\<not> is_word (CHR 0x5C)" "\<not> is_word (CHR ''.'')" "\<not> is_word (CHR '':'')" "\<not> is_word (CHR '' '')" "\<not> is_word (CHR ''-'')"
  "is_word c \<Longrightarrow> c \<noteq> CHR 0x5C" "is_digit c \<Longrightarrow> is_word c" "is_hex c \<Longrightarrow> is_word c" "\<not> css_newline (CHR ''-'')"
  by (auto simp: is_word_def is_alnum_def is_hex_def is_digit_def lower_char_def css_newline_def)

lemma newline_no_word: "css_newline c \<Longrightarrow> \<not> is_word c"
  by (auto simp: css_newline_def is_word_def is_alnum_def is_digit_def lower_char_def)

lemma css_chars_ends: "name_ends rest \<Longrightarrow> css_chars rest = Some (CssName [], rest)"
  by (cases rest) (auto simp: name_ends_def word_chars)

lemma css_chars_esc:
  assumes "CHR 0x00 \<notin> set v" "name_ends rest"
  shows "if list_ex css_newline v then \<exists>q. css_chars (esc v @ rest) = Some (BadName, q)
    else css_chars (esc v @ rest) = Some (CssName v, rest)"
  using assms(1)
proof (induction v)
  case Nil
  show ?case by (simp add: esc_Cons css_chars_ends assms(2))
next
  case (Cons c v)
  then have ih: "if list_ex css_newline v then \<exists>q. css_chars (esc v @ rest) = Some (BadName, q)
    else css_chars (esc v @ rest) = Some (CssName v, rest)" by simp
  show ?case
  proof (cases "is_word c \<or> c = CHR ''-''")
    case True
    then have "\<not> css_newline c" "c \<noteq> CHR 0x5C" using newline_no_word word_chars by auto
    with True ih show ?thesis by (auto simp: esc_Cons name_more_def)
  next
    case False
    then have "\<not> is_hex c" using word_chars by blast
    with False ih Cons.prems show ?thesis by (auto simp: esc_Cons name_more_def word_chars)
  qed
qed

lemma starts_esc:
  assumes "name_ends rest" "\<not> list_ex css_newline v"
  shows "starts_name (esc v @ rest) \<longleftrightarrow> v \<noteq> [] \<and> hd v \<noteq> CHR ''-'' \<and> \<not> is_digit (hd v)"
  using assms by (cases v; cases rest) (auto simp: esc_Cons name_ends_def word_chars)

lemma starts_ident_esc:
  assumes "name_ends rest" "\<not> list_ex css_newline v"
  shows "starts_ident (esc v @ rest) \<longleftrightarrow> ident_ok v"
proof (cases v)
  case Nil
  with assms(1) starts_esc [OF assms] show ?thesis by (cases rest) (auto simp: starts_ident_def ident_ok_def esc_Cons name_ends_def)
next
  case (Cons c r)
  show ?thesis
  proof (cases "c = CHR ''-''")
    case True
    have "take 1 (esc r @ rest) = ''-'' \<longleftrightarrow> r \<noteq> [] \<and> hd r = CHR ''-''"
      using assms(1) by (cases r; cases rest) (auto simp: esc_Cons name_ends_def)
    with True Cons assms starts_esc [OF assms(1), of r] show ?thesis
      by (cases r) (auto simp: starts_ident_def ident_ok_def esc_Cons is_digit_def)
  next
    case False
    then have "take 1 (esc v @ rest) \<noteq> ''-''" by (simp add: Cons esc_Cons)
    with starts_esc [OF assms] False assms(2) show ?thesis by (simp add: starts_ident_def ident_ok_def Cons)
  qed
qed

text \<open>
  An escaped name is read back as that name, and the selector goes on after it; unless it starts like a number or has a
  line break: then it is no name, and the browser rejects the selector.
\<close>

lemma name_reads_back:
  assumes "CHR 0x00 \<notin> set v" "name_ends rest"
  shows "if ident_ok v then css_ident (esc v @ rest) = Some (CssName v, rest) else \<exists>q. css_ident (esc v @ rest) = Some (BadName, q)"
proof (cases "list_ex css_newline v")
  case True
  with css_chars_esc [OF assms] show ?thesis by (auto simp: css_ident_def ident_ok_def)
next
  case False
  with css_chars_esc [OF assms] starts_ident_esc [OF assms(2)] show ?thesis by (simp add: css_ident_def)
qed

lemma readable_seg_iff: "plain_seg s \<Longrightarrow> readable_seg s \<longleftrightarrow> list_all ident_ok (seg_names s)"
proof -
  have "(css_ident (esc i) = Some (CssName i, [])) = ident_ok i" if "CHR 0x00 \<notin> set i" for i
    using name_reads_back [OF that, of "[]"] by (auto simp: name_ends_def split: if_splits)
  then show "plain_seg s \<Longrightarrow> ?thesis" unfolding plain_seg_def readable_seg_def list_all_iff by auto
qed

section \<open>An element answers its own selectors\<close>

text \<open>The names on an element's path.\<close>

definition readable_path :: "dom \<Rightarrow> node \<Rightarrow> bool" where
  "readable_path D n \<longleftrightarrow> list_all (\<lambda>s. list_all ident_ok (seg_names s)) (css_up D 8 n)"

context page_dom
begin

lemma attr_query:
  assumes "t = [] \<or> plain_name t" "a \<in> set NAMED_ATTRS" "CHR 0x00 \<notin> set v"
  shows "d_query D r (attr_selector t a v) = (if list_ex css_newline v then None
     else Some (filter (\<lambda>n. (t = [] \<or> d_tag D n = t) \<and> d_attr D n a = Some v) (d_elements D r)))"
  using query_attr [OF assms(1,2)] query_broken [OF assms(1,2)] attribute_value_reads_back [OF assms(3), of "'']''"]
  by (auto simp: attr_selector_def split: if_splits)

lemma index_of_nth: "distinct xs \<Longrightarrow> xs = ys @ x # zs \<Longrightarrow> index_of x xs = length ys"
  by (induction ys arbitrary: xs) auto

lemma nth_of_type_index:
  assumes "plain_page D" "d_parent D n = Some p"
  shows "nth_of_type D n = Suc (index_of n (filter (\<lambda>c. d_tag D c = d_tag D n) (d_children D p)))"
proof -
  let ?P = "\<lambda>c. d_tag D c = d_tag D n"
  from assms(2) obtain xs ys where c: "d_children D p = xs @ n # ys" using parent_child split_list by metis
  have "filter (\<lambda>c. ?P c \<and> d_html D c = d_html D n) xs = filter ?P xs"
  proof (rule filter_cong [OF refl])
    fix c assume "c \<in> set xs"
    then have "c \<in> set (d_children D p)" "n \<in> set (d_children D p)" by (simp_all add: c)
    from plain_pageD(2) [OF assms(1) this] show "(?P c \<and> d_html D c = d_html D n) = ?P c" by blast
  qed
  moreover have "index_of n (filter ?P (d_children D p)) = length (filter ?P xs)"
  proof (rule index_of_nth)
    show "distinct (filter ?P (d_children D p))" by (rule distinct_filter [OF distinct_children])
    show "filter ?P (d_children D p) = filter ?P xs @ n # filter ?P ys" by (simp add: c)
  qed
  ultimately show ?thesis
    unfolding nth_of_type_def siblings [OF c] by (simp add: rev_filter [symmetric])
qed

lemma seg_of_matches: "plain_page D \<Longrightarrow> seg_matches D (seg_of D n) n"
  using set_take_subset [of 2]
  by (auto simp: seg_of_def stableClasses_def Let_def nth_of_type_index split: option.splits dest: in_set_takeD)

lemma own_path_matches: "plain_page D \<Longrightarrow> chain_matches D (css_up D k n) n"
proof (induction k arbitrary: n)
  case (Suc k)
  then show ?case
    by (auto simp: id_attr has_own_id_def seg_of_matches split: option.splits)
qed simp

lemma css_up_plain:
  assumes "plain_page D"
  shows "list_all plain_seg (css_up D k n)"
proof -
  have "CHR 0x00 \<notin> set (d_id D m)" "c \<in> set (d_classes D m) \<Longrightarrow> CHR 0x00 \<notin> set c" for m c
    using plain_pageD(4) [OF assms] by blast+
  then show ?thesis
    by (induction k arbitrary: n)
      (auto simp: seg_of_def stableClasses_def plain_pageD(1) [OF assms] plain_seg_def list_all_iff split: option.splits dest!: in_set_takeD)
qed

lemma css_up_nonempty: "css_up D 8 n \<noteq> []"
  by (simp add: eval_nat_numeral)

lemma path_query:
  assumes "plain_page D"
  shows "d_query D r (cssPath D n) = (if readable_path D n then Some (filter (chain_matches D (css_up D 8 n)) (d_elements D r)) else None)"
proof -
  have "list_all readable_seg (css_up D 8 n) = readable_path D n"
    using css_up_plain [OF assms, of 8 n] readable_seg_iff unfolding readable_path_def list_all_iff by blast
  with query_path [OF css_up_nonempty [of n] css_up_plain [OF assms], of r] show ?thesis by (simp add: cssPath_def)
qed

lemma id_query:
  assumes "plain_page D"
  shows "d_query D r (''#'' @ esc (d_id D n)) = (if readable_seg (ById (d_id D n))
     then Some (filter (\<lambda>m. d_attr D m ''id'' = Some (d_id D n)) (d_elements D r)) else None)"
proof -
  have "chain_matches D [ById (d_id D n)] = (\<lambda>m. d_attr D m ''id'' = Some (d_id D n))" by (rule ext) simp
  with query_path [of "[ById (d_id D n)]" r] plain_pageD(4) [OF assms, of "d_id D n" n] show ?thesis by (simp add: path_text_def plain_seg_def)
qed

text \<open>Whatever is written for an element, if it can be asked at all, the element is among the answers.\<close>

lemma selector_matches:
  assumes plain: "plain_page D" and r: "n \<in> set (d_elements D r)"
    and s: "s \<in> snd ` set (candidates D n) \<or> s = cssPath D n" and q: "d_query D r s = Some ns"
  shows "n \<in> set ns"
proof -
  have nul: "attr_set D n a = Some v \<Longrightarrow> a \<in> set NAMED_ATTRS \<Longrightarrow> CHR 0x00 \<notin> set v \<and> d_attr D n a = Some v" for a v
    using plain_pageD(3) [OF plain] unfolding attr_set_def by (auto split: option.splits if_splits)
  consider a v where "s = attr_selector [] a v" "attr_set D n a = Some v" "a \<in> set NAMED_ATTRS"
    | a v where "s = attr_selector (d_tag D n) a v" "attr_set D n a = Some v" "a \<in> set NAMED_ATTRS"
    | "s = ''#'' @ esc (d_id D n)" "has_own_id D n" | "s = cssPath D n"
    using s unfolding candidates_def testid_selectors_def named_selector_def
    by (auto simp: NAMED_ATTRS_def split: option.splits if_splits)
  then show ?thesis
  proof cases
    case 1
    with nul q r attr_query [of "[]"] show ?thesis by (auto split: if_splits)
  next
    case 2
    with plain_pageD(1) [OF plain, of n] nul q r attr_query [of "d_tag D n"] show ?thesis by (auto split: if_splits)
  next
    case 3
    with q r id_attr id_query [OF plain] show ?thesis by (auto simp: has_own_id_def split: if_splits)
  next
    case 4
    with q r own_path_matches [OF plain] show ?thesis by (auto simp: path_query [OF plain] split: if_splits)
  qed
qed

end

section \<open>An annotation finds its element again\<close>

lemma find_SomeD: "find P xs = Some x \<Longrightarrow> x \<in> set xs \<and> P x"
  by (induction xs) (auto split: if_splits)

lemma choose_selector_ok:
  assumes "choose_selector D n = (kind, sel, uniq)"
  shows "(sel \<in> snd ` set (candidates D n) \<or> sel = cssPath D n) \<and> (uniq \<longrightarrow> unique D (d_root D n) sel)"
proof (cases "find (\<lambda>c. unique D (d_root D n) (snd c)) (candidates D n)")
  case None
  with assms show ?thesis by (auto simp: choose_selector_def Let_def split: list.splits if_splits)
next
  case (Some c)
  with assms find_SomeD [OF Some] show ?thesis by (cases c) (force simp: choose_selector_def)
qed

lemma selector_known: "fp_selector (selectorsFor D n) \<in> snd ` set (candidates D n) \<or> fp_selector (selectorsFor D n) = cssPath D n"
  and selector_unique: "fp_unique (selectorsFor D n) \<Longrightarrow> unique D (d_root D n) (fp_selector (selectorsFor D n))"
  using choose_selector_ok [of D n] by (cases "choose_selector D n"; simp add: selectorsFor_def)+

lemma other_selectors: "fp_css (selectorsFor D n) = cssPath D n"
  "fp_testid (selectorsFor D n) = concat (take 1 (testid_selectors D n))" "fp_aria (selectorsFor D n) = concat (named_selector D n ''aria-label'')"
  by (simp_all add: selectorsFor_def case_prod_beta)

lemma testid_known: "fp_testid (selectorsFor D n) = [] \<or> fp_testid (selectorsFor D n) \<in> snd ` set (candidates D n)"
  unfolding other_selectors candidates_def by (cases "testid_selectors D n") auto

lemma aria_known: "fp_aria (selectorsFor D n) = [] \<or> fp_aria (selectorsFor D n) \<in> snd ` set (candidates D n)"
  unfolding other_selectors candidates_def named_selector_def by (auto split: option.splits)

text \<open>The selectors of a record are within the bounds of the store.\<close>

definition selectors_fit :: "dom \<Rightarrow> node \<Rightarrow> bool" where
  "selectors_fit D n \<longleftrightarrow> (let s = selectorsFor D n in length (fp_selector s) \<le> 600 \<and> length (fp_css s) \<le> 600
     \<and> length (fp_testid s) \<le> 200 \<and> length (fp_aria s) \<le> 200)"

lemma clip_fits: "length s \<le> mx \<Longrightarrow> clip (Str s) mx = s"
  by (simp add: clip_def nullish_def)

definition tries_of :: "dom \<Rightarrow> node \<Rightarrow> (string \<times> jsval) list" where
  "tries_of D n = (let s = selectorsFor D n in [(''selector'', Str (fp_selector s)), (''testid'', Str (fp_testid s)),
     (''aria'', Str (fp_aria s)), (''css'', Str (fp_css s))])"

lemma describe_object: "object_or_empty (describe D n) = describe D n"
  "object_or_empty (getp ''selectors'' (describe D n)) = getp ''selectors'' (describe D n)"
  by (simp_all add: object_or_empty_def describe_def Let_def is_object_def getp_Obj)

lemma xpath_recorded:
  assumes "length (xpathOf D n) \<le> 600"
  shows "getp ''xpath'' (getp ''selectors'' (element_json (sanitizeElement (describe D n)))) = Str (xpathOf D n)"
  using clip_fits [OF assms]
  by (simp add: element_json_def getp_Obj sanitizeElement_def describe_object Let_def wire_selectors_def)
    (simp add: describe_def Let_def getp_Obj selectorsFor_def case_prod_beta)

lemma lookup_record:
  assumes "selectors_fit D n" and "is_object input" "getp ''element'' input = describe D n"
  defines "e \<equiv> element_json (sanitizeElement (describe D n))"
  shows "lookup D (record_json (makeRecord K seq input tabId session now)) = (case first_hit (try_selector D e) (tries_of D n) of Some h \<Rightarrow> h
    | None \<Rightarrow> (case try_xpath D e of Some h \<Rightarrow> h | None \<Rightarrow> (case try_text D e of Some h \<Rightarrow> h | None \<Rightarrow> no_hit)))"
proof -
  have e: "js_or (getp ''element'' (record_json (makeRecord K seq input tabId session now))) (Obj []) = e"
    using assms(2,3) by (simp add: e_def record_json_def getp_Obj makeRecord_def Let_def object_or_empty_def js_or_def element_json_def truthy_def)
  have t: "[(''selector'', getp ''selector'' e), (''testid'', getp ''testid'' (getp ''selectors'' e)),
      (''aria'', getp ''aria'' (getp ''selectors'' e)), (''css'', getp ''css'' (getp ''selectors'' e))] = tries_of D n"
    using assms(1) unfolding selectors_fit_def Let_def
    by (simp add: e_def element_json_def getp_Obj sanitizeElement_def describe_object Let_def wire_selectors_def tries_of_def)
      (simp add: describe_def Let_def getp_Obj clip_fits)
  show ?thesis
    unfolding lookup_def Let_def e t by simp
qed

lemma lookup_stored:
  assumes "selectors_fit D n" and "is_object input" "getp ''element'' input = describe D n"
    and "first_hit (try_selector D (element_json (sanitizeElement (describe D n)))) (tries_of D n) = Some h"
  shows "lookup D (record_json (makeRecord K seq input tabId session now)) = h"
  by (simp add: lookup_record [OF assms(1-3)] assms(4))

text \<open>What a hit says: the element is among the matches, and is the one named if there is no other.\<close>

definition names_or_many :: "node \<Rightarrow> hit \<Rightarrow> bool" where
  "names_or_many n h \<longleftrightarrow> hit_el h \<noteq> None \<and> (hit_matches h = 1 \<longrightarrow> hit_el h = Some n)"

lemma chosen_names: "n \<in> set ns \<Longrightarrow> \<exists>h. chosen D e strategy sel ns = Some h \<and> names_or_many n h"
  by (cases ns rule: list.exhaust [case_product list.exhaust [of "tl ns"]])
    (auto simp: chosen_def names_or_many_def Let_def split: list.splits)

lemma first_hitI: "x \<in> set xs \<Longrightarrow> f x \<noteq> None \<Longrightarrow> (\<And>y h. y \<in> set xs \<Longrightarrow> f y = Some h \<Longrightarrow> P h) \<Longrightarrow> \<exists>h. first_hit f xs = Some h \<and> P h"
proof (induction xs)
  case (Cons y ys)
  then show ?case by (cases "f y") auto
qed simp

context page_dom
begin

lemma document_query:
  assumes "plain_page D" "n \<in> set (d_elements D Document)" "s \<in> snd ` set (candidates D n) \<or> s = cssPath D n"
    and "try_selector D e (strategy, Str s) = Some h"
  shows "names_or_many n h"
proof -
  from assms(4) obtain ns where ns: "d_query D Document s = Some ns" by (auto simp: try_selector_def Let_def split: if_splits option.splits)
  then have "n \<in> set ns" by (rule selector_matches [OF assms(1-3)])
  with chosen_names [OF this, of D e strategy s] assms(4) ns show ?thesis
    by (auto simp: try_selector_def Let_def split: if_splits)
qed

lemma cssPath_nonempty: "plain_page D \<Longrightarrow> cssPath D n \<noteq> []"
proof
  assume p: "plain_page D" and "cssPath D n = []"
  obtain s ss where c: "css_up D 8 n = ss @ [s]" using css_up_nonempty [of n] by (metis rev_exhaust)
  have "join_with '' > '' (seg_text s # xs) \<noteq> []" if "seg_text s \<noteq> []" for xs using that by (cases xs) auto
  moreover have "seg_text s \<noteq> []"
    using css_up_plain [OF p, of 8 n] by (cases s) (auto simp: c plain_seg_def plain_name_def)
  ultimately show False using \<open>cssPath D n = []\<close> by (simp add: cssPath_def path_text_def c)
qed

lemma lookup_names:
  assumes "plain_page D" "n \<in> set (d_elements D Document)" "readable_path D n"
  shows "\<exists>h. first_hit (try_selector D e) (tries_of D n) = Some h \<and> names_or_many n h"
proof (rule first_hitI [where x = "(''css'', Str (fp_css (selectorsFor D n)))"])
  show "(''css'', Str (fp_css (selectorsFor D n))) \<in> set (tries_of D n)" by (simp add: tries_of_def Let_def)
  obtain ns where q: "d_query D Document (cssPath D n) = Some ns" and n: "n \<in> set ns"
    using path_query [OF assms(1)] selector_matches [OF assms(1,2), of "cssPath D n"] assms(3) by (metis (no_types))
  with chosen_names [OF n, of D e "''css''" "cssPath D n"] cssPath_nonempty [OF assms(1), of n]
  show "try_selector D e (''css'', Str (fp_css (selectorsFor D n))) \<noteq> None"
    by (auto simp: try_selector_def other_selectors truthy_def Let_def)
next
  fix y h assume y: "y \<in> set (tries_of D n)" "try_selector D e y = Some h"
  then obtain strategy s where s: "y = (strategy, Str s)"
      "s = fp_selector (selectorsFor D n) \<or> s = fp_testid (selectorsFor D n) \<or> s = fp_aria (selectorsFor D n) \<or> s = cssPath D n"
    by (auto simp: tries_of_def Let_def other_selectors)
  with y(2) have "s \<noteq> []" by (auto simp: try_selector_def truthy_def)
  with s(2) have "s \<in> snd ` set (candidates D n) \<or> s = cssPath D n"
    using selector_known [of D n] testid_known [of D n] aria_known [of D n] by auto
  from document_query [OF assms(1,2) this] y(2) s(1) show "names_or_many n h" by blast
qed

end

lemma unique_element_found:
  assumes "page_dom D" "plain_page D" "n \<in> set (d_elements D Document)" "selectors_fit D n" "fp_unique (selectorsFor D n)"
    and "is_object input" "getp ''element'' input = describe D n"
  shows "lookup D (record_json (makeRecord K seq input tabId session now)) = \<lparr>hit_el = Some n, hit_strategy = ''selector'',
    hit_matches = 1, hit_selector = fp_selector (selectorsFor D n), hit_ambiguous = False\<rparr>"
proof (rule lookup_stored [OF assms(4,6,7)])
  let ?e = "element_json (sanitizeElement (describe D n))" and ?s = "fp_selector (selectorsFor D n)"
  have "d_root D n = Document" by (rule page_dom.in_root [OF assms(1,3)])
  with selector_unique [OF assms(5)] obtain m where q: "d_query D Document ?s = Some [m]"
    by (auto simp: unique_def length_Suc_conv split: option.splits)
  with page_dom.selector_matches [OF assms(1-3) selector_known q] have q: "d_query D Document ?s = Some [n]" by simp
  have "?s \<noteq> []"
    using selector_known [of D n] page_dom.cssPath_nonempty [OF assms(1,2), of n]
    by (auto simp: candidates_def testid_selectors_def named_selector_def attr_selector_def split: option.splits if_splits)
  with q show "first_hit (try_selector D ?e) (tries_of D n) = Some \<lparr>hit_el = Some n, hit_strategy = ''selector'', hit_matches = 1,
      hit_selector = ?s, hit_ambiguous = False\<rparr>"
    by (simp add: tries_of_def Let_def try_selector_def truthy_def chosen_def)
qed


section \<open>What an XPath finds\<close>

lemma ups_parent: "ups D (Suc k) n = (case ups D k n of None \<Rightarrow> None | Some m \<Rightarrow> d_parent D m)"
proof (induction k arbitrary: n)
  case 0
  show ?case by (simp split: option.splits)
next
  case (Suc k)
  show ?case
  proof (cases "d_parent D n")
    case (Some p)
    then have "ups D (Suc (Suc k)) n = ups D (Suc k) p" "ups D (Suc k) n = ups D k p" by simp_all
    with Suc [of p] show ?thesis by presburger
  qed simp
qed

lemma ups_beyond: "ups D k n = None \<Longrightarrow> k \<le> j \<Longrightarrow> ups D j n = None"
  by (induction j) (auto simp: ups_parent le_Suc_eq simp del: ups.simps(2))

lemma follow_snoc: "ss \<noteq> [] \<Longrightarrow> follow D (ss @ [s]) ns = (case follow D ss ns of None \<Rightarrow> None | Some c \<Rightarrow> pick D s (d_children D c))"
proof (induction ss arbitrary: ns)
  case (Cons t ts)
  then show ?case by (cases "ts = []") (auto split: option.splits)
qed simp

lemma pick_html:
  assumes "pick D s ns = Some c"
  shows "c \<in> set ns \<and> d_html D c"
proof -
  let ?m = "filter (\<lambda>c. d_html D c \<and> d_tag D c = fst s) ns"
  from assms have "c = ?m ! (snd s - 1)" "snd s - 1 < length ?m" by (auto simp: pick_def Let_def split: if_splits)
  then have "c \<in> set ?m" by (metis nth_mem)
  then show ?thesis by simp
qed

lemma xp_up_length: "length (xp_up D k n) \<le> k" "k \<noteq> 0 \<Longrightarrow> xp_up D k n \<noteq> []"
  by (induction k arbitrary: n) (auto split: option.splits)

context page_dom
begin

text \<open>An XPath of so many steps leads no further down.\<close>

lemma follow_up:
  assumes "follow D ss ns = Some c"
  shows "\<exists>b \<in> set ns. ups D (length ss - 1) c = Some b \<and> (\<forall>k < length ss. \<forall>m. ups D k c = Some m \<longrightarrow> d_html D m)"
  using assms
proof (induction ss arbitrary: ns)
  case (Cons s ss)
  then obtain c0 where c0: "pick D s ns = Some c0" by (auto split: option.splits)
  with pick_html have h: "c0 \<in> set ns" "d_html D c0" by blast+
  show ?case
  proof (cases "ss = []")
    case True
    with Cons c0 h show ?thesis by auto
  next
    case False
    with Cons c0 have "follow D ss (d_children D c0) = Some c" by simp
    from Cons.IH [OF this] obtain b where b: "b \<in> set (d_children D c0)" "ups D (length ss - 1) c = Some b"
      "\<forall>k < length ss. \<forall>m. ups D k c = Some m \<longrightarrow> d_html D m" by blast
    then have up: "ups D (length ss) c = Some c0"
      using False parent_child [of b c0] ups_parent [of D "length ss - 1" c] by simp
    with b(3) h show ?thesis by (auto simp: less_Suc_eq)
  qed
qed simp

lemma step_picks:
  assumes "plain_page D" "d_parent D n = Some p" "d_html D n"
  shows "pick D (xp_step D n) (d_children D p) = Some n"
proof -
  let ?P = "\<lambda>c. d_tag D c = d_tag D n"
  from assms(2) obtain xs ys where c: "d_children D p = xs @ n # ys" using parent_child split_list by metis
  have "filter (\<lambda>c. d_html D c \<and> ?P c) (d_children D p) = filter ?P (d_children D p)"
  proof (rule filter_cong [OF refl])
    fix m assume "m \<in> set (d_children D p)"
    from plain_pageD(2) [OF assms(1) this, of n] assms(3) show "(d_html D m \<and> ?P m) = ?P m" by (auto simp: c)
  qed
  also have "\<dots> = filter ?P xs @ n # filter ?P ys" by (simp add: c)
  finally show ?thesis
    unfolding pick_def xp_step_def siblings [OF c] by (simp add: rev_filter [symmetric] Let_def nth_append)
qed

lemma follow_own:
  assumes "plain_page D"
  shows "d_root D n = Document \<Longrightarrow> ups D k n = None \<Longrightarrow> (\<forall>j m. ups D j n = Some m \<longrightarrow> d_html D m)
    \<Longrightarrow> follow D (xp_up D k n) [d_top D] = Some n"
proof (induction k arbitrary: n)
  case (Suc k)
  have n: "d_html D n" using Suc.prems(3) [rule_format, of 0 n] by simp
  show ?case
  proof (cases "d_parent D n")
    case None
    with one_top [OF Suc.prems(1)] have "n = d_top D" by blast
    with None n show ?thesis by (simp add: pick_def xp_step_def alone)
  next
    case (Some p)
    have "ups D k p = None" using Suc.prems(2) Some by simp
    moreover have "\<forall>j m. ups D j p = Some m \<longrightarrow> d_html D m"
      using Suc.prems(3) Some by (metis option.simps(5) ups.simps(2))
    moreover have "d_root D p = Document" using same_root [OF Some] Suc.prems(1) by simp
    ultimately have p: "follow D (xp_up D k p) [d_top D] = Some p" by (intro Suc.IH)
    then have "xp_up D k p \<noteq> []" by auto
    with p Some step_picks [OF assms Some n] show ?thesis by (simp add: follow_snoc)
  qed
qed simp

lemma xpath_result:
  assumes "plain_page D" "d_root D n = Document"
  shows "d_evaluate D (xpathOf D n) = Some (follow D (xp_up D 12 n) [d_top D])"
proof -
  have "list_all (\<lambda>x. plain_name (fst x)) (xp_up D k m)" for k m
    by (induction k arbitrary: m) (auto simp: xp_step_def plain_pageD(1) [OF assms(1)] split: option.splits)
  then show ?thesis unfolding xpathOf_def using assms(2) by (simp add: evaluates xp_up_length)
qed

end




end
