(* ===== verification/SamplePage.thy ===== *)
theory SamplePage
  imports FingerprintProps
begin

text \<open>
  Pages given by a table of elements, with a query engine that reads the selectors and paths the annotator writes: they
  meet \<open>page_dom\<close>, and the properties are applied to one of them.
\<close>

section \<open>Reading selectors\<close>

definition name_char :: "char \<Rightarrow> bool" where
  "name_char c \<longleftrightarrow> is_digit c \<or> (97 \<le> code_of c \<and> code_of c \<le> 122) \<or> c = CHR ''-''"

definition read_name :: "string \<Rightarrow> string \<times> string" where
  "read_name s = (takeWhile name_char s, dropWhile name_char s)"

definition read_digits :: "string \<Rightarrow> nat \<times> string" where
  "read_digits s = (nat_of_digits (takeWhile is_digit s), dropWhile is_digit s)"

definition read_nth :: "string \<Rightarrow> (nat option \<times> string) option" where
  "read_nth s = (if take 13 s = '':nth-of-type('' then
       (case read_digits (drop 13 s) of (k, r) \<Rightarrow> if take 1 r = '')'' then Some (Some k, drop 1 r) else None)
     else Some (None, s))"

fun read_classes :: "nat \<Rightarrow> string \<Rightarrow> (string list \<times> string) option" where
  "read_classes 0 s = None"
| "read_classes (Suc j) s = (if take 1 s \<noteq> ''.'' then Some ([], s)
     else case css_ident (drop 1 s) of
         Some (CssName c, r) \<Rightarrow> map_option (\<lambda>(cs, q). (c # cs, q)) (read_classes j r)
       | _ \<Rightarrow> None)"

definition read_seg :: "string \<Rightarrow> (seg \<times> string) option" where
  "read_seg s = (if take 1 s = ''#'' then (case css_ident (drop 1 s) of Some (CssName i, r) \<Rightarrow> Some (ById i, r) | _ \<Rightarrow> None)
     else case read_name s of (t, r) \<Rightarrow>
       if t = [] then None
       else case read_classes (Suc (length r)) r of None \<Rightarrow> None
         | Some (cs, q) \<Rightarrow> map_option (\<lambda>(k, u). (ByTag t cs k, u)) (read_nth q))"

fun read_path :: "nat \<Rightarrow> string \<Rightarrow> seg list option" where
  "read_path 0 s = None"
| "read_path (Suc k) s = (case read_seg s of None \<Rightarrow> None
     | Some (x, r) \<Rightarrow> if r = [] then Some [x] else if take 3 r = '' > '' then map_option (Cons x) (read_path k (drop 3 r)) else None)"

definition read_attr :: "string \<Rightarrow> (string \<times> string \<times> css_token) option" where
  "read_attr s = (case read_name s of (t, r) \<Rightarrow>
     if take 1 r \<noteq> ''['' then None
     else let a = takeWhile (\<lambda>c. c \<noteq> CHR ''='') (drop 1 r); q = dropWhile (\<lambda>c. c \<noteq> CHR ''='') (drop 1 r)
       in case css_string (drop 2 q) of None \<Rightarrow> None | Some (tok, _) \<Rightarrow> Some (t, a, tok))"

fun read_steps :: "nat \<Rightarrow> string \<Rightarrow> (string \<times> nat) list option" where
  "read_steps 0 s = None"
| "read_steps (Suc k) s = (if s = [] then Some []
     else case read_name (drop 1 s) of (t, r) \<Rightarrow> (case read_digits (drop 1 r) of (i, q) \<Rightarrow>
       map_option (Cons (t, i)) (read_steps k (drop 1 q))))"

lemma plain_name_chars: "plain_name t \<Longrightarrow> t \<noteq> [] \<and> (\<forall>c \<in> set t. name_char c)"
  by (auto simp: plain_name_def name_char_def)

lemma read_name_plain: "\<forall>c \<in> set t. name_char c \<Longrightarrow> s = [] \<or> \<not> name_char (hd s) \<Longrightarrow> read_name (t @ s) = (t, s)"
  by (cases s) (auto simp: read_name_def takeWhile_append2 dropWhile_append2)

lemma read_name_all: "\<forall>c \<in> set t. name_char c \<Longrightarrow> read_name t = (t, [])"
  using read_name_plain [of t "[]"] by simp

lemma read_digits_show:
  assumes "s = [] \<or> \<not> is_digit (hd s)"
  shows "read_digits (show_nat k @ s) = (k, s)"
proof -
  have d: "\<And>c. c \<in> set (show_nat k) \<Longrightarrow> is_digit c" using show_nat_digits [of k] by blast
  then have w: "takeWhile is_digit (show_nat k) = show_nat k" "dropWhile is_digit (show_nat k) = []" by simp_all
  from assms show ?thesis
    by (cases s) (auto simp: read_digits_def takeWhile_append2 [OF d] dropWhile_append2 [OF d] w)
qed

lemma marks: "\<not> name_char (CHR ''#'')" "\<not> name_char (CHR ''.'')" "\<not> name_char (CHR '':'')" "\<not> name_char (CHR '' '')" "\<not> name_char (CHR ''['')"
  "\<not> is_digit (CHR '')'')" "\<not> is_digit (CHR '']'')"
  by (simp_all add: name_char_def is_digit_def)

lemma read_nth_text:
  assumes "tail = [] \<or> hd tail = CHR '' ''"
  shows "read_nth ((case k of None \<Rightarrow> [] | Some k \<Rightarrow> '':nth-of-type('' @ show_nat k @ '')'') @ tail) = Some (k, tail)"
proof (cases k)
  case None
  have "take 13 tail \<noteq> '':nth-of-type(''" using assms by (cases tail) auto
  then show ?thesis by (simp add: read_nth_def None)
next
  case (Some i)
  have "read_digits (show_nat i @ '')'' @ tail) = (i, '')'' @ tail)" by (rule read_digits_show) (simp add: marks)
  then show ?thesis by (simp add: read_nth_def Some)
qed

definition class_text :: "string list \<Rightarrow> string" where
  "class_text cs = concat (map (\<lambda>c. CHR ''.'' # esc c) cs)"

lemma class_text_Cons [simp]: "class_text (c # cs) = CHR ''.'' # esc c @ class_text cs" "class_text [] = []"
  by (simp_all add: class_text_def)

lemma class_text_joined: "(if cs = [] then [] else ''.'' @ join_with ''.'' (map esc cs)) = class_text cs"
proof (induction cs)
  case (Cons c cs)
  then show ?case by (cases cs) auto
qed simp

text \<open>What follows a class: another, the position, the next compound, or nothing.\<close>

lemma read_classes_text:
  assumes "\<forall>c \<in> set cs. CHR 0x00 \<notin> set c" "rest = [] \<or> hd rest \<in> {CHR '':'', CHR '' ''}" "length cs < j"
  shows "read_classes j (class_text cs @ rest) = (if list_all ident_ok cs then Some (cs, rest) else None)"
  using assms(1,3)
proof (induction cs arbitrary: j)
  case Nil
  then obtain i where j: "j = Suc i" by (cases j) auto
  have "take 1 rest \<noteq> ''.''" using assms(2) by (cases rest) auto
  then show ?case by (simp add: j)
next
  case (Cons c cs)
  then obtain i where j: "j = Suc i" by (cases j) auto
  have "name_ends (class_text cs @ rest)" using assms(2) by (cases cs) (auto simp: name_ends_def)
  with Cons.prems(1) name_reads_back [of c "class_text cs @ rest"] Cons.IH [of i] Cons.prems(2) show ?case
    by (auto simp: j split: if_splits)
qed

lemma class_text_length: "length cs \<le> length (class_text cs)"
  by (induction cs) auto

text \<open>A compound is read back exactly if all its names are.\<close>

lemma read_seg_text:
  assumes "plain_seg x" "tail = [] \<or> take 3 tail = '' > ''"
  shows "read_seg (seg_text x @ tail) = (if list_all ident_ok (seg_names x) then Some (x, tail) else None)"
proof -
  have tail: "tail = [] \<or> hd tail = CHR '' ''" using assms(2) by (cases tail) auto
  show ?thesis
  proof (cases x)
    case (ById i)
    with assms(1) have "CHR 0x00 \<notin> set i" by (simp add: plain_seg_def)
    moreover have "name_ends tail" using tail by (auto simp: name_ends_def)
    ultimately show ?thesis using name_reads_back [of i tail] by (auto simp: ById read_seg_def split: if_splits)
  next
    case (ByTag t cs k)
    with assms(1) plain_name_chars have t: "t \<noteq> []" "\<forall>c \<in> set t. name_char c" and cs: "\<forall>c \<in> set cs. CHR 0x00 \<notin> set c"
      by (auto simp: plain_seg_def list_all_iff)
    define nth where "nth = (case k of None \<Rightarrow> [] | Some k \<Rightarrow> '':nth-of-type('' @ show_nat k @ '')'')"
    have u: "seg_text x @ tail = t @ (class_text cs @ (nth @ tail))"
      by (simp add: ByTag nth_def class_text_joined)
    have h: "take 1 (t @ (class_text cs @ (nth @ tail))) \<noteq> ''#''"
      using t by (cases t) (auto simp: marks)
    have e: "nth @ tail = [] \<or> hd (nth @ tail) \<in> {CHR '':'', CHR '' ''}" using tail by (auto simp: nth_def split: option.splits)
    then have "class_text cs @ (nth @ tail) = [] \<or> \<not> name_char (hd (class_text cs @ (nth @ tail)))"
      using marks by (cases cs) auto
    then have "read_name (t @ (class_text cs @ (nth @ tail))) = (t, class_text cs @ (nth @ tail))" by (rule read_name_plain [OF t(2)])
    moreover have "read_classes (Suc (length (class_text cs @ (nth @ tail)))) (class_text cs @ (nth @ tail))
        = (if list_all ident_ok cs then Some (cs, nth @ tail) else None)"
      using class_text_length [of cs] by (intro read_classes_text [OF cs e]) simp
    moreover have "read_nth (nth @ tail) = Some (k, tail)" unfolding nth_def by (rule read_nth_text [OF tail])
    ultimately show ?thesis
      unfolding u read_seg_def if_not_P [OF h] using t(1) by (simp add: ByTag del: read_classes.simps)
  qed
qed

lemma read_path_text:
  assumes "xs \<noteq> []" "list_all plain_seg xs" "length xs \<le> k"
  shows "read_path k (join_with '' > '' (map seg_text xs)) = (if list_all (\<lambda>x. list_all ident_ok (seg_names x)) xs then Some xs else None)"
  using assms
proof (induction xs arbitrary: k)
  case (Cons x xs)
  then obtain j where k: "k = Suc j" by (cases k) auto
  show ?case
  proof (cases xs)
    case Nil
    with Cons.prems read_seg_text [of x "[]"] show ?thesis by (auto simp: k)
  next
    case (Cons y ys)
    let ?rest = "join_with '' > '' (map seg_text xs)"
    have ih: "read_path j ?rest = (if list_all (\<lambda>x. list_all ident_ok (seg_names x)) xs then Some xs else None)"
      using Cons Cons.prems Cons.IH [of j] by (simp add: k)
    have j: "join_with '' > '' (map seg_text (x # xs)) = seg_text x @ ('' > '' @ ?rest)" by (simp add: Cons)
    show ?thesis
      using Cons.prems read_seg_text [of x "'' > '' @ ?rest"] unfolding k j read_path.simps by (simp add: ih)
  qed
qed simp

lemma name_not_slash: "\<not> name_char (CHR ''/'')"
  by (simp add: name_char_def is_digit_def)

lemma read_steps_text:
  assumes "list_all (\<lambda>x. plain_name (fst x)) xs" "length xs < k"
  shows "read_steps k (concat (map (\<lambda>(t, i). ''/'' @ t @ ''['' @ show_nat i @ '']'') xs)) = Some xs"
  using assms
proof (induction xs arbitrary: k)
  case Nil
  then show ?case by (cases k) auto
next
  case (Cons x xs)
  obtain t i where x: "x = (t, i)" by (cases x)
  from Cons.prems obtain j where k: "k = Suc j" by (cases k) auto
  let ?rest = "concat (map (\<lambda>(t, i). ''/'' @ t @ ''['' @ show_nat i @ '']'') xs)"
  have t: "\<forall>c \<in> set t. name_char c" using Cons.prems(1) plain_name_chars [of t] by (simp add: x)
  have "read_name (t @ (''['' @ show_nat i @ '']'' @ ?rest)) = (t, ''['' @ show_nat i @ '']'' @ ?rest)"
    by (rule read_name_plain [OF t]) (simp add: marks)
  moreover have "read_digits (show_nat i @ ('']'' @ ?rest)) = (i, '']'' @ ?rest)"
    by (rule read_digits_show) (simp add: marks)
  ultimately show ?case using Cons by (simp add: x k)
qed

lemma xp_text_concat: "ss \<noteq> [] \<Longrightarrow> xp_text ss = concat (map (\<lambda>(t, i). ''/'' @ t @ ''['' @ show_nat i @ '']'') ss)"
proof (induction ss rule: list_nonempty_induct)
  case (cons x xs)
  then show ?case by (cases xs; cases x) (auto simp: xp_text_def)
qed (auto simp: xp_text_def)

section \<open>Pages from tables\<close>

record sample_el =
  se_tag :: string
  se_html :: bool
  se_attrs :: "(string \<times> string) list"
  se_parent :: "node option"
  se_root :: dom_root
  se_text :: string

definition outside :: "node \<Rightarrow> sample_el" where
  "outside n = \<lparr>se_tag = ''div'', se_html = True, se_attrs = [], se_parent = None, se_root = DetachedFrom n, se_text = []\<rparr>"

definition el_at :: "sample_el list \<Rightarrow> node \<Rightarrow> sample_el" where
  "el_at T n = (if n < length T then T ! n else outside n)"

definition kids :: "sample_el list \<Rightarrow> node \<Rightarrow> node list" where
  "kids T p = filter (\<lambda>n. se_parent (el_at T n) = Some p) [0..<length T]"

definition elder :: "sample_el list \<Rightarrow> node \<Rightarrow> node list" where
  "elder T n = (case se_parent (el_at T n) of None \<Rightarrow> [] | Some p \<Rightarrow> rev (takeWhile (\<lambda>c. c \<noteq> n) (kids T p)))"

definition members :: "sample_el list \<Rightarrow> dom_root \<Rightarrow> node list" where
  "members T r = filter (\<lambda>n. se_root (el_at T n) = r) [0..<length T]"

definition attr_value :: "sample_el list \<Rightarrow> node \<Rightarrow> string \<Rightarrow> string" where
  "attr_value T n a = (case map_of (se_attrs (el_at T n)) a of Some v \<Rightarrow> v | None \<Rightarrow> [])"

text \<open>Everything of the page but its query engine.\<close>

definition bare_page :: "sample_el list \<Rightarrow> dom" where
  "bare_page T = \<lparr>d_tag = (\<lambda>n. se_tag (el_at T n)), d_html = (\<lambda>n. se_html (el_at T n)), d_attr = (\<lambda>n. map_of (se_attrs (el_at T n))),
     d_id = (\<lambda>n. attr_value T n ''id''), d_classes = (\<lambda>n. filter (\<lambda>w. w \<noteq> []) (split_ws (attr_value T n ''class''))), d_parent = (\<lambda>n. se_parent (el_at T n)), d_children = kids T, d_before = elder T,
     d_root = (\<lambda>n. se_root (el_at T n)), d_shadow = (\<lambda>n. members T (ShadowOf n) \<noteq> []), d_labels = (\<lambda>_. []),
     d_text = (\<lambda>n. se_text (el_at T n)), d_content = (\<lambda>n. se_text (el_at T n)), d_value = (\<lambda>_. Undef),
     d_rect = (\<lambda>_. \<lparr>rect_x = 0, rect_y = 0, rect_w = 10, rect_h = 10\<rparr>), d_connected = (\<lambda>n. n < length T), d_top = 0,
     d_elements = members T, d_query = (\<lambda>_ _. None), d_by_id = (\<lambda>_ _. None), d_by_tag = (\<lambda>_. []), d_evaluate = (\<lambda>_. None),
     d_scroll = (0, 0), d_window = (800, 600), d_ratio = 1, d_card = (320, 220), d_url = ''https://a.b/c'', d_title = ''A'', d_is_top = True\<rparr>"

definition sample_query :: "sample_el list \<Rightarrow> dom_root \<Rightarrow> string \<Rightarrow> node list option" where
  "sample_query T r s =
     (if s = ''*'' then Some (members T r)
      else case read_attr s of
          Some (t, a, CssString v) \<Rightarrow> Some (filter (\<lambda>n. (t = [] \<or> se_tag (el_at T n) = t) \<and> map_of (se_attrs (el_at T n)) a = Some v) (members T r))
        | Some (t, a, BadString) \<Rightarrow> None
        | None \<Rightarrow> map_option (\<lambda>xs. filter (chain_matches (bare_page T) (rev xs)) (members T r)) (read_path (length s) s))"

definition sample_evaluate :: "sample_el list \<Rightarrow> string \<Rightarrow> node option option" where
  "sample_evaluate T s = map_option (\<lambda>ss. follow (bare_page T) ss [0]) (read_steps (Suc (length s)) s)"

definition page_of :: "sample_el list \<Rightarrow> dom" where
  "page_of T = (bare_page T)\<lparr>d_query := sample_query T, d_evaluate := sample_evaluate T\<rparr>"

text \<open>The tables that are pages: one top, parents in the same tree.\<close>

definition table_ok :: "sample_el list \<Rightarrow> bool" where
  "table_ok T \<longleftrightarrow> T \<noteq> [] \<and> se_parent (hd T) = None
     \<and> list_all (\<lambda>n. (case se_parent (T ! n) of None \<Rightarrow> se_root (T ! n) = Document \<longrightarrow> n = 0
           | Some p \<Rightarrow> p < length T \<and> se_root (T ! n) = se_root (T ! p))) [0..<length T]"

lemma page_fields: "d_tag (page_of T) = d_tag (bare_page T)" "d_html (page_of T) = d_html (bare_page T)" "d_attr (page_of T) = d_attr (bare_page T)"
  "d_classes (page_of T) = d_classes (bare_page T)" "d_parent (page_of T) = d_parent (bare_page T)" "d_children (page_of T) = kids T" "d_children (bare_page T) = kids T"
  "d_before (page_of T) = elder T" "d_query (page_of T) = sample_query T" "d_evaluate (page_of T) = sample_evaluate T"
  "d_id (page_of T) n = attr_value T n ''id''" "d_top (page_of T) = 0" "d_elements (page_of T) = members T"
  "d_root (page_of T) n = se_root (el_at T n)"
  by (simp_all add: page_of_def bare_page_def)

lemma chain_page: "chain_matches (page_of T) ss n = chain_matches (bare_page T) ss n"
proof (induction ss arbitrary: n)
  case (Cons x ss)
  have "seg_matches (page_of T) x n = seg_matches (bare_page T) x n"
    by (cases x) (auto simp: page_fields nth_of_type_def bare_page_def split: option.splits)
  with Cons show ?case by (simp add: page_fields split: option.splits)
qed simp

lemma follow_page: "follow (page_of T) ss ns = follow (bare_page T) ss ns"
proof -
  have "pick (page_of T) = pick (bare_page T)" by (simp add: pick_def fun_eq_iff page_fields)
  then show ?thesis by (induction ss arbitrary: ns) (simp_all add: page_fields split: option.split)
qed

lemma length_join: "list_all plain_seg xs \<Longrightarrow> length xs \<le> length (join_with '' > '' (map seg_text xs))"
proof (induction xs)
  case (Cons x xs)
  then have "0 < length (seg_text x)" by (cases x) (auto simp: plain_seg_def plain_name_def)
  with Cons show ?case by (cases xs) (auto simp: Suc_le_eq)
qed simp

lemma read_attr_path:
  assumes "plain_seg x" "tail = [] \<or> hd tail = CHR '' ''"
  shows "read_attr (seg_text x @ tail) = None"
proof (cases x)
  case (ById i)
  then show ?thesis by (simp add: read_attr_def read_name_def marks)
next
  case (ByTag t cs k)
  with assms(1) plain_name_chars have t: "\<forall>c \<in> set t. name_char c" by (auto simp: plain_seg_def)
  define r where "r = (if cs = [] then [] else ''.'' @ join_with ''.'' (map esc cs)) @ (case k of None \<Rightarrow> [] | Some k \<Rightarrow> '':nth-of-type('' @ show_nat k @ '')'') @ tail"
  have x: "seg_text x @ tail = t @ r" by (simp add: ByTag r_def)
  have "r = [] \<or> hd r \<in> {CHR ''.'', CHR '':'', CHR '' ''}" using assms(2) by (auto simp: r_def split: option.splits)
  then have "read_name (t @ r) = (t, r)" "take 1 r \<noteq> ''[''" using marks by (auto intro!: read_name_plain [OF t]) (cases r; auto)+
  then show ?thesis unfolding x by (simp add: read_attr_def)
qed

lemma sample_path:
  assumes ss: "ss \<noteq> []" "list_all plain_seg ss"
  shows "sample_query T r (path_text ss) = (if list_all readable_seg ss then Some (filter (chain_matches (page_of T) ss) (members T r)) else None)"
proof -
  let ?t = "join_with '' > '' (map seg_text (rev ss))"
  have rs: "rev ss \<noteq> []" "list_all plain_seg (rev ss)" using ss by (auto simp: list_all_iff)
  obtain x xs where x: "rev ss = x # xs" using rs(1) by (cases "rev ss") auto
  have t: "?t = seg_text x @ (if xs = [] then [] else '' > '' @ join_with '' > '' (map seg_text xs))"
    by (cases xs) (simp_all add: x)
  have "seg_text x \<noteq> [] \<and> hd (seg_text x) \<noteq> CHR ''*''"
    using rs(2) by (cases x) (auto simp: \<open>rev ss = x # xs\<close> plain_seg_def plain_name_def hd_append)
  then have star: "?t \<noteq> ''*''" unfolding t by (metis hd_append2 list.sel(1))
  have "list_all (\<lambda>x. list_all ident_ok (seg_names x)) (rev ss) = list_all readable_seg ss"
    using ss(2) readable_seg_iff by (auto simp: list_all_iff)
  with read_path_text [OF rs length_join [OF rs(2)]]
  have p: "read_path (length ?t) ?t = (if list_all readable_seg ss then Some (rev ss) else None)" by simp
  have "read_attr ?t = None" unfolding t by (rule read_attr_path) (use rs(2) in \<open>auto simp: x\<close>)
  with p star show ?thesis
    by (simp add: sample_query_def path_text_def) (intro impI filter_cong refl, simp only: chain_page)
qed

lemma takeWhile_until: "y \<notin> set xs \<Longrightarrow> takeWhile (\<lambda>c. c \<noteq> y) (xs @ y # zs) = xs"
  and dropWhile_until: "y \<notin> set xs \<Longrightarrow> dropWhile (\<lambda>c. c \<noteq> y) (xs @ y # zs) = y # zs"
  by (induction xs) auto

lemma named_attr_plain: "a \<in> set NAMED_ATTRS \<Longrightarrow> CHR ''='' \<notin> set a"
  by (auto simp: NAMED_ATTRS_def TESTID_ATTRS_def)

lemma sample_attr:
  assumes "t = [] \<or> plain_name t" "a \<in> set NAMED_ATTRS" "css_string (s @ [CHR 0x22] @ '']'') = Some (tok, rest)"
  shows "sample_query T r (t @ ''['' @ a @ ''='' @ [CHR 0x22] @ s @ [CHR 0x22] @ '']'') = (case tok of BadString \<Rightarrow> None
    | CssString v \<Rightarrow> Some (filter (\<lambda>n. (t = [] \<or> se_tag (el_at T n) = t) \<and> map_of (se_attrs (el_at T n)) a = Some v) (members T r)))"
proof -
  let ?u = "''['' @ a @ ''='' @ [CHR 0x22] @ s @ [CHR 0x22] @ '']''"
  have "\<forall>c \<in> set t. name_char c" using assms(1) plain_name_chars by auto
  then have n: "read_name (t @ ?u) = (t, ?u)" by (rule read_name_plain) (simp add: marks)
  have a: "takeWhile (\<lambda>c. c \<noteq> CHR ''='') (a @ ''='' @ x) = a \<and> dropWhile (\<lambda>c. c \<noteq> CHR ''='') (a @ ''='' @ x) = ''='' @ x" for x
    using named_attr_plain [OF assms(2)] by (simp add: takeWhile_until dropWhile_until)
  have "read_attr (t @ ?u) = Some (t, a, tok)"
    unfolding read_attr_def n prod.case Let_def using a [of "[CHR 0x22] @ s @ [CHR 0x22] @ '']''"] assms(3) by simp
  moreover have "t @ ?u \<noteq> ''*''" by (cases t) auto
  ultimately show ?thesis unfolding sample_query_def by (cases tok) simp_all
qed

lemma table_okD: "table_ok T \<Longrightarrow> n < length T \<Longrightarrow> case se_parent (T ! n) of None \<Rightarrow> se_root (T ! n) = Document \<longrightarrow> n = 0
    | Some p \<Rightarrow> p < length T \<and> se_root (T ! n) = se_root (T ! p)"
  unfolding table_ok_def list_all_iff by auto

lemma table_is_page: "table_ok T \<Longrightarrow> page_dom (page_of T)"
proof
  assume ok: "table_ok T"
  have parent: "se_parent (el_at T n) = Some p \<Longrightarrow> n < length T \<and> p < length T \<and> se_root (el_at T n) = se_root (el_at T p)" for n p
    using table_okD [OF ok, of n] table_okD [OF ok, of p] by (auto simp: el_at_def outside_def split: if_splits)
  fix n p r sel ms t a s v rest ss xs and cs ds :: "node list"
  show kid: "d_parent (page_of T) n = Some p \<longleftrightarrow> n \<in> set (d_children (page_of T) p)" for n p
    using parent [of n p] by (auto simp: page_fields kids_def bare_page_def)
  show dc: "distinct (d_children (page_of T) p)" for p by (simp add: page_fields kids_def)
  show "d_before (page_of T) n = rev cs" if c: "d_children (page_of T) p = cs @ n # ds"
  proof -
    have "se_parent (el_at T n) = Some p" using kid [of n p] c by (simp add: page_fields bare_page_def)
    moreover have "n \<notin> set cs" using dc [of p] c by auto
    moreover have "kids T p = cs @ n # ds" using c by (simp add: page_fields)
    ultimately show ?thesis by (simp add: page_fields elder_def takeWhile_until)
  qed
  show "d_parent (page_of T) n = None \<Longrightarrow> d_before (page_of T) n = []" by (simp add: page_fields elder_def bare_page_def)
  show "d_root (page_of T) n = Document \<Longrightarrow> d_parent (page_of T) n = None \<Longrightarrow> n = d_top (page_of T)"
    using table_okD [OF ok, of n] by (auto simp: page_fields bare_page_def el_at_def outside_def split: if_splits)
  show "d_parent (page_of T) (d_top (page_of T)) = None"
    using ok by (cases T) (auto simp: page_fields bare_page_def table_ok_def el_at_def)
  show "d_parent (page_of T) n = Some p \<Longrightarrow> d_root (page_of T) n = d_root (page_of T) p"
    using parent [of n p] by (simp add: page_fields bare_page_def)
  show "d_id (page_of T) n \<noteq> [] \<Longrightarrow> d_attr (page_of T) n ''id'' = Some (d_id (page_of T) n)"
    by (auto simp: page_fields bare_page_def attr_value_def split: option.splits)
  show "n \<in> set (d_elements (page_of T) r) \<Longrightarrow> d_root (page_of T) n = r" by (simp add: page_fields members_def)
  show "d_query (page_of T) r sel = Some ms \<Longrightarrow> set ms \<subseteq> set (d_elements (page_of T) r)"
    by (auto simp: page_fields sample_query_def split: if_splits option.splits prod.splits css_token.splits)
  show "t = [] \<or> plain_name t \<Longrightarrow> a \<in> set NAMED_ATTRS \<Longrightarrow> css_string (s @ [CHR 0x22] @ '']'') = Some (CssString v, '']'')
      \<Longrightarrow> d_query (page_of T) r (t @ ''['' @ a @ ''='' @ [CHR 0x22] @ s @ [CHR 0x22] @ '']'')
        = Some (filter (\<lambda>n. (t = [] \<or> d_tag (page_of T) n = t) \<and> d_attr (page_of T) n a = Some v) (d_elements (page_of T) r))"
    using sample_attr [of t a s "CssString v" "'']''" T r] by (simp add: page_fields) (simp add: bare_page_def)
  show "t = [] \<or> plain_name t \<Longrightarrow> a \<in> set NAMED_ATTRS \<Longrightarrow> css_string (s @ [CHR 0x22] @ '']'') = Some (BadString, rest)
      \<Longrightarrow> d_query (page_of T) r (t @ ''['' @ a @ ''='' @ [CHR 0x22] @ s @ [CHR 0x22] @ '']'') = None"
    using sample_attr [of t a s BadString rest T r] by (simp add: page_fields)
  show "ss \<noteq> [] \<Longrightarrow> list_all plain_seg ss
      \<Longrightarrow> d_query (page_of T) r (path_text ss)
        = (if list_all readable_seg ss then Some (filter (chain_matches (page_of T) ss) (d_elements (page_of T) r)) else None)"
    using sample_path by (simp add: page_fields)
  show "d_evaluate (page_of T) (xp_text xs) = Some (follow (page_of T) xs [d_top (page_of T)])"
    if "xs \<noteq> []" "list_all (\<lambda>x. plain_name (fst x)) xs"
  proof -
    have l: "length xs \<le> length (concat (map (\<lambda>(t, i). ''/'' @ t @ ''['' @ show_nat i @ '']'') xs))" by (induction xs) auto
    show ?thesis
      using read_steps_text [OF that(2) le_imp_less_Suc [OF l]] by (simp add: page_fields sample_evaluate_def xp_text_concat [OF that(1)] follow_page)
  qed
qed

section \<open>A page\<close>

definition table_plain :: "sample_el list \<Rightarrow> bool" where
  "table_plain T \<longleftrightarrow> list_all (\<lambda>e. plain_name (se_tag e) \<and> list_all (\<lambda>(_, v). CHR 0x00 \<notin> set v) (se_attrs e)) T
     \<and> list_all (\<lambda>c. list_all (\<lambda>n. se_parent c = se_parent n \<and> se_tag c = se_tag n \<longrightarrow> se_html c = se_html n) T) T"

lemma split_ws_chars: "w \<in> set (split_ws s) \<Longrightarrow> set w \<subseteq> set s"
proof (induction s rule: split_ws.induct)
  case (1 s)
  have d: "set (dropWhile (\<lambda>c. \<not> is_ws c) s) \<subseteq> set s" by (auto dest: set_dropWhileD)
  from "1.prems" show ?case
  proof (subst (asm) split_ws.simps, cases "dropWhile (\<lambda>c. \<not> is_ws c) s")
    case (Cons c r)
    moreover have "set (dropWhile is_ws r) \<subseteq> set s" using d Cons by (auto dest: set_dropWhileD)
    ultimately show "w \<in> set (case dropWhile (\<lambda>c. \<not> is_ws c) s of [] \<Rightarrow> [s]
        | _ # r \<Rightarrow> takeWhile (\<lambda>c. \<not> is_ws c) s # split_ws (dropWhile is_ws r)) \<Longrightarrow> set w \<subseteq> set s"
      using "1.IH" [OF Cons] by (auto dest: set_takeWhileD)
  qed simp
qed

lemma table_is_plain:
  assumes "table_plain T"
  shows "plain_page (page_of T)"
proof -
  have e: "el_at T n \<in> set T \<or> el_at T n = outside n" for n by (auto simp: el_at_def)
  have t: "plain_name (se_tag e) \<and> (\<forall>(a, v) \<in> set (se_attrs e). CHR 0x00 \<notin> set v)" if "e \<in> set T" for e
    using assms that unfolding table_plain_def list_all_iff by blast
  have u: "\<forall>c \<in> set T. \<forall>n \<in> set T. se_parent c = se_parent n \<and> se_tag c = se_tag n \<longrightarrow> se_html c = se_html n"
    using assms unfolding table_plain_def list_all_iff by blast
  have "plain_name (d_tag (page_of T) n)" for n
    using e [of n] t [of "el_at T n"] by (auto simp: page_fields bare_page_def outside_def plain_name_def)
  moreover have "CHR 0x00 \<notin> set v" if "d_attr (page_of T) n a = Some v" for n a v
    using e [of n] t [of "el_at T n"] that by (auto simp: page_fields bare_page_def outside_def dest!: map_of_SomeD)
  moreover have "d_html (page_of T) c = d_html (page_of T) n"
    if "c \<in> set (d_children (page_of T) p)" "n \<in> set (d_children (page_of T) p)" "d_tag (page_of T) c = d_tag (page_of T) n" for p c n
  proof -
    have "se_parent (el_at T c) = se_parent (el_at T n)" "el_at T c \<in> set T" "el_at T n \<in> set T" "se_tag (el_at T c) = se_tag (el_at T n)"
      using that by (auto simp: page_fields bare_page_def kids_def el_at_def)
    with u have "se_html (el_at T c) = se_html (el_at T n)" by blast
    then show ?thesis by (simp add: page_fields bare_page_def)
  qed
  moreover have "CHR 0x00 \<notin> set i" if "i = d_id (page_of T) n \<or> i \<in> set (d_classes (page_of T) n)" for i n
  proof -
    have "CHR 0x00 \<notin> set (attr_value T n a)" for a
      using e [of n] t [of "el_at T n"] by (cases "map_of (se_attrs (el_at T n)) a") (auto simp: attr_value_def outside_def dest!: map_of_SomeD)
    with that split_ws_chars show ?thesis by (auto simp: page_fields bare_page_def)
  qed
  ultimately show ?thesis unfolding plain_page_def by blast
qed

definition plain_el :: "string \<Rightarrow> node option \<Rightarrow> sample_el" where
  "plain_el t p = \<lparr>se_tag = t, se_html = True, se_attrs = [], se_parent = p, se_root = Document, se_text = []\<rparr>"

text \<open>
  Two buttons of one test id, one of them inside the shadow tree of a card; a drawing; a deep nest; a class that starts like a
  number, on an element near the top and on one deep down.
\<close>

definition sample_table :: "sample_el list" where
  "sample_table = [plain_el ''html'' None, plain_el ''body'' (Some 0), plain_el ''main'' (Some 1),
     (plain_el ''button'' (Some 2))\<lparr>se_attrs := [(''data-testid'', ''save'')], se_text := ''Save''\<rparr>,
     (plain_el ''button'' (Some 2))\<lparr>se_text := ''Cancel''\<rparr>, plain_el ''x-card'' (Some 1),
     (plain_el ''button'' None)\<lparr>se_attrs := [(''data-testid'', ''save'')], se_root := ShadowOf 5, se_text := ''Save card''\<rparr>,
     (plain_el ''svg'' (Some 1))\<lparr>se_html := False\<rparr>]
   @ map (\<lambda>n. plain_el ''div'' (Some (if n = 8 then 1 else n - 1))) [8..<20]
   @ [(plain_el ''span'' (Some 2))\<lparr>se_attrs := [(''class'', ''2xl'')], se_text := ''Large''\<rparr>,
      (plain_el ''span'' (Some 19))\<lparr>se_attrs := [(''class'', ''wide 2xl'')]\<rparr>]"

definition sample_page :: dom where
  "sample_page = page_of sample_table"

interpretation sample: page_dom sample_page
  unfolding sample_page_def by (rule table_is_page) code_simp

lemma sample_plain: "plain_page sample_page"
  unfolding sample_page_def by (rule table_is_plain) code_simp

definition sample_input :: "node \<Rightarrow> jsval" where
  "sample_input n = Obj [(''comment'', Str ''Too small''), (''url'', Str ''https://a.b/c''), (''element'', describe sample_page n)]"

lemma sample_input: "is_object (sample_input n)" "getp ''element'' (sample_input n) = describe sample_page n"
  by (simp_all add: sample_input_def is_object_def getp_Obj)





lemma deep_unreadable_element_is_lost:
  "lookup sample_page (record_json (makeRecord (\<lambda>_. None) 1 (sample_input 21) Null Null [])) = no_hit"
  by code_simp

end
