(* ===== verification/OverlayProps.thy ===== *)
theory OverlayProps
  imports Overlay SamplePage
begin

text \<open>
  The overlay's guarantees: its variables agree with each other in every state it can reach, whatever the page does; what it
  draws stays in the window; a stopped overlay stays stopped, unless an answer was still under way; a saved
  note gets its pin on the element it was written for.
\<close>

section \<open>The invariant\<close>

text \<open>All but the pins.\<close>

definition overlay_base :: "overlay \<Rightarrow> bool" where
  "overlay_base st \<longleftrightarrow> ov_timer st = ov_mode st \<and> ov_listening st = ov_mode st \<and> (ov_host st = None \<longleftrightarrow> ov_ui st = None)
     \<and> (ov_mode st \<longrightarrow> ov_host st \<noteq> None) \<and> (ov_composer st \<longleftrightarrow> ov_picked st \<noteq> None) \<and> (ov_composer st \<longrightarrow> ov_mode st)
     \<and> (\<not> ov_mode st \<longrightarrow> ov_hovered st = None \<and> ov_cache st = [] \<and> ov_misses st = [] \<and> shown_pins st = [] \<and> open_card st = None)
     \<and> (\<forall>c text. open_card st = Some c \<and> card_kind c = Composer text \<longrightarrow> ov_picked st = card_node c \<and> ov_composer st)"

definition overlay_ok :: "overlay \<Rightarrow> bool" where
  "overlay_ok st \<longleftrightarrow> overlay_base st \<and> (shown_pins st = [] \<or> map pin_ann (shown_pins st) = ov_items st)"

lemma parts [simp]:
  "open_card (st\<lparr>ov_mode := b\<rparr>) = open_card st" "open_card (st\<lparr>ov_host := h\<rparr>) = open_card st" "open_card (st\<lparr>ov_items := is\<rparr>) = open_card st"
  "open_card (st\<lparr>ov_hovered := x\<rparr>) = open_card st" "open_card (st\<lparr>ov_picked := x\<rparr>) = open_card st" "open_card (st\<lparr>ov_composer := b\<rparr>) = open_card st"
  "open_card (st\<lparr>ov_pinsVisible := b\<rparr>) = open_card st" "open_card (st\<lparr>ov_timer := b\<rparr>) = open_card st" "open_card (st\<lparr>ov_raf := b\<rparr>) = open_card st"
  "open_card (st\<lparr>ov_cache := c\<rparr>) = open_card st" "open_card (st\<lparr>ov_misses := m\<rparr>) = open_card st" "open_card (st\<lparr>ov_listening := b\<rparr>) = open_card st"
  "open_card (st\<lparr>ov_installed := b\<rparr>) = open_card st" "open_card (st\<lparr>ov_sent := s\<rparr>) = open_card st" "open_card (st\<lparr>ov_pending := p\<rparr>) = open_card st"
  "open_card (st\<lparr>ov_flash_count := k\<rparr>) = open_card st" "open_card (st\<lparr>ov_ui := u\<rparr>) = Option.bind u ui_card"
  "shown_pins (st\<lparr>ov_mode := b\<rparr>) = shown_pins st" "shown_pins (st\<lparr>ov_host := h\<rparr>) = shown_pins st" "shown_pins (st\<lparr>ov_items := is\<rparr>) = shown_pins st"
  "shown_pins (st\<lparr>ov_hovered := x\<rparr>) = shown_pins st" "shown_pins (st\<lparr>ov_picked := x\<rparr>) = shown_pins st" "shown_pins (st\<lparr>ov_composer := b\<rparr>) = shown_pins st"
  "shown_pins (st\<lparr>ov_pinsVisible := b\<rparr>) = shown_pins st" "shown_pins (st\<lparr>ov_timer := b\<rparr>) = shown_pins st" "shown_pins (st\<lparr>ov_raf := b\<rparr>) = shown_pins st"
  "shown_pins (st\<lparr>ov_cache := c\<rparr>) = shown_pins st" "shown_pins (st\<lparr>ov_misses := m\<rparr>) = shown_pins st" "shown_pins (st\<lparr>ov_listening := b\<rparr>) = shown_pins st"
  "shown_pins (st\<lparr>ov_installed := b\<rparr>) = shown_pins st" "shown_pins (st\<lparr>ov_sent := s\<rparr>) = shown_pins st" "shown_pins (st\<lparr>ov_pending := p\<rparr>) = shown_pins st"
  "shown_pins (st\<lparr>ov_flash_count := k\<rparr>) = shown_pins st" "shown_pins (st\<lparr>ov_ui := u\<rparr>) = (case u of None \<Rightarrow> [] | Some u \<Rightarrow> ui_pins u)"
  by (simp_all add: open_card_def shown_pins_def)

lemma with_ui_parts [simp]:
  "ov_mode (with_ui f st) = ov_mode st" "ov_host (with_ui f st) = ov_host st" "ov_items (with_ui f st) = ov_items st"
  "ov_hovered (with_ui f st) = ov_hovered st" "ov_picked (with_ui f st) = ov_picked st" "ov_composer (with_ui f st) = ov_composer st"
  "ov_pinsVisible (with_ui f st) = ov_pinsVisible st" "ov_timer (with_ui f st) = ov_timer st" "ov_cache (with_ui f st) = ov_cache st"
  "ov_misses (with_ui f st) = ov_misses st" "ov_listening (with_ui f st) = ov_listening st" "ov_installed (with_ui f st) = ov_installed st"
  "ov_sent (with_ui f st) = ov_sent st" "ov_pending (with_ui f st) = ov_pending st" "ov_ui (with_ui f st) = map_option f (ov_ui st)"
  by (simp_all add: with_ui_def)

lemma resolve_effect: "\<exists>c m. snd (resolve_ann D now ann st) = st\<lparr>ov_cache := c, ov_misses := m\<rparr>"
proof -
  have "snd (resolve_ann D now ann st) = st\<lparr>ov_cache := ov_cache (snd (resolve_ann D now ann st)), ov_misses := ov_misses (snd (resolve_ann D now ann st))\<rparr>"
    unfolding resolve_ann_def Let_def by (auto split: option.split)
  then show ?thesis by blast
qed

lemma draw_effect:
  assumes "ov_ui st = Some u"
  shows "\<exists>c m ps. draw_pins D now anns st = st\<lparr>ov_cache := c, ov_misses := m, ov_ui := Some (u\<lparr>ui_pins := ui_pins u @ ps\<rparr>)\<rparr>
    \<and> map pin_ann ps = anns \<and> (\<forall>p \<in> set ps. pin_pos p = pin_place D (pin_node p))"
  using assms
proof (induction anns arbitrary: st u)
  case Nil
  then show ?case by (intro exI [of _ "ov_cache st"] exI [of _ "ov_misses st"] exI [of _ "[]"]) simp
next
  case (Cons ann anns)
  obtain res st1 where r: "resolve_ann D now ann st = (res, st1)" by (cases "resolve_ann D now ann st")
  obtain c m where s: "st1 = st\<lparr>ov_cache := c, ov_misses := m\<rparr>" using resolve_effect [of D now ann st] by (auto simp: r)
  let ?p = "make_pin D ann (hit_el res)" and ?st = "with_ui (\<lambda>u. u\<lparr>ui_pins := ui_pins u @ [make_pin D ann (hit_el res)]\<rparr>) st1"
  have "ov_ui ?st = Some (u\<lparr>ui_pins := ui_pins u @ [?p]\<rparr>)" using Cons.prems by (simp add: s)
  from Cons.IH [OF this] obtain c' m' ps where ih: "draw_pins D now anns ?st = ?st\<lparr>ov_cache := c', ov_misses := m',
      ov_ui := Some (u\<lparr>ui_pins := ui_pins u @ [?p], ui_pins := (ui_pins u @ [?p]) @ ps\<rparr>)\<rparr>" "map pin_ann ps = anns"
      "\<forall>p \<in> set ps. pin_pos p = pin_place D (pin_node p)" by auto
  have "draw_pins D now (ann # anns) st = st\<lparr>ov_cache := c', ov_misses := m', ov_ui := Some (u\<lparr>ui_pins := ui_pins u @ ?p # ps\<rparr>)\<rparr>"
    using ih(1) by (simp add: r with_ui_def s)
  moreover have "map pin_ann (?p # ps) = ann # anns \<and> (\<forall>p \<in> set (?p # ps). pin_pos p = pin_place D (pin_node p))"
    using ih(2,3) by (simp add: make_pin_def)
  ultimately show ?case by (intro exI [of _ c'] exI [of _ m'] exI [of _ "?p # ps"]) (rule conjI)
qed

text \<open>What rendering changes: the caches, the pins and the bar's count.\<close>

lemma render_effect:
  assumes "ov_ui st = Some u"
  obtains c m u' where "renderPins D now st = st\<lparr>ov_cache := c, ov_misses := m, ov_ui := Some u'\<rparr>" "ui_card u' = ui_card u"
    "if ov_mode st \<and> ov_pinsVisible st then map pin_ann (ui_pins u') = ov_items st else ui_pins u' = [] \<and> c = ov_cache st \<and> m = ov_misses st"
    "\<forall>p \<in> set (ui_pins u'). pin_pos p = pin_place D (pin_node p)"
proof -
  define st1 where "st1 = updateBar (with_ui (\<lambda>u. u\<lparr>ui_pins := []\<rparr>) st)"
  obtain u1 where u1: "st1 = st\<lparr>ov_ui := Some u1\<rparr>" "ui_pins u1 = []" "ui_card u1 = ui_card u"
    using assms by (auto simp: st1_def updateBar_def with_ui_def)
  show thesis
  proof (cases "ov_mode st \<and> ov_pinsVisible st")
    case True
    obtain c m ps where d: "draw_pins D now (ov_items st) st1 = st1\<lparr>ov_cache := c, ov_misses := m, ov_ui := Some (u1\<lparr>ui_pins := ui_pins u1 @ ps\<rparr>)\<rparr>"
        "map pin_ann ps = ov_items st" "\<forall>p \<in> set ps. pin_pos p = pin_place D (pin_node p)"
      using draw_effect [of st1 u1 D now "ov_items st"] by (auto simp: u1(1))
    show thesis
      by (rule that [where c = c and m = m and u' = "u1\<lparr>ui_pins := ps\<rparr>"])
        (use True d assms u1 in \<open>simp_all add: renderPins_def Let_def st1_def [symmetric]\<close>)
  next
    case False
    show thesis
      by (rule that [where c = "ov_cache st" and m = "ov_misses st" and u' = u1])
        (use False assms u1 in \<open>auto simp: renderPins_def Let_def st1_def [symmetric]\<close>)
  qed
qed

lemma base_redrawn:
  assumes "overlay_base st" "ov_ui st = Some u" "ui_card u' = ui_card u" "\<not> ov_mode st \<Longrightarrow> ui_pins u' = [] \<and> c = [] \<and> m = []"
  shows "overlay_base (st\<lparr>ov_cache := c, ov_misses := m, ov_ui := Some u'\<rparr>)"
proof -
  have "open_card (st\<lparr>ov_cache := c, ov_misses := m, ov_ui := Some u'\<rparr>) = open_card st" using assms(2,3) by (simp add: open_card_def)
  moreover have "shown_pins (st\<lparr>ov_cache := c, ov_misses := m, ov_ui := Some u'\<rparr>) = ui_pins u'" by simp
  ultimately show ?thesis using assms(1,4) unfolding overlay_base_def by (simp only:) (simp add: assms(2), blast)
qed

lemma render_ok: "overlay_base st \<Longrightarrow> overlay_ok (renderPins D now st)"
proof (cases "ov_ui st")
  case None
  assume "overlay_base st"
  with None show ?thesis by (simp add: overlay_ok_def renderPins_def shown_pins_def)
next
  case (Some u)
  assume b: "overlay_base st"
  obtain c m u' where r: "renderPins D now st = st\<lparr>ov_cache := c, ov_misses := m, ov_ui := Some u'\<rparr>" "ui_card u' = ui_card u"
    "if ov_mode st \<and> ov_pinsVisible st then map pin_ann (ui_pins u') = ov_items st else ui_pins u' = [] \<and> c = ov_cache st \<and> m = ov_misses st"
    by (rule render_effect [OF Some])
  have "\<not> ov_mode st \<Longrightarrow> ui_pins u' = [] \<and> c = [] \<and> m = []" using b r(3) by (auto simp: overlay_base_def)
  then have "overlay_base (renderPins D now st)" unfolding r(1) by (rule base_redrawn [OF b Some r(2)])
  moreover have "ui_pins u' = [] \<or> map pin_ann (ui_pins u') = ov_items st" using r(3) by (simp split: if_splits)
  ultimately show ?thesis unfolding overlay_ok_def by (simp add: r(1))
qed

lemma okD: "overlay_ok st \<Longrightarrow> overlay_base st"
  by (simp add: overlay_ok_def)

section \<open>Every operation keeps it\<close>

lemma ensure_ok: "overlay_base st \<Longrightarrow> overlay_base (ensureHost D st)" "overlay_ok st \<Longrightarrow> overlay_ok (ensureHost D st)"
  by (auto simp: ensureHost_def overlay_ok_def overlay_base_def new_ui_def)

lemma closed_ok: "overlay_ok st \<Longrightarrow> overlay_ok (closeCard st)"
  by (cases "ov_ui st") (auto simp: closeCard_def hideHighlight_def overlay_ok_def overlay_base_def open_card_def shown_pins_def)

lemma frame_ok:
  "overlay_ok (st\<lparr>ov_raf := b\<rparr>) = overlay_ok st" "overlay_ok (st\<lparr>ov_sent := s\<rparr>) = overlay_ok st"
  "overlay_ok (st\<lparr>ov_pending := p\<rparr>) = overlay_ok st" "overlay_ok (st\<lparr>ov_installed := b\<rparr>) = overlay_ok st"
  "overlay_ok (st\<lparr>ov_flash_count := k\<rparr>) = overlay_ok st" "overlay_ok (st\<lparr>ov_pinsVisible := b\<rparr>) = overlay_ok st"
  "overlay_ok (st\<lparr>ov_host := map_option f (ov_host st)\<rparr>) = overlay_ok st" "overlay_base (st\<lparr>ov_items := is\<rparr>) = overlay_base st"
  by (auto simp: overlay_ok_def overlay_base_def)

text \<open>Redrawing that leaves pins and card alone.\<close>

lemma redraw_ok: "(\<And>u. ui_pins (f u) = ui_pins u \<and> ui_card (f u) = ui_card u) \<Longrightarrow> overlay_ok st \<Longrightarrow> overlay_ok (with_ui f st)"
  by (cases "ov_ui st") (auto simp: overlay_ok_def overlay_base_def open_card_def shown_pins_def)

lemma highlight_ok: "overlay_ok st \<Longrightarrow> overlay_ok (showHighlight D n st)" "overlay_ok st \<Longrightarrow> overlay_ok (hideHighlight st)"
  unfolding showHighlight_def hideHighlight_def Let_def by (intro redraw_ok ensure_ok; simp)+

lemma hover_ok: "overlay_ok st \<Longrightarrow> ov_mode st \<Longrightarrow> overlay_ok (st\<lparr>ov_hovered := x\<rparr>)"
  by (auto simp: overlay_ok_def overlay_base_def)

text \<open>A card is mounted while the mode is on: over a composer's element, or a viewer's.\<close>

lemma mount_ok:
  assumes "overlay_ok st" "ov_mode st" "\<And>text. kind = Composer text \<Longrightarrow> ov_picked st = t \<and> ov_composer st"
  shows "overlay_ok (mountCard D kind lines t st)"
proof -
  have e: "overlay_ok (ensureHost D st)" "ov_mode (ensureHost D st)" "ov_picked (ensureHost D st) = ov_picked st" "ov_composer (ensureHost D st) = ov_composer st"
    using ensure_ok(2) [OF assms(1)] assms(2) by (simp_all add: ensureHost_def)
  with assms(3) show ?thesis
    by (cases "ov_ui (ensureHost D st)") (auto simp: mountCard_def overlay_ok_def overlay_base_def open_card_def shown_pins_def)
qed

lemma composer_ok: "overlay_ok st \<Longrightarrow> ov_mode st \<Longrightarrow> open_card st = None \<Longrightarrow> overlay_ok (openComposer D n st)"
proof -
  assume ok: "overlay_ok st" and m: "ov_mode st" and c: "open_card st = None"
  let ?st = "st\<lparr>ov_picked := Some n, ov_composer := True\<rparr>"
  have "overlay_ok ?st" using ok m c by (auto simp: overlay_ok_def overlay_base_def)
  then have "overlay_ok (showHighlight D n ?st)" by (rule highlight_ok)
  then show ?thesis unfolding openComposer_def by (rule mount_ok) (use m in \<open>simp_all add: showHighlight_def Let_def ensureHost_def\<close>)
qed

text \<open>Also where a viewer is open: its card gives way.\<close>

lemma composer_over_viewer:
  assumes "overlay_ok st" "ov_mode st" "\<not> ov_composer st"
  shows "overlay_ok (openComposer D n st)"
proof -
  let ?st = "st\<lparr>ov_picked := Some n, ov_composer := True\<rparr>"
  have nc: "\<not> (\<exists>text. card_kind c = Composer text)" if "open_card st = Some c" for c
    using assms(1,3) that unfolding overlay_ok_def overlay_base_def by blast
  have "overlay_ok ?st" using assms nc unfolding overlay_ok_def overlay_base_def by auto
  then have "overlay_ok (showHighlight D n ?st)" by (rule highlight_ok)
  then show ?thesis unfolding openComposer_def by (rule mount_ok) (use assms(2) in \<open>simp_all add: showHighlight_def Let_def ensureHost_def\<close>)
qed

lemma viewer_ok: "overlay_ok st \<Longrightarrow> ov_mode st \<Longrightarrow> overlay_ok (openViewer D ann t st)"
  unfolding openViewer_def Let_def using mount_ok [of st "Viewer ann"] by (cases t) (simp_all add: highlight_ok)

lemma draft_ok: "overlay_ok st \<Longrightarrow> open_card st = Some c \<Longrightarrow> card_kind c = Composer old \<Longrightarrow> overlay_ok (set_draft text st)"
  by (cases "ov_ui st") (auto simp: set_draft_def overlay_ok_def overlay_base_def open_card_def shown_pins_def, metis+)

lemma after_close: "ov_mode (closeCard st) = ov_mode st" "\<not> ov_composer (closeCard st)" "open_card (closeCard st) = None"
  by (cases "ov_ui st"; simp add: closeCard_def hideHighlight_def with_ui_def open_card_def)+

lemma composed_card: "\<exists>c. open_card (openComposer D n st) = Some c \<and> card_kind c = Composer [] \<and> card_node c = Some n \<and> card_lines c = [describeShort D n]"
  if "overlay_ok st" for st
proof -
  have "ov_ui (ensureHost D (showHighlight D n (st\<lparr>ov_picked := Some n, ov_composer := True\<rparr>))) \<noteq> None"
    using that by (auto simp: ensureHost_def showHighlight_def Let_def overlay_ok_def overlay_base_def split: option.split)
  then show ?thesis by (auto simp: openComposer_def mountCard_def open_card_def)
qed

lemma parent_ok:
  assumes "overlay_ok st" "open_card st = Some c" "card_kind c = Composer text"
  shows "overlay_ok (parent_button D text st)"
proof -
  have m: "ov_mode st" using assms by (auto simp: overlay_ok_def overlay_base_def)
  have "overlay_ok (openComposer D p (closeCard st))" for p
    by (rule composer_ok) (simp_all add: closed_ok assms(1) after_close m)
  then have "overlay_ok (set_draft text (openComposer D p (closeCard st)))" for p
    using composed_card [OF closed_ok [OF assms(1)], of D p] draft_ok by blast
  with assms(1) show ?thesis by (simp add: parent_button_def split: option.split)
qed

lemma visibility_ok: "overlay_ok st \<Longrightarrow> overlay_ok (set_visibility v st)"
  by (simp add: set_visibility_def frame_ok)

lemma traffic_ok: "overlay_ok st \<Longrightarrow> overlay_ok (send msg st)" "overlay_ok st \<Longrightarrow> overlay_ok (await p st)" "overlay_ok st \<Longrightarrow> overlay_ok (drop_pending i st)"
  by (simp_all add: send_def await_def drop_pending_def frame_ok)

lemma submit_ok: "overlay_ok st \<Longrightarrow> overlay_ok (submit D text n st)"
  by (simp add: submit_def Let_def traffic_ok visibility_ok closed_ok)

lemma switch_on: "overlay_base st \<Longrightarrow> overlay_base ((ensureHost D (st\<lparr>ov_mode := True\<rparr>))\<lparr>ov_listening := True, ov_timer := True\<rparr>)"
  by (auto simp: ensureHost_def overlay_base_def new_ui_def split: option.splits)

lemma switch_off: "overlay_base ((teardownHost (closeCard (st\<lparr>ov_mode := False, ov_listening := False, ov_timer := False\<rparr>)))
    \<lparr>ov_hovered := None, ov_cache := [], ov_misses := []\<rparr>)"
  by (simp add: overlay_base_def teardownHost_def closeCard_def hideHighlight_def)

lemma mode_base: "overlay_base st \<Longrightarrow> overlay_base (setMode D now on st)"
  unfolding setMode_def using okD [OF render_ok] switch_on switch_off by auto

lemma mode_ok: "overlay_ok st \<Longrightarrow> overlay_ok (setMode D now on st)"
proof -
  assume ok: "overlay_ok st"
  have "shown_pins (teardownHost s) = []" for s by (simp add: teardownHost_def)
  with ok okD [OF ok] render_ok switch_on switch_off [of st] show ?thesis unfolding setMode_def by (auto simp: overlay_ok_def)
qed

lemma lifecycle_ok:
  "overlay_ok st \<Longrightarrow> overlay_ok (destroy D now st)" "overlay_ok st \<Longrightarrow> overlay_ok (stop_mode D now st)"
  "overlay_ok st \<Longrightarrow> overlay_ok (pins_button D now st)" "overlay_ok st \<Longrightarrow> overlay_ok (announce D st)"
  "overlay_ok st \<Longrightarrow> overlay_ok (announced D now res st)"
proof -
  assume ok: "overlay_ok st"
  show "overlay_ok (destroy D now st)" by (simp add: destroy_def frame_ok mode_ok ok)
  show "overlay_ok (stop_mode D now st)" by (simp add: stop_mode_def mode_ok traffic_ok ok)
  have "overlay_ok (with_ui f (st\<lparr>ov_pinsVisible := b\<rparr>))" if "\<And>u. ui_pins (f u) = ui_pins u \<and> ui_card (f u) = ui_card u" for f b
    using redraw_ok [OF that] by (simp add: frame_ok ok)
  then show "overlay_ok (pins_button D now st)" unfolding pins_button_def Let_def by (intro render_ok okD) simp
  show "overlay_ok (announce D st)" by (simp add: announce_def traffic_ok ok)
  have "overlay_ok (renderPins D now (setMode D now b (st\<lparr>ov_items := is\<rparr>)))" for b "is"
    by (intro render_ok mode_base) (simp add: frame_ok okD [OF ok])
  then show "overlay_ok (announced D now res st)" using ok by (simp add: announced_def split: option.split page_reply.split)
qed

lemma on_message_ok: "overlay_ok st \<Longrightarrow> overlay_ok (snd (onMessage D D' now msg st))"
proof -
  assume ok: "overlay_ok st"
  have "overlay_base (st\<lparr>ov_items := is, ov_cache := [], ov_misses := []\<rparr>)" for "is"
    using okD [OF ok] by (auto simp del: not_None_eq simp: overlay_base_def)
  then show ?thesis
    using ok by (auto simp: onMessage_def Let_def mode_ok lifecycle_ok render_ok traffic_ok split: page_msg.split option.split)
qed

lemma frame_step_ok: "overlay_ok st \<Longrightarrow> overlay_ok (on_frame D now st)"
proof -
  assume ok: "overlay_ok st"
  let ?s1 = "renderPins D now (ensureHost D (st\<lparr>ov_raf := False\<rparr>))"
  have s1: "overlay_ok ?s1" by (intro render_ok ensure_ok okD) (simp add: frame_ok ok)
  have card: "overlay_ok (with_ui (\<lambda>u. u\<lparr>ui_card := map_option (\<lambda>c. c\<lparr>card_pos := f c\<rparr>) (ui_card u)\<rparr>) s)" if "overlay_ok s" for s f
    using that by (cases "ov_ui s") (auto simp: overlay_ok_def overlay_base_def open_card_def shown_pins_def)
  show ?thesis unfolding on_frame_def Let_def
    using ok s1 by (auto simp: frame_ok intro!: card highlight_ok split: option.split)
qed

lemma flash_ok: "overlay_ok st \<Longrightarrow> overlay_ok (flash D n st)" "overlay_ok st \<Longrightarrow> overlay_ok (flash_end k st)"
proof -
  assume ok: "overlay_ok st"
  have "overlay_ok (with_ui (\<lambda>u. u\<lparr>ui_flashes := ui_flashes u @ [x]\<rparr>) ((ensureHost D st)\<lparr>ov_flash_count := k\<rparr>))" for x k
    by (rule redraw_ok) (simp_all add: frame_ok ensure_ok ok)
  then show "overlay_ok (flash D n st)" unfolding flash_def Let_def by (simp add: traffic_ok)
  let ?s = "with_ui (\<lambda>u. u\<lparr>ui_flashes := filter (\<lambda>f. fst f \<noteq> k) (ui_flashes u)\<rparr>) st"
  have s: "overlay_ok ?s" by (rule redraw_ok) (simp_all add: ok)
  then have "\<not> ov_mode ?s \<Longrightarrow> overlay_ok (teardownHost ?s)"
    by (auto simp del: not_None_eq simp: overlay_ok_def overlay_base_def teardownHost_def)
  with s show "overlay_ok (flash_end k st)" unfolding flash_end_def Let_def by simp
qed

lemma move_ok: "overlay_ok st \<Longrightarrow> overlay_ok (onMove D e st)"
  by (auto simp: onMove_def intro!: highlight_ok hover_ok split: option.split)

lemma click_ok: "overlay_ok st \<Longrightarrow> overlay_ok (snd (onClick D e st))"
  by (auto simp: onClick_def intro!: closed_ok composer_over_viewer split: option.split)

lemma key_ok: "overlay_ok st \<Longrightarrow> overlay_ok (snd (onKey D now key alt st))"
  by (auto simp: onKey_def intro!: closed_ok lifecycle_ok highlight_ok hover_ok split: option.split)

lemma shown_mode: "overlay_ok st \<Longrightarrow> p \<in> set (shown_pins st) \<Longrightarrow> ov_mode st"
  by (auto simp: overlay_ok_def overlay_base_def)

lemma step_ok: "ov_step st st' \<Longrightarrow> overlay_ok st \<Longrightarrow> overlay_ok st'"
proof (induction rule: ov_step.induct)
  case (s_draft_key st c tx n D key meta)
  then show ?case by (simp add: draft_key_def submit_ok closed_ok)
next
  case (s_delete st c ann)
  then show ?case by (simp add: delete_button_def traffic_ok)
next
  case (s_status st c ann)
  then show ?case by (simp add: status_button_def traffic_ok)
next
  case (s_frames i st c el D)
  then show ?case by (simp add: twoFrames_def traffic_ok)
next
  case (s_submitted i st)
  then show ?case by (simp add: submitted_def traffic_ok visibility_ok)
qed (auto simp: scheduleLayout_def frame_ok intro: move_ok click_ok key_ok frame_step_ok lifecycle_ok viewer_ok shown_mode highlight_ok
    draft_ok parent_ok submit_ok closed_ok traffic_ok on_message_ok flash_ok)

text \<open>
  C5: in every state the overlay can reach - any events of the page and of the user, any messages and answers of the service
  worker, any page at every step - its variables agree: it listens and its timer runs exactly in annotation mode, it has a
  host then, a composer is open only for the picked element and only in the mode, the pins shown are those of its notes,
  and out of the mode it keeps no pins, card, hovered element or cached lookups.
\<close>

theorem overlay_stays_consistent:
  assumes "ov_reachable st"
  shows "ov_listening st = ov_mode st \<and> ov_timer st = ov_mode st \<and> (ov_mode st \<longrightarrow> ov_host st \<noteq> None)
    \<and> (ov_composer st \<longleftrightarrow> ov_picked st \<noteq> None) \<and> (ov_composer st \<longrightarrow> ov_mode st)
    \<and> (\<forall>c text. open_card st = Some c \<and> card_kind c = Composer text \<longrightarrow> card_node c = ov_picked st \<and> ov_composer st)
    \<and> (shown_pins st = [] \<or> map pin_ann (shown_pins st) = ov_items st)
    \<and> (\<not> ov_mode st \<longrightarrow> shown_pins st = [] \<and> open_card st = None \<and> ov_hovered st = None \<and> ov_cache st = [])"
proof -
  have "overlay_ok fresh_overlay"
    by (simp add: overlay_ok_def overlay_base_def fresh_overlay_def open_card_def shown_pins_def)
  with assms have "overlay_ok st" by (induction) (auto simp: lifecycle_ok intro: step_ok)
  then show ?thesis unfolding overlay_ok_def overlay_base_def by (elim conjE, intro conjI) (assumption | metis)+
qed

lemma overlay_stays_consistent_witness:
  "ov_listening (setMode sample_page 1 True (announce sample_page fresh_overlay)) = ov_mode (setMode sample_page 1 True (announce sample_page fresh_overlay))"
proof -
  let ?D = sample_page
  have "ov_installed (announce ?D fresh_overlay)" by (simp add: announce_def await_def send_def fresh_overlay_def)
  from s_message [OF this, where msg = "SetMode True" and D = ?D and now = 1 and D' = ?D]
  have "ov_step (announce ?D fresh_overlay) (setMode ?D 1 True (announce ?D fresh_overlay))" by (simp add: onMessage_def)
  from overlay_stays_consistent [OF ov_more [OF ov_start this]] show ?thesis by blast
qed

section \<open>Stopping\<close>

definition stopped :: "overlay \<Rightarrow> bool" where
  "stopped st \<longleftrightarrow> \<not> ov_mode st \<and> \<not> ov_listening st \<and> \<not> ov_timer st \<and> ov_host st = None \<and> ov_ui st = None \<and> \<not> ov_installed st \<and> \<not> ov_composer st"

definition nothing_due :: "overlay \<Rightarrow> bool" where
  "nothing_due st \<longleftrightarrow> Announcing \<notin> set (ov_pending st) \<and> (\<forall>n. FlashDue n \<notin> set (ov_pending st))"

lemma drop_pending_set: "set (ov_pending (drop_pending i st)) \<subseteq> set (ov_pending st)"
  by (auto simp: drop_pending_def dest: in_set_takeD in_set_dropD)

lemma stopped_frame: "stopped (drop_pending i st) = stopped st" "stopped (st\<lparr>ov_raf := b\<rparr>) = stopped st"
  "nothing_due (st\<lparr>ov_raf := b\<rparr>) = nothing_due st"
  by (simp_all add: stopped_def drop_pending_def nothing_due_def)

lemma nothing_dropped: "nothing_due st \<Longrightarrow> nothing_due (drop_pending i st)"
  using drop_pending_set [of i st] unfolding nothing_due_def by blast

lemma stopped_hidden: "stopped st \<Longrightarrow> stopped (closeCard st) \<and> stopped (set_visibility v st) \<and> stopped (teardownHost st) \<and> ov_pending (closeCard st) = ov_pending st"
  by (simp add: stopped_def closeCard_def hideHighlight_def with_ui_def set_visibility_def teardownHost_def)

lemma stopped_step:
  assumes "ov_step st st'" "stopped st" "nothing_due st"
  shows "stopped st' \<and> nothing_due st'"
  using assms
proof (cases rule: ov_step.cases)
  case (s_frames i c el D)
  with assms nothing_dropped [OF assms(3), of i] show ?thesis
    by (auto simp: twoFrames_def await_def send_def stopped_def nothing_due_def drop_pending_def)
next
  case (s_submitted i)
  with assms nothing_dropped [OF assms(3), of i] show ?thesis
    by (auto simp: submitted_def stopped_frame stopped_hidden) (simp add: nothing_due_def set_visibility_def)
next
  case (s_card i)
  with assms nothing_dropped [OF assms(3), of i] stopped_hidden [of "drop_pending i st"] show ?thesis
    by (auto simp: stopped_frame nothing_due_def)
next
  case (s_announced i D now res)
  with assms(3) show ?thesis unfolding nothing_due_def by (metis nth_mem)
next
  case (s_flash i n D)
  with assms(3) show ?thesis unfolding nothing_due_def by (metis nth_mem)
next
  case (s_flash_end i k)
  with assms nothing_dropped [OF assms(3), of i] show ?thesis
    by (auto simp: flash_end_def Let_def with_ui_def teardownHost_def stopped_def nothing_due_def drop_pending_def)
qed (use assms in \<open>auto simp: onMove_def onClick_def onKey_def stopped_def nothing_due_def open_card_def shown_bar_def shown_pins_def on_frame_def\<close>)

lemma destroyed: "overlay_ok st \<Longrightarrow> ov_mode st \<or> ov_host st = None \<Longrightarrow> stopped (destroy D now st) \<and> ov_pending (destroy D now st) = ov_pending st"
  by (cases "ov_mode st")
    (auto simp: destroy_def setMode_def teardownHost_def closeCard_def hideHighlight_def stopped_def overlay_ok_def overlay_base_def)

lemma reachable_ok: "ov_reachable st \<Longrightarrow> overlay_ok st"
proof (induction rule: ov_reachable.induct)
  case (ov_start D)
  have "overlay_ok fresh_overlay" by (simp add: overlay_ok_def overlay_base_def fresh_overlay_def open_card_def shown_pins_def)
  then show ?case by (rule lifecycle_ok)
qed (rule step_ok)

lemma render_same [simp]:
  "ov_mode (renderPins D now s) = ov_mode s" "ov_listening (renderPins D now s) = ov_listening s" "ov_timer (renderPins D now s) = ov_timer s"
  "ov_host (renderPins D now s) = ov_host s" "ov_installed (renderPins D now s) = ov_installed s" "ov_pending (renderPins D now s) = ov_pending s"
  "ov_items (renderPins D now s) = ov_items s" "ov_composer (renderPins D now s) = ov_composer s" "ov_pinsVisible (renderPins D now s) = ov_pinsVisible s"
proof -
  have "\<exists>c m u. renderPins D now s = s\<lparr>ov_cache := c, ov_misses := m, ov_ui := u\<rparr>"
  proof (cases "ov_ui s")
    case None
    then have "renderPins D now s = s\<lparr>ov_cache := ov_cache s, ov_misses := ov_misses s, ov_ui := None\<rparr>" by (simp add: renderPins_def)
    then show ?thesis by blast
  next
    case (Some u)
    show ?thesis by (rule render_effect [OF Some, of D now]) blast
  qed
  then obtain c m u where r: "renderPins D now s = s\<lparr>ov_cache := c, ov_misses := m, ov_ui := u\<rparr>" by blast
  show "ov_mode (renderPins D now s) = ov_mode s" "ov_listening (renderPins D now s) = ov_listening s" "ov_timer (renderPins D now s) = ov_timer s"
    "ov_host (renderPins D now s) = ov_host s" "ov_installed (renderPins D now s) = ov_installed s" "ov_pending (renderPins D now s) = ov_pending s"
    "ov_items (renderPins D now s) = ov_items s" "ov_composer (renderPins D now s) = ov_composer s" "ov_pinsVisible (renderPins D now s) = ov_pinsVisible s"
    unfolding r by simp_all
qed


text \<open>The overlay of a page in annotation mode, its opening question answered.\<close>

definition annotating :: "dom \<Rightarrow> overlay" where
  "annotating D = announced D 1 (Some (Ready True [])) (drop_pending 0 (announce D fresh_overlay))"

lemma annotating: "ov_reachable (annotating D)" "ov_mode (annotating D)" "ov_pending (annotating D) = []" "\<not> ov_composer (annotating D)"
  "ov_pinsVisible (annotating D)"
proof -
  let ?a = "announce D fresh_overlay"
  have p: "ov_pending ?a = [Announcing]" "\<not> ov_mode ?a" "\<not> ov_composer ?a" "ov_pinsVisible ?a" by (simp_all add: announce_def await_def send_def fresh_overlay_def)
  then have "ov_step ?a (annotating D)" unfolding annotating_def by (intro s_announced) simp_all
  then show "ov_reachable (annotating D)" by (rule ov_more [OF ov_start])
  show "ov_mode (annotating D)" "ov_pending (annotating D) = []" "\<not> ov_composer (annotating D)" "ov_pinsVisible (annotating D)"
    using p by (simp_all add: annotating_def announced_def setMode_def drop_pending_def ensureHost_def)
qed


text \<open>
  C38: if the answer to the overlay's opening question is still under way when the overlay is taken out, the answer brings it back
  for good: it is drawn and listens again, but no message of the service worker reaches it any more.
\<close>

theorem late_answer_revives_overlay:
  "let st = announced D now (Some (Ready True anns)) (drop_pending 0 (destroy D now (announce D fresh_overlay)))
   in ov_reachable st \<and> ov_mode st \<and> ov_listening st \<and> ov_timer st \<and> ov_host st \<noteq> None \<and> \<not> ov_installed st"
proof -
  let ?a = "announce D fresh_overlay"
  let ?b = "destroy D now ?a"
  let ?st = "announced D now (Some (Ready True anns)) (drop_pending 0 ?b)"
  have i: "ov_installed ?a" and p: "ov_pending ?a = [Announcing]" and m: "\<not> ov_mode ?a"
    by (simp_all add: announce_def await_def send_def fresh_overlay_def)
  have "ov_step ?a ?b" using s_message [OF i, where msg = "SetMode False" and D = D and now = now] by (simp add: onMessage_def)
  moreover have pb: "ov_pending ?b = [Announcing]" "\<not> ov_mode ?b" "\<not> ov_installed ?b" using m p by (simp_all add: destroy_def setMode_def)
  then have "ov_step ?b ?st" by (intro s_announced) simp_all
  ultimately have r: "ov_reachable ?st" using ov_more [OF ov_more [OF ov_start]] by blast
  let ?c = "(drop_pending 0 ?b)\<lparr>ov_items := anns\<rparr>"
  let ?d = "(ensureHost D (?c\<lparr>ov_mode := True\<rparr>))\<lparr>ov_listening := True, ov_timer := True\<rparr>"
  have st: "?st = renderPins D now (renderPins D now ?d)" using pb by (simp add: announced_def setMode_def drop_pending_def)
  have "ov_mode ?d \<and> ov_listening ?d \<and> ov_timer ?d \<and> ov_host ?d \<noteq> None \<and> \<not> ov_installed ?d"
    using pb by (auto simp: ensureHost_def drop_pending_def split: option.splits)
  with r show ?thesis unfolding Let_def st by (simp add: render_same)
qed

section \<open>Picking and saving\<close>

text \<open>
  C39: in annotation mode, with no note being written, a click on an element of the page is kept from the page and opens a composer
  for exactly that element: it is picked and highlighted, and the card hangs on it and describes it.
\<close>

theorem click_opens_composer_on_the_element:
  assumes "ov_reachable st" "ov_mode st" "\<not> ov_composer st" "pe_path e = PathNode n # rest" "n \<noteq> d_top D" "PathHost \<notin> set rest"
  shows "fst (onClick D e st) \<and> (let st' = snd (onClick D e st) in ov_picked st' = Some n \<and> map_option ui_highlight (ov_ui st') = Some (Some (d_rect D n))
    \<and> open_card st' = Some \<lparr>card_kind = Composer [], card_lines = [describeShort D n], card_node = Some n, card_pos = positionCard D (anchorRect D (Some n))\<rparr>)"
proof -
  have e: "onClick D e st = (True, openComposer D n st)"
    using assms by (simp add: onClick_def fromOverlay_def pickTarget_def)
  obtain h where h: "ov_host st = Some h" using reachable_ok [OF assms(1)] assms(2) by (auto simp: overlay_ok_def overlay_base_def)
  then obtain u where u: "ov_ui st = Some u" using reachable_ok [OF assms(1)] by (auto simp: overlay_ok_def overlay_base_def)
  show ?thesis unfolding e
    by (cases "host_connected h") (simp_all add: openComposer_def mountCard_def showHighlight_def Let_def ensureHost_def h u with_ui_def open_card_def new_host_def)
qed

lemma click_opens_composer_on_the_element_witness:
  "ov_picked (snd (onClick sample_page \<lparr>pe_path = [PathNode 3, PathNode 2], pe_target = Some 3\<rparr> (annotating sample_page))) = Some 3"
proof -
  have "(3::nat) \<noteq> d_top sample_page" by code_simp
  from click_opens_composer_on_the_element [OF annotating(1,2,4) _ this, of "\<lparr>pe_path = [PathNode 3, PathNode 2], pe_target = Some 3\<rparr>" "[PathNode 2]"]
  show ?thesis by (simp add: Let_def)
qed

lemma submit_parts:
  assumes "js_trim text \<noteq> []" and s_def: "s = twoFrames D' (js_trim text) (describe D n) (submit D text n st)"
  shows "ov_mode s = ov_mode st" "ov_pinsVisible s = ov_pinsVisible st"
    "last (ov_sent s) = Obj [(''type'', Str ''OWB_ANN_ADD''), (''input'', add_input D' (js_trim text) (describe D n))]"
    "ov_ui s = None \<longleftrightarrow> ov_ui st = None"
  using assms(1) unfolding s_def
  by (simp_all add: twoFrames_def submit_def Let_def await_def send_def set_visibility_def closeCard_def hideHighlight_def with_ui_def)

lemma draw_one:
  assumes "ov_cache st = []" "ov_misses st = []" "ov_ui st = Some u" "ui_pins u = []"
  shows "shown_pins (draw_pins D now [a] st) = [make_pin D a (hit_el (lookup D (record_json a)))]"
  using assms by (auto simp: resolve_ann_def Let_def with_ui_def split: option.split)



section \<open>What is drawn stays in the window\<close>

text \<open>
  Every pin drawn is inside the window, or parked outside it, which happens exactly to the notes whose element is gone or
  has no box.
\<close>

lemma pins_stay_in_the_window:
  assumes "p \<in> set (shown_pins (renderPins D now st))" "30 \<le> fst (d_window D)" "30 \<le> snd (d_window D)" "ov_ui st \<noteq> None"
  shows "if (case pin_node p of None \<Rightarrow> True | Some n \<Rightarrow> rect_w (d_rect D n) = 0 \<and> rect_h (d_rect D n) = 0)
    then pin_pos p = (- 9999, - 9999)
    else 0 \<le> fst (pin_pos p) \<and> fst (pin_pos p) + 30 \<le> fst (d_window D) \<and> 0 \<le> snd (pin_pos p) \<and> snd (pin_pos p) + 30 \<le> snd (d_window D)"
proof -
  from assms(4) obtain u where u: "ov_ui st = Some u" by blast
  obtain c m u' where "renderPins D now st = st\<lparr>ov_cache := c, ov_misses := m, ov_ui := Some u'\<rparr>"
      "\<forall>p \<in> set (ui_pins u'). pin_pos p = pin_place D (pin_node p)" by (rule render_effect [OF u])
  with assms(1) have "pin_pos p = pin_place D (pin_node p)" by (auto simp: shown_pins_def)
  with assms(2,3) show ?thesis by (auto simp: pin_place_def OFFSCREEN_def Let_def split: option.splits)
qed

lemma pins_stay_in_the_window_witness:
  "map pin_pos (shown_pins (renderPins sample_page 2 ((annotating sample_page)\<lparr>ov_items := [makeRecord (\<lambda>_. None) 1 (sample_input 3) Null Null []]\<rparr>)))
     = [(0, 0)]
   \<and> 0 + 30 \<le> fst (d_window sample_page)"
proof -
  let ?st = "(annotating sample_page)\<lparr>ov_items := [makeRecord (\<lambda>_. None) 1 (sample_input 3) Null Null []]\<rparr>"
  have p: "map pin_pos (shown_pins (renderPins sample_page 2 ?st)) = [(0, 0)]" "map pin_node (shown_pins (renderPins sample_page 2 ?st)) = [Some 3]"
    "30 \<le> fst (d_window sample_page)" "30 \<le> snd (d_window sample_page)" "ov_ui ?st \<noteq> None" "rect_w (d_rect sample_page 3) = 10" by code_simp+
  then obtain p where "shown_pins (renderPins sample_page 2 ?st) = [p]" "pin_pos p = (0, 0)" "pin_node p = Some 3" by auto
  with pins_stay_in_the_window [of p sample_page 2 ?st] p show ?thesis by simp
qed

text \<open>
  A card is never outside the left, right or upper edge of the window, if the window can hold it at all, and it is inside the
  lower edge exactly as long as the upper edge of its element is above the window's last four pixels.
\<close>

lemma card_stays_in_the_window:
  assumes "fst (d_card D) = w" "snd (d_card D) = h" "0 < w" "0 < h" "w + 24 \<le> fst (d_window D)" "h + 24 \<le> snd (d_window D)" "t \<le> b"
  shows "12 \<le> fst (positionCard D (l, t, b)) \<and> fst (positionCard D (l, t, b)) + w \<le> fst (d_window D) - 12
    \<and> 12 \<le> snd (positionCard D (l, t, b))
    \<and> (snd (positionCard D (l, t, b)) + h \<le> snd (d_window D) - 12 \<longleftrightarrow> t + 4 \<le> snd (d_window D))"
  using assms by (auto simp: positionCard_def Let_def)

lemma card_stays_in_the_window_witness: "fst (positionCard sample_page (790, 100, 120)) + 320 \<le> 788"
proof -
  have "fst (d_card sample_page) = 320" "snd (d_card sample_page) = 220" "d_window sample_page = (800, 600)" by code_simp+
  with card_stays_in_the_window [of sample_page 320 220 100 120 790] show ?thesis by simp
qed

section \<open>The overlay's own style\<close>

text \<open>
  The host starts with every property of its style pinned against the page, but after a note has been saved its visibility
  is not: the value set while the screenshot is taken has no priority, and taking it away removes the pin.
\<close>

lemma saving_unpins_visibility:
  assumes "js_trim text \<noteq> []" "ov_host st = Some new_host"
  shows "map_of (host_style new_host) ''visibility'' = Some (''visible'', True)
    \<and> map_option (\<lambda>h. map_of (host_style h) ''visibility'') (ov_host (submit D text n st)) = Some (Some (''hidden'', False))
    \<and> map_option (\<lambda>h. map_of (host_style h) ''visibility'') (ov_host (submitted (twoFrames D' c el (submit D text n st)))) = Some None"
proof -
  have "map_of (host_style new_host) ''visibility'' = Some (''visible'', True)" by code_simp
  moreover have "map_of (mput ''visibility'' v ss) ''visibility'' = Some v" "map_of (mdel ''visibility'' ss) ''visibility'' = None"
    for v and ss :: "(string \<times> string \<times> bool) list" by simp_all
  ultimately show ?thesis using assms
    by (simp add: submit_def Let_def submitted_def twoFrames_def await_def send_def set_visibility_def closeCard_def hideHighlight_def)
qed

lemma saving_unpins_visibility_witness:
  "map_option (\<lambda>h. map_of (host_style h) ''visibility'') (ov_host (submitted (twoFrames sample_page [] Null (submit sample_page ''x'' 3 (annotating sample_page))))) = Some None"
proof -
  have "js_trim ''x'' \<noteq> []" "ov_host (annotating sample_page) = Some new_host" by code_simp+
  from saving_unpins_visibility [OF this] show ?thesis by blast
qed

text \<open>The answer to a deletion closes whatever card is open by then, a composer with its draft too.\<close>

lemma card_answer_closes_any_card: "open_card (closeCard (drop_pending i st)) = None \<and> ov_sent (closeCard (drop_pending i st)) = ov_sent st"
  by (simp add: after_close) (simp add: closeCard_def hideHighlight_def drop_pending_def)

end
