(* ===== verification/Popup.thy ===== *)
theory Popup
  imports JsValue
begin

text \<open>
  \<^verbatim>\<open>popup.js\<close>: what the popup shows, and how clicks and the service worker's answers change it.  An answer is the value
  \<^verbatim>\<open>chrome.runtime.sendMessage\<close> resolves to; reading a property of no answer fails, and the function stops there.
\<close>

section \<open>What is shown\<close>

record popup =
  pp_url :: string
  pp_connected :: bool
  pp_msg :: "string \<times> string"
  pp_ann_msg :: "string \<times> string"
  pp_annotating :: bool
  pp_sent :: "jsval list"
  pp_refresh_due :: bool
  pp_closing :: bool

definition setMsg :: "string \<Rightarrow> string \<Rightarrow> popup \<Rightarrow> popup" where
  "setMsg t kind st = st\<lparr>pp_msg := (t, kind)\<rparr>"

definition setAnnMsg :: "string \<Rightarrow> string \<Rightarrow> popup \<Rightarrow> popup" where
  "setAnnMsg t kind st = st\<lparr>pp_ann_msg := (t, kind)\<rparr>"

definition renderAnnotate :: "jsval \<Rightarrow> popup \<Rightarrow> popup" where
  "renderAnnotate on st = st\<lparr>pp_annotating := truthy on\<rparr>"

definition render :: "jsval \<Rightarrow> jsval \<Rightarrow> popup \<Rightarrow> popup" where
  "render con url st = st\<lparr>pp_connected := truthy con,
     pp_url := (if truthy url \<and> pp_url st = [] then to_string url else pp_url st)\<rparr>"

definition tell :: "(string \<times> jsval) list \<Rightarrow> popup \<Rightarrow> popup" where
  "tell kvs st = st\<lparr>pp_sent := pp_sent st @ [Obj kvs]\<rparr>"

section \<open>Status\<close>

text \<open>The worker's status, and what is stored of the URL and the notice.\<close>

definition refreshed :: "jsval \<Rightarrow> jsval \<Rightarrow> jsval \<Rightarrow> popup \<Rightarrow> popup" where
  "refreshed status saved_url saved_notice st0 =
     (if nullish status then st0
      else let st1 = renderAnnotate (getp ''annotating'' status) (render (getp ''connected'' status) (getp ''url'' status) st0);
               st2 = (if pp_url st1 = [] \<and> truthy saved_url then st1\<lparr>pp_url := to_string saved_url\<rparr> else st1);
               n = js_or (getp ''notice'' status) saved_notice
           in if truthy n \<and> truthy (getp ''message'' n)
              then setMsg (to_string (getp ''message'' n)) (if getp ''level'' n = Str ''error'' then ''err'' else ''warn'') st2
              else setMsg [] [] st2)"

section \<open>Connecting\<close>

definition doConnect :: "string \<Rightarrow> popup \<Rightarrow> popup" where
  "doConnect url st = (if url = [] then setMsg ''Enter the WebSocket URL first.'' ''err'' st
     else tell [(''type'', Str ''TEST''), (''url'', Str url)] (setMsg (''Testing connection'' @ ELLIPSIS) [] st))"

definition connect_tested :: "string \<Rightarrow> jsval \<Rightarrow> popup \<Rightarrow> popup" where
  "connect_tested url test st =
     (if nullish test then st
      else if \<not> truthy (getp ''ok'' test)
      then setMsg (''Could not connect: '' @ to_string (js_or (getp ''reason'' test) (Str ''unknown''))) ''err'' st
      else tell [(''type'', Str ''CONNECT''), (''url'', Str url)] st)"

definition connect_answered :: "jsval \<Rightarrow> popup \<Rightarrow> popup" where
  "connect_answered answer st = (setMsg ''Connected.'' ''ok'' st)\<lparr>pp_refresh_due := True\<rparr>"

definition connect_click :: "popup \<Rightarrow> popup" where
  "connect_click st = doConnect (js_trim (pp_url st)) st"

definition disconnect_click :: "popup \<Rightarrow> popup" where
  "disconnect_click st = tell [(''type'', Str ''DISCONNECT'')] st"

definition disconnect_answered :: "popup \<Rightarrow> popup" where
  "disconnect_answered st = (setMsg ''Disconnected.'' [] st)\<lparr>pp_refresh_due := True\<rparr>"

text \<open>The query parameters \<^verbatim>\<open>url\<close> and \<^verbatim>\<open>connect\<close>.\<close>

definition handleDeepLink :: "string option \<Rightarrow> string option \<Rightarrow> popup \<Rightarrow> popup" where
  "handleDeepLink url con st = (case url of
      None \<Rightarrow> st
    | Some u \<Rightarrow> if u = [] then st else let st1 = st\<lparr>pp_url := u\<rparr> in if con = Some ''1'' then doConnect u st1 else st1)"

section \<open>Annotating\<close>

definition annotate_click :: "popup \<Rightarrow> popup" where
  "annotate_click st = tell [(''type'', Str ''TOGGLE_ANNOTATE'')] (setAnnMsg [] [] st)"

definition annotate_answered :: "jsval \<Rightarrow> popup \<Rightarrow> popup" where
  "annotate_answered res st =
     (if nullish res then st
      else if truthy (getp ''error'' res) then setAnnMsg (to_string (getp ''error'' res)) ''err'' st
      else let st1 = renderAnnotate (getp ''annotating'' res) st
        in if truthy (getp ''annotating'' res)
           then (setAnnMsg ''Click elements on the page to leave notes.'' ''ok'' st1)\<lparr>pp_closing := True\<rparr> else st1)"

section \<open>What it tells the user\<close>

text \<open>Refreshing never replaces a URL in the box, and shows the worker's notice before a stored one.\<close>

lemma refresh_keeps_typed_url: "pp_url st \<noteq> [] \<Longrightarrow> pp_url (refreshed status u n st) = pp_url st"
  by (simp add: refreshed_def Let_def setMsg_def renderAnnotate_def render_def)

lemma refresh_shows_status:
  "\<not> nullish status \<Longrightarrow> pp_connected (refreshed status u n st) = truthy (getp ''connected'' status)
    \<and> pp_annotating (refreshed status u n st) = truthy (getp ''annotating'' status)"
  by (simp add: refreshed_def Let_def setMsg_def renderAnnotate_def render_def)

text \<open>After a test that passed, the popup reports a connection whatever the worker answers, an error too.\<close>

lemma connected_whatever_the_answer: "pp_msg (connect_answered (Obj [(''error'', Str e)]) st) = (''Connected.'', ''ok'')"
  by (simp add: connect_answered_def setMsg_def)

text \<open>Nothing is asked of the worker without a URL.\<close>

lemma no_url_no_test: "js_trim (pp_url st) = [] \<Longrightarrow> pp_sent (connect_click st) = pp_sent st \<and> snd (pp_msg (connect_click st)) = ''err''"
  by (simp add: connect_click_def doConnect_def setMsg_def)

end
