(* ===== verification/Spec2Isabelle.thy ===== *)
theory Spec2Isabelle
  imports Background TabLock AnnProps OverlayProps Popup
begin

text \<open>
  Open WebBridge: a browser extension that lets a local daemon drive the user's own browser.  The development
  models the extension under \<^verbatim>\<open>src/open-webbridge-extension\<close> (paths below are relative to it).

  \<^bold>\<open>The program.\<close>  The daemon sends tool calls over a WebSocket (\<^verbatim>\<open>src/ws-client.js\<close>).  The dispatcher
  (\<^verbatim>\<open>src/dispatcher.js\<close>) looks the action up and runs the tool (\<^verbatim>\<open>src/tools/*.js\<close>) for the named session.
  A session is a tab group with the tabs opened under it (\<^verbatim>\<open>src/sessions.js\<close>, limits per domain in
  \<^verbatim>\<open>src/tablimit.js\<close>).  Tools act on its active tab through the debugger (\<^verbatim>\<open>src/cdp.js\<close>) and name elements by
  the references of the last snapshot (\<^verbatim>\<open>src/refs.js\<close>).  Apart from that the user annotates elements of a page:
  the overlay in the page (\<^verbatim>\<open>annotator.js\<close>) sends what it collects to the service worker, where
  \<^verbatim>\<open>src/annotations/mode.js\<close> keeps track of the tabs in annotation mode and \<^verbatim>\<open>src/annotations/store.js\<close> keeps the
  records, bounded by the rules of \<^verbatim>\<open>src/annotations/model.js\<close>.  \<^verbatim>\<open>src/background.js\<close> wires the browser's events
  to these modules, \<^verbatim>\<open>popup.js\<close> is the user's panel.

  \<^bold>\<open>How it is modelled.\<close>  A module's variables are the fields of a record, an exported function is a definition of the
  same name.  The service worker's modules share one state, grown by record extension in the order of the modules:
  \<open>core\<close> (the browser's world), \<open>cdp_state\<close>, \<open>refs_state\<close>, \<open>sess_state\<close>, \<open>dlg_state\<close>, \<open>net_state\<close>, \<open>ann_state\<close>,
  \<open>mode_state\<close>.  A function that awaits or throws is a program \<open>'s \<Rightarrow> (error + 'a) \<times> 's\<close> of the prelude, so every
  throw is a value and the effects before it stay.  The link (\<open>ws\<close>), the overlay (\<open>overlay\<close>), the lock
  (\<open>tab_lock\<close>), the session layer and the worker are also step relations whose reachable states carry the invariants.
  Values from JSON are \<open>jsval\<close>, with JavaScript's coercions; numbers are rationals with NaN and the infinities.

  \<^bold>\<open>The theories.\<close>
  \<^item> \<open>Prelude\<close>, \<open>JsValue\<close>, \<open>Errors\<close>: sets and maps in insertion order, programs and their Hoare rules, values and
    coercions, the errors.
  \<^item> \<open>Chrome\<close>: the \<^verbatim>\<open>chrome.*\<close> calls as a record of functions, their documented behaviour as locales, and the mock of
    the repository's tests, which meets them.
  \<^item> \<open>Cdp\<close>, \<open>Refs\<close>, \<open>TabLimit\<close>, \<open>Sessions\<close>: the modules of these names.  \<open>SessionInv\<close>: every operation keeps
    the session table well formed.  \<open>SessionProps\<close>: closing, replacing and limiting tabs.
    \<open>SessionSystem\<close>: any order of operations and browser events.  \<open>TabLock\<close>: \<^verbatim>\<open>withTabMutationLock\<close>.
  \<^item> \<open>Tabs\<close>, \<open>Snapshot\<close>, \<open>Interact\<close>, \<open>Dialogs\<close>, \<open>Network\<close>, \<open>Cookies\<close>: the tools of these names.
    \<open>PageTools\<close>: \<^verbatim>\<open>evaluate.js\<close>, \<^verbatim>\<open>frames.js\<close>, \<^verbatim>\<open>capture.js\<close>, \<^verbatim>\<open>emulate.js\<close>, \<^verbatim>\<open>downloads.js\<close>.  \<open>Recording\<close>: a
    browser with a log of its debugger's commands.  \<open>InteractProps\<close>, \<open>PageProps\<close>: what these tools send.
  \<^item> \<open>AnnModel\<close>, \<open>AnnStore\<close>, \<open>AnnMode\<close>, \<open>Annotate\<close>: records, store, mode, and the tools of
    \<^verbatim>\<open>src/tools/annotate.js\<close>.  \<open>AnnProps\<close>, \<open>AnnModeProps\<close>: order, persistence, bounds, screenshots, long polls.
  \<^item> \<open>WsClient\<close>, \<open>WsProps\<close>: the link.  \<open>Dispatcher\<close>: the registry and the way of one call.
  \<^item> \<open>Tools\<close>: every registered handler over the one state.  \<open>ToolFrames\<close>: what tools leave alone.  \<open>Worker\<close>: the
    invariant and the isolation of sessions for all of them.  \<open>Background\<close>: the listeners and the worker's steps.
  \<^item> \<open>Dom\<close>, \<open>Fingerprint\<close>, \<open>FingerprintProps\<close>: the page, the selectors an annotation records, the search that finds
    its element again.  \<open>SamplePage\<close>: pages given by a table, on which the properties are applied.
    \<open>Overlay\<close>, \<open>OverlayProps\<close>: the rest of \<^verbatim>\<open>annotator.js\<close>.  \<open>Popup\<close>: \<^verbatim>\<open>popup.js\<close>.

  \<^bold>\<open>What is shown.\<close>
  \<^item> Sessions: ownership is tracked to the tab, a call for one session leaves the others as they were whatever the action
    and its arguments, a navigation is let through only where the governing limit has room, a replacement whose close
    fails opens nothing, the lock is first come first served and cannot jam.
  \<^item> Link: one reconnect timer, one live socket, the reported state is true while lifecycle calls do not overlap, a dropped
    link is retried; and the overlap that overrides the user's URL.
  \<^item> Tools: one answer per call; printed references drive their node; a selector cannot leave the literal it is quoted
    in; the screenshot's region; capture buffers and dialog tables refine the history of events.
  \<^item> Annotations: ids are never reused, records are bounded, changes and modes survive a restart of the worker, long polls
    end; and the cases in which a flag, a mode or a filter is wrong.
  \<^item> Overlay: its variables agree in every state it can reach; an annotated element is found again; a saved note is pinned
    on its element; a stopped overlay stays away; and the cases in which it does not or the element is mistaken.
  \<^item> Worker: its state stays well formed through any events, messages, calls and restarts.

  \<^bold>\<open>Interfaces.\<close>  \<open>browser_tabs\<close>, \<open>browser_storage\<close>, \<open>browser\<close>, \<open>ann_storage\<close>, \<open>quiet_page\<close> and \<open>page_dom\<close> say what is
  documented of code outside the repository, and are interpreted on the tests' mock, on a store in memory and on table
  pages.  \<open>keyed_table\<close> and \<open>bounded_log\<close> are contracts of the program's maps and logs.  \<open>session_frame\<close>,
  \<open>page_client\<close>, \<open>annotation_frame\<close>, \<open>tool_host\<close> and \<open>worker\<close> carry an invariant of a layer to the layers above it;
  the model's own invariants interpret them.

  \<^bold>\<open>Fuel and bounds.\<close>  Two loops take fuel.  The walk of a snapshot: on an acyclic tree its height is enough, more
  fuel changes nothing, and \<open>None\<close> is the stack overflow of the code (\<open>te_stack\<close> is the stack of a call).  The long poll:
  its length is bounded by the deadline, as proved.  All other loops recurse on their data or on a measure (the collection
  of roots stops at 4000 elements, a recorded path at 8 CSS parts or 12 XPath steps).  Waiting for a navigation reads a
  list of at most 200 polls, what 30 seconds hold.

  \<^bold>\<open>Parameters.\<close>  The browser, the storage of annotations, the page's side of messages with the image pipeline, the
  document with its queries and layout, the debugger's targets, the download service, \<^verbatim>\<open>new URL\<close>,
  \<^verbatim>\<open>new WebSocket\<close>'s check of its argument, \<^verbatim>\<open>localeCompare\<close>, clocks, and what the world does while a call waits.

  \<^bold>\<open>Not modelled.\<close>
  \<^item> \<^verbatim>\<open>build.mjs\<close> runs a bundler, \<^verbatim>\<open>dist/\<close> is what it generates; \<^verbatim>\<open>*.test.js\<close> are tests; logging.
  \<^item> The overlay's style sheet, fixed captions and keyframes; texts outside Latin-1 (an ellipsis or a dash in a caption).
  \<^item> A handler of the tools runs to completion between events, except where a wait is part of the model: the suspended
    calls of the link, the waits of navigation, locating and long polls, the overlay's pending answers.  The
    lock that makes this true of tab-changing handlers is \<open>TabLock\<close>; a mode change that overlaps the first restore of a
    worker is not covered.
  \<^item> That the browser fires its alarms; the daemon (\<^verbatim>\<open>open-webbridge-daemon\<close>, a program in Go) and its side of the link.
\<close>

end
